theory Spec2Isabelle
  imports Main "HOL-Library.Word"
begin

unbundle bit_operations_syntax

section \<open>The SE05x T=1 block engine of libifdse (src/halse\_se05x.c)\<close>

text \<open>
  The driver talks to the secure element over I2C in T=1 style blocks
  \<open>NAD PCB LEN INF[LEN] CRC_hi CRC_lo\<close>. This theory embeds the block codec, the
  block engine, the ATR rewrite, the warm reset and the APDU exchange of
  \<^verbatim>\<open>halse_se05x.c\<close>.
  Bytes are \<open>8 word\<close>, the CRC is a \<open>16 word\<close>, return codes are \<open>int\<close>
  (0 is success), sizes (\<^verbatim>\<open>size_t\<close>) are \<open>nat\<close>.
\<close>

type_synonym byte = "8 word"

subsection \<open>Constants\<close>

abbreviation (input) SE05X_NAD :: byte where "SE05X_NAD \<equiv> 0x5A"
abbreviation (input) HOST_NAD :: byte where "HOST_NAD \<equiv> 0xA5"
abbreviation (input) SIZE_PROLOGUE :: nat where "SIZE_PROLOGUE \<equiv> 3"
abbreviation (input) SIZE_INF_MAX :: nat where "SIZE_INF_MAX \<equiv> 254"
abbreviation (input) SIZE_EPILOGUE :: nat where "SIZE_EPILOGUE \<equiv> 2"
abbreviation (input) SIZE_BUF :: nat where "SIZE_BUF \<equiv> 259"

abbreviation (input) I_BLOCK :: byte where "I_BLOCK \<equiv> 0x00"
abbreviation (input) I_BLOCK_MASK :: byte where "I_BLOCK_MASK \<equiv> 0x80"
abbreviation (input) R_BLOCK :: byte where "R_BLOCK \<equiv> 0x80"
abbreviation (input) R_BLOCK_MASK :: byte where "R_BLOCK_MASK \<equiv> 0xC0"
abbreviation (input) S_BLOCK :: byte where "S_BLOCK \<equiv> 0xC0"
abbreviation (input) S_BLOCK_MASK :: byte where "S_BLOCK_MASK \<equiv> 0xC0"
abbreviation (input) CMD_REQRES_MASK :: byte where "CMD_REQRES_MASK \<equiv> 0x20"
abbreviation (input) CMD_TYPE_MASK :: byte where "CMD_TYPE_MASK \<equiv> 0x1F"
abbreviation (input) CMD_ERROR_MASK :: byte where "CMD_ERROR_MASK \<equiv> 0x03"

text \<open>\<^verbatim>\<open>ETIMEDOUT\<close> of the Linux \<^verbatim>\<open>errno.h\<close>.\<close>

abbreviation (input) ETIMEDOUT :: int where "ETIMEDOUT \<equiv> 110"

datatype cmd_dir = CMD_REQ | CMD_RES

fun cmd_dir_val :: "cmd_dir \<Rightarrow> byte" where
  "cmd_dir_val CMD_REQ = 0x00"
| "cmd_dir_val CMD_RES = 0x20"

datatype cmd_type =
  CMD_RESYNC | CMD_SET_IFC | CMD_ABORT | CMD_WTX | CMD_SOFT_RESET | CMD_EOA | CMD_RESET | CMD_ATR

fun cmd_type_val :: "cmd_type \<Rightarrow> byte" where
  "cmd_type_val CMD_RESYNC = 0x00"
| "cmd_type_val CMD_SET_IFC = 0x01"
| "cmd_type_val CMD_ABORT = 0x02"
| "cmd_type_val CMD_WTX = 0x03"
| "cmd_type_val CMD_SOFT_RESET = 0x0F"
| "cmd_type_val CMD_EOA = 0x05"
| "cmd_type_val CMD_RESET = 0x06"
| "cmd_type_val CMD_ATR = 0x07"

subsection \<open>Session state and the I2C transport\<close>

text \<open>
  \<^verbatim>\<open>struct halse_se05x_dev\<close>: the cached ATR (\<open>atr_len\<close> is the length of the list),
  the sequence numbers (C \<^verbatim>\<open>int\<close>), and the two exchange buffers. In C both buffers
  are arrays of \<open>3 + 254 + 2 = 259\<close> bytes; \<open>wf_dev\<close> records that size.
  The handles and the timing fields only parameterise the transport and are part of
  the bus below.
\<close>

record se05x_dev =
  atr :: "byte list"
  n_s :: int
  n_r :: int
  txbuf :: "byte list"
  txlen :: nat
  txretransmit :: bool
  rxbuf :: "byte list"

definition wf_dev :: "se05x_dev \<Rightarrow> bool" where
  "wf_dev dev \<longleftrightarrow> length (txbuf dev) = SIZE_BUF \<and> length (rxbuf dev) = SIZE_BUF"

text \<open>
  The transport (\<^verbatim>\<open>hali2c_read_with_retry\<close>, \<^verbatim>\<open>hali2c_write_with_retry\<close>) is the
  environment. A bus holds what the environment will answer: \<open>rd\<close> lists, for each
  coming read call, the return code and the bytes the call leaves in the buffer;
  \<open>wr\<close> lists the return codes of the coming write calls; \<open>sent\<close> logs every frame
  handed to a write call, in order. When the device has nothing more to say the
  retry wrapper gives up with \<^verbatim>\<open>-ETIMEDOUT\<close>; that is the answer of an exhausted list.
  The guard-time sleeps have no effect on the data and are left out.
\<close>

record i2c_bus =
  rd :: "(int \<times> byte list) list"
  wr :: "int list"
  sent :: "byte list list"

text \<open>
  \<^verbatim>\<open>memcpy(dst + off, src, length src)\<close>, byte by byte. Every copy of the driver into
  its own buffers stays inside the 259 bytes; a byte outside the destination list is
  not stored.
\<close>

fun store :: "byte list \<Rightarrow> nat \<Rightarrow> byte list \<Rightarrow> byte list" where
  "store dst off [] = dst"
| "store dst off (b # bs) = store (dst[off := b]) (Suc off) bs"

definition halse_se05x_read_i2c ::
  "se05x_dev \<Rightarrow> i2c_bus \<Rightarrow> nat \<Rightarrow> nat \<Rightarrow> int \<times> se05x_dev \<times> i2c_bus" where
  "halse_se05x_read_i2c dev bus off len =
     (case rd bus of
        [] \<Rightarrow> (- ETIMEDOUT, dev, bus)
      | (ret, bs) # rest \<Rightarrow>
          (ret, dev\<lparr>rxbuf := store (rxbuf dev) off (take len bs)\<rparr>, bus\<lparr>rd := rest\<rparr>))"

definition halse_se05x_write_i2c :: "i2c_bus \<Rightarrow> byte list \<Rightarrow> nat \<Rightarrow> int \<times> i2c_bus" where
  "halse_se05x_write_i2c bus buf len =
     (case wr bus of
        [] \<Rightarrow> (- ETIMEDOUT, bus\<lparr>sent := sent bus @ [take len buf]\<rparr>)
      | ret # rest \<Rightarrow> (ret, bus\<lparr>wr := rest, sent := sent bus @ [take len buf]\<rparr>))"

subsection \<open>PCB classification\<close>

definition is_i_block :: "byte \<Rightarrow> bool" where
  "is_i_block pcb \<longleftrightarrow> pcb AND I_BLOCK_MASK = I_BLOCK"

definition is_r_block :: "byte \<Rightarrow> bool" where
  "is_r_block pcb \<longleftrightarrow> pcb AND R_BLOCK_MASK = R_BLOCK"

definition is_r_block_with_error :: "byte \<Rightarrow> bool" where
  "is_r_block_with_error pcb \<longleftrightarrow> is_r_block pcb \<and> pcb AND CMD_ERROR_MASK \<noteq> 0"

definition is_s_block :: "byte \<Rightarrow> bool" where
  "is_s_block pcb \<longleftrightarrow> pcb AND S_BLOCK_MASK = S_BLOCK"

definition is_s_block_request :: "byte \<Rightarrow> bool" where
  "is_s_block_request pcb \<longleftrightarrow> is_s_block pcb \<and> pcb AND CMD_REQRES_MASK = cmd_dir_val CMD_REQ"

definition is_s_block_response :: "byte \<Rightarrow> bool" where
  "is_s_block_response pcb \<longleftrightarrow> is_s_block pcb \<and> pcb AND CMD_REQRES_MASK = cmd_dir_val CMD_RES"

definition halse_se05x_clear_state :: "se05x_dev \<Rightarrow> se05x_dev" where
  "halse_se05x_clear_state dev = dev\<lparr>n_s := 0, n_r := 0\<rparr>"

definition halse_se05x_clear_buf :: "se05x_dev \<Rightarrow> se05x_dev" where
  "halse_se05x_clear_buf dev =
     dev\<lparr>txbuf := replicate SIZE_BUF 0, txlen := 0, txretransmit := False,
         rxbuf := replicate SIZE_BUF 0\<rparr>"

subsection \<open>CRC-16 and TCK\<close>

text \<open>\<^verbatim>\<open>swap_uint16\<close> of helpers.h: \<^verbatim>\<open>(v << 8) | (v >> 8)\<close>, cut to 16 bits.\<close>

definition swap_uint16 :: "16 word \<Rightarrow> 16 word" where
  "swap_uint16 v = push_bit 8 v OR drop_bit 8 v"

text \<open>The inner loop of the CRC: \<open>b\<close> rounds of shift and conditional xor.\<close>

fun crc_bits :: "nat \<Rightarrow> 16 word \<Rightarrow> 16 word" where
  "crc_bits 0 crc = crc"
| "crc_bits (Suc b) crc =
     crc_bits b (if crc AND 0x0001 = 0x0001 then drop_bit 1 crc XOR 0x8408 else drop_bit 1 crc)"

definition crc_byte :: "byte \<Rightarrow> 16 word \<Rightarrow> 16 word" where
  "crc_byte x crc = crc_bits 8 (crc XOR ucast x)"

definition halse_se05x_calculate_crc :: "byte list \<Rightarrow> nat \<Rightarrow> 16 word" where
  "halse_se05x_calculate_crc buf len =
     swap_uint16 (fold crc_byte (take len buf) 0xFFFF XOR 0xFFFF)"

definition halse_se05x_calculate_xor :: "byte list \<Rightarrow> nat \<Rightarrow> byte" where
  "halse_se05x_calculate_xor buf len = fold (\<lambda>x v. v XOR x) (take len buf) 0"

subsection \<open>Sending blocks\<close>

text \<open>
  \<^verbatim>\<open>halse_se05x_crc_and_send\<close>: append the CRC of the first \<open>len\<close> bytes of the
  transmit buffer, high byte first, remember the length and write the block.
\<close>

definition halse_se05x_crc_and_send ::
  "se05x_dev \<Rightarrow> i2c_bus \<Rightarrow> nat \<Rightarrow> int \<times> se05x_dev \<times> i2c_bus" where
  "halse_se05x_crc_and_send dev bus len =
     (let crc = halse_se05x_calculate_crc (txbuf dev) len;
          buf1 = (txbuf dev)[len := ucast (drop_bit 8 crc)];
          buf2 = buf1[len + 1 := ucast (crc AND 0xff)];
          dev' = dev\<lparr>txbuf := buf2, txlen := len + SIZE_EPILOGUE\<rparr>;
          (ret, bus') = halse_se05x_write_i2c bus (txbuf dev') (txlen dev')
      in (ret, dev', bus'))"

definition halse_se05x_resend :: "se05x_dev \<Rightarrow> i2c_bus \<Rightarrow> int \<times> se05x_dev \<times> i2c_bus" where
  "halse_se05x_resend dev bus =
     (if txretransmit dev then (- ETIMEDOUT, dev, bus)
      else
        let dev' = dev\<lparr>txretransmit := True\<rparr>;
            (ret, bus') = halse_se05x_write_i2c bus (txbuf dev') (txlen dev')
        in (ret, dev', bus'))"

text \<open>
  \<^verbatim>\<open>halse_se05x_send_s_block\<close>: \<open>buf\<close> is the memory the payload pointer points at
  (empty for \<^verbatim>\<open>NULL\<close>), of which \<open>len\<close> bytes are copied behind the prologue.
\<close>

definition halse_se05x_send_s_block ::
  "se05x_dev \<Rightarrow> i2c_bus \<Rightarrow> cmd_dir \<Rightarrow> cmd_type \<Rightarrow> byte list \<Rightarrow> nat \<Rightarrow> int \<times> se05x_dev \<times> i2c_bus"
  where
  "halse_se05x_send_s_block dev bus d t buf len =
     (if len > SIZE_INF_MAX then (- 1, dev, bus)
      else
        let b0 = (txbuf dev)[0 := SE05X_NAD];
            b1 = b0[1 := S_BLOCK OR cmd_dir_val d OR cmd_type_val t];
            b2 = b1[2 := of_nat len];
            b3 = store b2 3 (take len buf)
        in halse_se05x_crc_and_send (dev\<lparr>txbuf := b3\<rparr>) bus (SIZE_PROLOGUE + len))"


definition halse_se05x_send_r_block ::
  "se05x_dev \<Rightarrow> i2c_bus \<Rightarrow> byte \<Rightarrow> byte \<Rightarrow> int \<times> se05x_dev \<times> i2c_bus" where
  "halse_se05x_send_r_block dev bus nr ee =
     (let nr_field = push_bit 4 nr;
          b0 = (txbuf dev)[0 := SE05X_NAD];
          b1 = b0[1 := R_BLOCK OR nr_field OR ee];
          b2 = b1[2 := 0]
      in halse_se05x_crc_and_send (dev\<lparr>txbuf := b2\<rparr>) bus SIZE_PROLOGUE)"

subsection \<open>Receiving a block\<close>

text \<open>
  The first part of \<^verbatim>\<open>halse_se05x_recv_block\<close> (up to the CRC check): read five
  bytes to the start of the receive buffer, take LEN from byte 2, read LEN more bytes
  behind them, and compare the CRC of the first \<open>3 + LEN\<close> bytes with the two bytes
  that follow. \<open>len\<close> is the caller's \<^verbatim>\<open>*len\<close>, written once LEN has been accepted.
  A wrong NAD is only logged.
\<close>

definition crc_matches :: "byte list \<Rightarrow> nat \<Rightarrow> bool" where
  "crc_matches buf len \<longleftrightarrow>
     (let exp_crc = halse_se05x_calculate_crc buf (SIZE_PROLOGUE + len);
          act_crc = push_bit 8 (ucast (buf ! (SIZE_PROLOGUE + len)) :: 16 word)
                    OR ucast (buf ! (SIZE_PROLOGUE + len + 1))
      in exp_crc = act_crc)"

definition recv_frame ::
  "se05x_dev \<Rightarrow> i2c_bus \<Rightarrow> nat \<Rightarrow> int \<times> nat \<times> se05x_dev \<times> i2c_bus" where
  "recv_frame dev bus len =
     (let (ret, dev1, bus1) = halse_se05x_read_i2c dev bus 0 (SIZE_PROLOGUE + SIZE_EPILOGUE)
      in if ret \<noteq> 0 then (- 1, len, dev1, bus1)
         else if unat (rxbuf dev1 ! 2) > SIZE_INF_MAX then (- 1, len, dev1, bus1)
         else
           let len1 = unat (rxbuf dev1 ! 2);
               (ret2, dev2, bus2) =
                 (if len1 \<noteq> 0
                  then halse_se05x_read_i2c dev1 bus1 (SIZE_PROLOGUE + SIZE_EPILOGUE) len1
                  else (ret, dev1, bus1))
           in if ret2 \<noteq> 0 then (- 1, len1, dev2, bus2)
              else if \<not> crc_matches (rxbuf dev2) len1 then (- 1, len1, dev2, bus2)
              else (0, len1, dev2, bus2))"

text \<open>
  \<^verbatim>\<open>halse_se05x_recv_block\<close>: after an accepted frame, a WTX request is answered and
  an R-block with error bits triggers the retransmission; both then receive again
  (the tail calls of the source). Each call takes at least one answer from the finite
  \<open>rd\<close> list before it calls itself, which is the termination argument.
\<close>

function halse_se05x_recv_block ::
  "se05x_dev \<Rightarrow> i2c_bus \<Rightarrow> nat \<Rightarrow> int \<times> nat \<times> se05x_dev \<times> i2c_bus" where
  "halse_se05x_recv_block dev bus len =
     (case recv_frame dev bus len of (ret, len1, dev1, bus1) \<Rightarrow>
        if ret \<noteq> 0 then (ret, len1, dev1, bus1)
        else
          let pcb = rxbuf dev1 ! 1 in
          if is_s_block_request pcb then
            (if pcb AND CMD_TYPE_MASK = cmd_type_val CMD_WTX then
               (case halse_se05x_send_s_block dev1 bus1 CMD_RES CMD_WTX (drop 3 (rxbuf dev1)) 1 of
                  (ret3, dev3, bus3) \<Rightarrow>
                    if ret3 \<noteq> 0 then (- 1, len1, dev3, bus3)
                    else halse_se05x_recv_block dev3 bus3 len1)
             else (- 1, len1, dev1, bus1))
          else if is_r_block_with_error pcb then
            (case halse_se05x_resend dev1 bus1 of
               (ret4, dev4, bus4) \<Rightarrow>
                 if ret4 \<noteq> 0 then (ret4, len1, dev4, bus4)
                 else halse_se05x_recv_block dev4 bus4 len1)
          else (0, len1, dev1, bus1))"
  by pat_completeness auto

subsection \<open>Sending an I-block\<close>

text \<open>
  \<^verbatim>\<open>halse_se05x_send_i_block\<close>: \<open>buf\<close> is the memory at the payload pointer. N(S) is
  toggled before the block goes out. With \<open>chain\<close> the token-passing R-block is
  consumed; the receive gets the address of the parameter \<open>len\<close>.
\<close>

definition halse_se05x_send_i_block ::
  "se05x_dev \<Rightarrow> i2c_bus \<Rightarrow> byte list \<Rightarrow> nat \<Rightarrow> bool \<Rightarrow> int \<times> se05x_dev \<times> i2c_bus" where
  "halse_se05x_send_i_block dev bus buf len chain =
     (if len > SIZE_INF_MAX then (- 1, dev, bus)
      else
        let ns_field = (if n_s dev \<noteq> 0 then 0x40 else 0x00 :: byte);
            chain_field = (if chain then 0x20 else 0x00 :: byte);
            b0 = (txbuf dev)[0 := SE05X_NAD];
            b1 = b0[1 := I_BLOCK OR ns_field OR chain_field];
            b2 = b1[2 := of_nat len];
            dev1 = dev\<lparr>txbuf := b2, n_s := n_s dev XOR 1\<rparr>;
            dev2 = dev1\<lparr>txbuf := store (txbuf dev1) 3 (take len buf)\<rparr>
        in case halse_se05x_crc_and_send dev2 bus (SIZE_PROLOGUE + len) of
             (ret, dev3, bus3) \<Rightarrow>
               if ret \<noteq> 0 then (- 1, dev3, bus3)
               else if chain then
                 (case halse_se05x_recv_block dev3 bus3 len of
                    (ret', len', dev4, bus4) \<Rightarrow>
                      if ret' \<noteq> 0 then (ret', dev4, bus4)
                      else
                        let pcb = rxbuf dev4 ! 1 in
                        if \<not> is_r_block pcb then (- 1, dev4, bus4)
                        else
                          let ee = pcb AND CMD_ERROR_MASK in
                          if ee \<noteq> 0 then (- 1, dev4, bus4)
                          else
                            let nr = drop_bit 4 pcb AND 0x01 in
                            if uint nr \<noteq> n_s dev4 then (- 1, dev4, bus4)
                            else (0, dev4, bus4))
               else (0, dev3, bus3))"

subsection \<open>ATR rewrite\<close>

text \<open>
  \<^verbatim>\<open>halse_se05x_get_atr\<close> reads the cached ATR and writes the caller's buffer without
  any bounds check of its own. \<open>buf\<close> is the caller's buffer and \<open>len\<close> the value
  behind the length pointer before the call. A read outside the cached ATR or a write
  outside the caller's buffer is undefined in C: the model then answers \<open>None\<close>.
\<close>

definition atr_prologue :: "byte list" where
  "atr_prologue = [0x3B, 0xF0, 0x96, 0x00, 0x00, 0x80, 0x11, 0xFE]"

definition mem_read :: "byte list \<Rightarrow> nat \<Rightarrow> byte option" where
  "mem_read m i = (if i < length m then Some (m ! i) else None)"

definition halse_se05x_get_atr ::
  "se05x_dev \<Rightarrow> byte list \<Rightarrow> nat \<Rightarrow> (int \<times> byte list \<times> nat) option" where
  "halse_se05x_get_atr dev buf len =
     (let offset_hb0 = 1 + 5 in
      case mem_read (atr dev) offset_hb0 of None \<Rightarrow> None
      | Some dllp_len \<Rightarrow>
     (let offset_hb1 = offset_hb0 + (1 + unat dllp_len);
          offset_hb2 = offset_hb1 + 1 in
      case mem_read (atr dev) offset_hb2 of None \<Rightarrow> None
      | Some plp_len \<Rightarrow>
     (let offset_hb3 = offset_hb2 + (1 + unat plp_len) in
      case mem_read (atr dev) offset_hb3 of None \<Rightarrow> None
      | Some hb \<Rightarrow>
     (let len_hb = unat hb;
          offset_hb = offset_hb3 + 1 in
      if len_hb > 15 then Some (- 1, buf, len)
      else if length buf < length atr_prologue + len_hb + 1 then None
      else if length (atr dev) < offset_hb + len_hb then None
      else
        let buf1 = store buf 0 atr_prologue;
            i1 = length atr_prologue;
            buf2 = buf1[1 := buf1 ! 1 OR of_nat len_hb];
            buf3 = store buf2 i1 (take len_hb (drop offset_hb (atr dev)));
            i2 = i1 + len_hb;
            buf4 = buf3[i2 := halse_se05x_calculate_xor (drop 1 buf3) (i2 - 1)];
            i3 = i2 + 1
        in Some (0, buf4, i3)))))"

subsection \<open>APDU exchange\<close>

text \<open>
  The write loop of \<^verbatim>\<open>halse_se05x_xfer\<close>: I-blocks of at most 254 bytes, chained
  while bytes remain. \<open>tx\<close> is the memory at \<open>tx_buf\<close>.
\<close>

function xfer_write_loop ::
  "se05x_dev \<Rightarrow> i2c_bus \<Rightarrow> byte list \<Rightarrow> nat \<Rightarrow> nat \<Rightarrow> int \<times> se05x_dev \<times> i2c_bus" where
  "xfer_write_loop dev bus tx tx_len tx_off =
     (let left = tx_len - tx_off;
          len = (if SIZE_INF_MAX > left then left else SIZE_INF_MAX);
          chain = (left - len > 0)
      in case halse_se05x_send_i_block dev bus (drop tx_off tx) len chain of
           (ret, dev', bus') \<Rightarrow>
             if ret \<noteq> 0 then (ret, dev', bus')
             else if chain then xfer_write_loop dev' bus' tx tx_len (tx_off + len)
             else (ret, dev', bus'))"
  by pat_completeness auto

text \<open>
  The read loop: \<open>cap\<close> is the value of \<^verbatim>\<open>*rx_len\<close> on entry, \<open>rx\<close> the memory at
  \<open>rx_buf\<close>. The result carries the return code, the receive buffer and the value of
  \<^verbatim>\<open>*rx_len\<close> when the label \<^verbatim>\<open>end\<close> is reached: \<open>rx_off\<close> after the loop has run
  to its end, still \<open>cap\<close> on every \<^verbatim>\<open>goto end\<close>. A block that is not an I-block
  jumps to \<^verbatim>\<open>end\<close> with the return code of the receive, which is 0.
\<close>

function xfer_read_loop ::
  "se05x_dev \<Rightarrow> i2c_bus \<Rightarrow> byte list \<Rightarrow> nat \<Rightarrow> nat \<Rightarrow> int \<times> byte list \<times> nat \<times> se05x_dev \<times> i2c_bus"
  where
  "xfer_read_loop dev bus rx cap rx_off =
     (case halse_se05x_recv_block dev bus 0 of
        (ret, len, dev1, bus1) \<Rightarrow>
          if ret \<noteq> 0 then (ret, rx, cap, dev1, bus1)
          else
            let pcb = rxbuf dev1 ! 1 in
            if \<not> is_i_block pcb then (ret, rx, cap, dev1, bus1)
            else
              let len' = (if rx_off + len > cap then cap - rx_off else len);
                  rx' = store rx rx_off (take len' (drop 3 (rxbuf dev1)));
                  rx_off' = rx_off + len';
                  chain = (drop_bit 5 pcb AND 0x01 \<noteq> 0)
              in if chain then
                   (let ee = 0 :: byte;
                        ns = drop_bit 6 pcb AND 1;
                        nr = ns XOR 1
                    in case halse_se05x_send_r_block dev1 bus1 nr ee of
                         (ret', dev2, bus2) \<Rightarrow>
                           if ret' \<noteq> 0 then (ret', rx', cap, dev2, bus2)
                           else xfer_read_loop dev2 bus2 rx' cap rx_off')
                 else (ret, rx', rx_off', dev1, bus1))"
  by pat_completeness auto

text \<open>
  \<^verbatim>\<open>halse_se05x_xfer\<close>. A pointer argument is \<open>None\<close> when it is \<^verbatim>\<open>NULL\<close>;
  \<open>rx_len\<close> is the pointer to the capacity, so \<open>Some cap\<close> is a valid pointer to the
  value \<open>cap\<close>. The result is the return code, the device and bus, the receive buffer
  and the value behind \<open>rx_len\<close> after the call.
\<close>

definition halse_se05x_xfer ::
  "se05x_dev \<Rightarrow> i2c_bus \<Rightarrow> byte list option \<Rightarrow> nat \<Rightarrow> byte list option \<Rightarrow> nat option
     \<Rightarrow> int \<times> se05x_dev \<times> i2c_bus \<times> byte list option \<times> nat option" where
  "halse_se05x_xfer dev bus tx_buf tx_len rx_buf rx_len =
     (case (tx_buf, rx_buf, rx_len) of
        (Some tx, Some rx, Some cap) \<Rightarrow>
          if tx_len = 0 then (- 1, halse_se05x_clear_buf dev, bus, rx_buf, rx_len)
          else
            (case xfer_write_loop dev bus tx tx_len 0 of
               (ret, dev1, bus1) \<Rightarrow>
                 if ret \<noteq> 0 then (ret, halse_se05x_clear_buf dev1, bus1, rx_buf, rx_len)
                 else
                   (case xfer_read_loop dev1 bus1 rx cap 0 of
                      (ret', rx', rx_len', dev2, bus2) \<Rightarrow>
                        (ret', halse_se05x_clear_buf dev2, bus2, Some rx', Some rx_len')))
      | _ \<Rightarrow> (- 1, halse_se05x_clear_buf dev, bus, rx_buf, rx_len))"

subsection \<open>Warm reset\<close>



subsection \<open>Session start and runs of calls\<close>

text \<open>
  \<^verbatim>\<open>halse_open_se05x\<close> allocates the session with \<^verbatim>\<open>calloc\<close>: every field is zero,
  no ATR is cached yet.
\<close>

definition dev_calloc :: se05x_dev where
  "dev_calloc = \<lparr>atr = [], n_s = 0, n_r = 0, txbuf = replicate SIZE_BUF 0, txlen = 0,
      txretransmit = False, rxbuf = replicate SIZE_BUF 0\<rparr>"

text \<open>
  A run of \<^verbatim>\<open>halse_se05x_send_i_block\<close> calls, each on the state the previous one
  left, stopping at the first call that fails (as the write loop of the exchange does).
\<close>

fun send_i_blocks ::
  "se05x_dev \<Rightarrow> i2c_bus \<Rightarrow> (byte list \<times> nat \<times> bool) list \<Rightarrow> int \<times> se05x_dev \<times> i2c_bus" where
  "send_i_blocks dev bus [] = (0, dev, bus)"
| "send_i_blocks dev bus ((buf, len, chain) # calls) =
     (case halse_se05x_send_i_block dev bus buf len chain of
        (ret, dev', bus') \<Rightarrow>
          if ret \<noteq> 0 then (ret, dev', bus') else send_i_blocks dev' bus' calls)"

text \<open>The transmit buffer and N(S) of \<open>send_i_block\<close> just before the CRC is appended.\<close>

definition i_block_staged :: "se05x_dev \<Rightarrow> byte list \<Rightarrow> nat \<Rightarrow> bool \<Rightarrow> se05x_dev" where
  "i_block_staged dev buf len chain =
     dev\<lparr>n_s := n_s dev XOR 1,
         txbuf := store ((txbuf dev)[0 := SE05X_NAD,
                1 := I_BLOCK OR (if n_s dev \<noteq> 0 then 0x40 else 0x00) OR
                     (if chain then 0x20 else 0x00),
                2 := of_nat len]) 3 (take len buf)\<rparr>"

subsection \<open>Frames on the wire\<close>

text \<open>
  Vocabulary for stating what is sent and received. \<open>epilogue\<close> is the two CRC bytes
  \<^verbatim>\<open>halse_se05x_crc_and_send\<close> appends to a block body, \<open>block\<close> the complete frame with
  prologue, INF and epilogue. \<open>deliver\<close> is how a frame reaches the two reads of
  \<^verbatim>\<open>halse_se05x_recv_block\<close>: the first five bytes answer the first read, the remaining
  LEN bytes the second (which is only issued when LEN is not 0). \<open>wr_result\<close> and
  \<open>logged\<close> are the return code and the bus after one write call.
\<close>

definition epilogue :: "byte list \<Rightarrow> byte list" where
  "epilogue body =
     (let crc = halse_se05x_calculate_crc body (length body)
      in [ucast (drop_bit 8 crc), ucast (crc AND 0xff)])"

definition block :: "byte \<Rightarrow> byte \<Rightarrow> byte list \<Rightarrow> byte list" where
  "block nad pcb info =
     (let body = [nad, pcb, of_nat (length info)] @ info in body @ epilogue body)"

definition deliver :: "byte list \<Rightarrow> (int \<times> byte list) list" where
  "deliver f = (if length f \<le> 5 then [(0, f)] else [(0, take 5 f), (0, drop 5 f)])"

definition wr_result :: "i2c_bus \<Rightarrow> int" where
  "wr_result bus = (case wr bus of [] \<Rightarrow> - ETIMEDOUT | ret # rest \<Rightarrow> ret)"

definition logged :: "i2c_bus \<Rightarrow> byte list \<Rightarrow> i2c_bus" where
  "logged bus frame = bus\<lparr>wr := tl (wr bus), sent := sent bus @ [frame]\<rparr>"

definition wtx_request :: "byte \<Rightarrow> byte list" where
  "wtx_request x = block HOST_NAD 0xC3 [x]"

definition wtx_wire :: "byte \<Rightarrow> (int \<times> byte list) list" where
  "wtx_wire x = deliver (wtx_request x)"

definition wtx_response :: "byte \<Rightarrow> byte list" where
  "wtx_response x = [SE05X_NAD, 0xE3, 0x01, x] @ epilogue [SE05X_NAD, 0xE3, 0x01, x]"

fun i_block_wire :: "byte \<times> byte list \<Rightarrow> (int \<times> byte list) list" where
  "i_block_wire (pcb, info) = deliver (block HOST_NAD pcb info)"

definition chain_wire :: "(byte \<times> byte list) list \<Rightarrow> (int \<times> byte list) list" where
  "chain_wire blocks = concat (map i_block_wire blocks)"

fun chain_ack :: "byte \<times> byte list \<Rightarrow> byte list" where
  "chain_ack (pcb, info) =
     block SE05X_NAD (R_BLOCK OR push_bit 4 ((drop_bit 6 pcb AND 1) XOR 1) OR 0) []"

fun well_chained :: "(byte \<times> byte list) list \<Rightarrow> bool" where
  "well_chained [] \<longleftrightarrow> False"
| "well_chained [(pcb, info)] \<longleftrightarrow>
     is_i_block pcb \<and> length info \<le> SIZE_INF_MAX \<and> drop_bit 5 pcb AND 0x01 = 0"
| "well_chained ((pcb, info) # b # bs) \<longleftrightarrow>
     is_i_block pcb \<and> length info \<le> SIZE_INF_MAX \<and> drop_bit 5 pcb AND 0x01 \<noteq> 0 \<and>
     well_chained (b # bs)"

definition rx_filled :: "byte list \<Rightarrow> nat \<Rightarrow> nat \<Rightarrow> byte list \<Rightarrow> byte list" where
  "rx_filled rx cap rx_off bytes =
     take rx_off rx @ take (cap - rx_off) bytes @ drop (min cap (rx_off + length bytes)) rx"

section \<open>Basic facts\<close>

subsection \<open>Buffers, the bus and termination\<close>

lemma length_store [simp]: "length (store dst off src) = length dst"
  by (induction src arbitrary: dst off) auto

lemma store_append:
  "off + length src \<le> length dst \<Longrightarrow>
   store dst off src = take off dst @ src @ drop (off + length src) dst"
proof (induction src arbitrary: dst off)
  case Nil
  then show ?case by simp
next
  case (Cons b bs)
  then have "off < length dst" by simp
  then have upd: "dst[off := b] = take off dst @ b # drop (Suc off) dst"
    by (simp add: upd_conv_take_nth_drop)
  from Cons.prems have "Suc off + length bs \<le> length (dst[off := b])" by simp
  from Cons.IH [OF this] show ?case
    using \<open>off < length dst\<close> by (simp add: upd take_Suc_conv_app_nth add.commute)
qed

lemma write_i2c_rd: "halse_se05x_write_i2c bus buf len = (r, bus') \<Longrightarrow> rd bus' = rd bus"
  by (auto simp: halse_se05x_write_i2c_def split: list.splits)

lemma crc_and_send_rd:
  "halse_se05x_crc_and_send dev bus len = (r, dev', bus') \<Longrightarrow> rd bus' = rd bus"
  by (auto simp: halse_se05x_crc_and_send_def Let_def split: prod.splits dest: write_i2c_rd)

lemma send_s_block_rd:
  "halse_se05x_send_s_block dev bus d t buf len = (r, dev', bus') \<Longrightarrow> rd bus' = rd bus"
  by (auto simp: halse_se05x_send_s_block_def Let_def split: if_splits dest: crc_and_send_rd)

lemma send_r_block_rd:
  "halse_se05x_send_r_block dev bus nr ee = (r, dev', bus') \<Longrightarrow> rd bus' = rd bus"
  by (auto simp: halse_se05x_send_r_block_def Let_def dest: crc_and_send_rd)

lemma resend_rd: "halse_se05x_resend dev bus = (r, dev', bus') \<Longrightarrow> rd bus' = rd bus"
  by (auto simp: halse_se05x_resend_def Let_def split: if_splits prod.splits dest: write_i2c_rd)

lemma read_i2c_rd_le:
  "halse_se05x_read_i2c dev bus off len = (r, dev', bus') \<Longrightarrow> length (rd bus') \<le> length (rd bus)"
  by (auto simp: halse_se05x_read_i2c_def split: list.splits)

lemma read_i2c_rd_less:
  "halse_se05x_read_i2c dev bus off len = (0, dev', bus') \<Longrightarrow> length (rd bus') < length (rd bus)"
  by (auto simp: halse_se05x_read_i2c_def split: list.splits)

lemma recv_frame_rd_less:
  assumes "recv_frame dev bus len = (0, len1, dev1, bus1)"
  shows "length (rd bus1) < length (rd bus)"
proof -
  obtain r da ba where first: "halse_se05x_read_i2c dev bus 0 5 = (r, da, ba)"
    by (metis prod_cases3)
  with assms have r0: "r = 0"
    by (auto simp: recv_frame_def Let_def split: if_splits prod.splits)
  from first r0 have lt: "length (rd ba) < length (rd bus)"
    by (auto dest: read_i2c_rd_less)
  show ?thesis
  proof (cases "unat (rxbuf da ! 2) = 0")
    case True
    with assms first r0 have "bus1 = ba"
      by (auto simp: recv_frame_def Let_def split: if_splits prod.splits)
    with lt show ?thesis by simp
  next
    case False
    with assms first r0 obtain r2 where
      "halse_se05x_read_i2c da ba 5 (unat (rxbuf da ! 2)) = (r2, dev1, bus1)"
      by (auto simp: recv_frame_def Let_def split: if_splits prod.splits)
    then have "length (rd bus1) \<le> length (rd ba)"
      by (rule read_i2c_rd_le)
    with lt show ?thesis by simp
  qed
qed

termination halse_se05x_recv_block
proof (relation "measure (\<lambda>(dev, bus, len). length (rd bus))", goal_cases)
  case 1
  show ?case by simp
next
  case (2 dev bus len x1 x2 len1 x3 dev1 bus1 pcb x4 x5 dev3 bus3)
  then have "length (rd bus1) < length (rd bus)" "rd bus3 = rd bus1"
    by (auto dest: recv_frame_rd_less [OF sym] send_s_block_rd [OF sym])
  then show ?case by simp
next
  case (3 dev bus len x1 x2 len1 x3 dev1 bus1 pcb x4 x5 dev4 bus4)
  then have "length (rd bus1) < length (rd bus)" "rd bus4 = rd bus1"
    by (auto dest: recv_frame_rd_less [OF sym] resend_rd [OF sym])
  then show ?case by simp
qed

declare halse_se05x_recv_block.simps [simp del]

termination xfer_write_loop
  by (relation "measure (\<lambda>(dev, bus, tx, tx_len, tx_off). tx_len - tx_off)")
     (auto split: if_splits)

subsection \<open>What the operations leave alone\<close>

lemma recv_block_rel:
  assumes refl: "\<And>d b. R d b d b"
    and trans: "\<And>d1 b1 d2 b2 d3 b3. R d1 b1 d2 b2 \<Longrightarrow> R d2 b2 d3 b3 \<Longrightarrow> R d1 b1 d3 b3"
    and frame: "\<And>d b l r l' d' b'. recv_frame d b l = (r, l', d', b') \<Longrightarrow> R d b d' b'"
    and sblk: "\<And>d b dir t buf l r d' b'.
                 halse_se05x_send_s_block d b dir t buf l = (r, d', b') \<Longrightarrow> R d b d' b'"
    and rsnd: "\<And>d b r d' b'. halse_se05x_resend d b = (r, d', b') \<Longrightarrow> R d b d' b'"
  shows "halse_se05x_recv_block dev bus len = (r, l, dev', bus') \<Longrightarrow> R dev bus dev' bus'"
proof (induction dev bus len arbitrary: r l dev' bus' rule: halse_se05x_recv_block.induct)
  case (1 dev bus len)
  obtain r1 l1 d1 b1 where f: "recv_frame dev bus len = (r1, l1, d1, b1)"
    by (metis prod_cases4)
  have R1: "R dev bus d1 b1" using frame [OF f] .
  obtain r3 d3 b3 where s:
    "halse_se05x_send_s_block d1 b1 CMD_RES CMD_WTX (drop 3 (rxbuf d1)) 1 = (r3, d3, b3)"
    by (metis prod_cases3)
  obtain r4 d4 b4 where rs: "halse_se05x_resend d1 b1 = (r4, d4, b4)"
    by (metis prod_cases3)
  have IH1: "R d3 b3 dev' bus'"
    if "r1 = 0" "is_s_block_request (rxbuf d1 ! 1)" "rxbuf d1 ! 1 AND 31 = 3" "r3 = 0"
      "halse_se05x_recv_block d3 b3 l1 = (r, l, dev', bus')"
    using "1.IH"(1) [of r1 "(l1, d1, b1)" l1 "(d1, b1)" d1 b1 "rxbuf d1 ! 1" r3 "(d3, b3)" d3 b3]
      f s that by (simp del: One_nat_def)
  have IH2: "R d4 b4 dev' bus'"
    if "r1 = 0" "\<not> is_s_block_request (rxbuf d1 ! 1)" "is_r_block_with_error (rxbuf d1 ! 1)"
      "r4 = 0" "halse_se05x_recv_block d4 b4 l1 = (r, l, dev', bus')"
    using "1.IH"(2) [of r1 "(l1, d1, b1)" l1 "(d1, b1)" d1 b1 "rxbuf d1 ! 1" r4 "(d4, b4)" d4 b4]
      f rs that by (simp del: One_nat_def)
  show ?case
    using "1.prems" R1 IH1 IH2 sblk [OF s] rsnd [OF rs]
    by (subst (asm) halse_se05x_recv_block.simps)
       (auto simp del: One_nat_def simp: f s rs Let_def split: if_splits intro: trans)
qed

text \<open>What each operation leaves alone.\<close>

lemma read_i2c_fields:
  "halse_se05x_read_i2c dev bus off len = (r, dev', bus') \<Longrightarrow>
   n_s dev' = n_s dev \<and> n_r dev' = n_r dev \<and> txbuf dev' = txbuf dev \<and> txlen dev' = txlen dev \<and>
   txretransmit dev' = txretransmit dev \<and> atr dev' = atr dev \<and>
   length (rxbuf dev') = length (rxbuf dev) \<and> wr bus' = wr bus \<and> sent bus' = sent bus"
  by (auto simp: halse_se05x_read_i2c_def split: list.splits)

lemma recv_frame_fields:
  assumes "recv_frame dev bus len = (r, l, dev', bus')"
  shows "n_s dev' = n_s dev \<and> n_r dev' = n_r dev \<and> txbuf dev' = txbuf dev \<and> txlen dev' = txlen dev \<and>
   txretransmit dev' = txretransmit dev \<and> atr dev' = atr dev \<and>
   length (rxbuf dev') = length (rxbuf dev) \<and> wr bus' = wr bus \<and> sent bus' = sent bus"
proof -
  obtain r1 da ba where first: "halse_se05x_read_i2c dev bus 0 5 = (r1, da, ba)"
    by (metis prod_cases3)
  obtain r2 db bb where second:
    "halse_se05x_read_i2c da ba 5 (unat (rxbuf da ! 2)) = (r2, db, bb)"
    by (metis prod_cases3)
  from assms have "(dev' = da \<and> bus' = ba) \<or> (dev' = db \<and> bus' = bb)"
    by (auto simp: recv_frame_def first second Let_def split: if_splits)
  with read_i2c_fields [OF first] read_i2c_fields [OF second] show ?thesis
    by auto
qed

lemma crc_and_send_fields:
  "halse_se05x_crc_and_send dev bus len = (r, dev', bus') \<Longrightarrow>
   n_s dev' = n_s dev \<and> n_r dev' = n_r dev \<and> rxbuf dev' = rxbuf dev \<and>
   txretransmit dev' = txretransmit dev \<and> atr dev' = atr dev \<and>
   length (txbuf dev') = length (txbuf dev) \<and> txlen dev' = len + 2"
  by (auto simp: halse_se05x_crc_and_send_def Let_def split: prod.splits)

lemma send_s_block_fields:
  "halse_se05x_send_s_block dev bus d t buf len = (r, dev', bus') \<Longrightarrow>
   n_s dev' = n_s dev \<and> n_r dev' = n_r dev \<and> rxbuf dev' = rxbuf dev \<and>
   txretransmit dev' = txretransmit dev \<and> atr dev' = atr dev \<and>
   length (txbuf dev') = length (txbuf dev)"
  by (auto simp: halse_se05x_send_s_block_def Let_def split: if_splits dest!: crc_and_send_fields)

lemma send_r_block_fields:
  "halse_se05x_send_r_block dev bus nr ee = (r, dev', bus') \<Longrightarrow>
   n_s dev' = n_s dev \<and> n_r dev' = n_r dev \<and> rxbuf dev' = rxbuf dev \<and>
   txretransmit dev' = txretransmit dev \<and> atr dev' = atr dev \<and>
   length (txbuf dev') = length (txbuf dev)"
  by (auto simp: halse_se05x_send_r_block_def Let_def dest!: crc_and_send_fields)

lemma resend_fields:
  "halse_se05x_resend dev bus = (r, dev', bus') \<Longrightarrow>
   n_s dev' = n_s dev \<and> n_r dev' = n_r dev \<and> rxbuf dev' = rxbuf dev \<and>
   txbuf dev' = txbuf dev \<and> txlen dev' = txlen dev \<and> atr dev' = atr dev \<and>
   (txretransmit dev \<longrightarrow> txretransmit dev')"
  by (auto simp: halse_se05x_resend_def Let_def split: if_splits prod.splits)

lemma recv_block_n_s:
  "halse_se05x_recv_block dev bus len = (r, l, dev', bus') \<Longrightarrow> n_s dev' = n_s dev"
  by (erule recv_block_rel [where R = "\<lambda>d b d' b'. n_s d' = n_s d", rotated -1])
     (auto dest: recv_frame_fields send_s_block_fields resend_fields)

lemma recv_block_n_r:
  "halse_se05x_recv_block dev bus len = (r, l, dev', bus') \<Longrightarrow> n_r dev' = n_r dev"
  by (erule recv_block_rel [where R = "\<lambda>d b d' b'. n_r d' = n_r d", rotated -1])
     (auto dest: recv_frame_fields send_s_block_fields resend_fields)

lemma recv_block_latch:
  "halse_se05x_recv_block dev bus len = (r, l, dev', bus') \<Longrightarrow>
   txretransmit dev \<Longrightarrow> txretransmit dev'"
  by (erule recv_block_rel [where R = "\<lambda>d b d' b'. txretransmit d \<longrightarrow> txretransmit d'", rotated -1, THEN mp])
     (auto dest: recv_frame_fields send_s_block_fields resend_fields)

lemma recv_block_wf:
  "halse_se05x_recv_block dev bus len = (r, l, dev', bus') \<Longrightarrow> wf_dev dev \<Longrightarrow> wf_dev dev'"
  by (erule recv_block_rel [where R = "\<lambda>d b d' b'. wf_dev d \<longrightarrow> wf_dev d'", rotated -1, THEN mp])
     (auto simp: wf_dev_def dest: recv_frame_fields send_s_block_fields resend_fields)

lemma recv_frame_rd_le:
  assumes "recv_frame dev bus len = (r, l, dev', bus')"
  shows "length (rd bus') \<le> length (rd bus)"
proof -
  obtain r1 da ba where first: "halse_se05x_read_i2c dev bus 0 5 = (r1, da, ba)"
    by (metis prod_cases3)
  obtain r2 db bb where second:
    "halse_se05x_read_i2c da ba 5 (unat (rxbuf da ! 2)) = (r2, db, bb)"
    by (metis prod_cases3)
  from assms have "bus' = ba \<or> bus' = bb"
    by (auto simp: recv_frame_def first second Let_def split: if_splits)
  with read_i2c_rd_le [OF first] read_i2c_rd_le [OF second] show ?thesis
    by auto
qed

lemma recv_block_rd_le:
  "halse_se05x_recv_block dev bus len = (r, l, dev', bus') \<Longrightarrow> length (rd bus') \<le> length (rd bus)"
  by (erule recv_block_rel [where R = "\<lambda>d b d' b'. length (rd b') \<le> length (rd b)", rotated -1])
     (auto dest: recv_frame_rd_le send_s_block_rd resend_rd)

lemma recv_block_rd_less:
  assumes "halse_se05x_recv_block dev bus len = (0, l, dev', bus')"
  shows "length (rd bus') < length (rd bus)"
proof -
  obtain r1 l1 d1 b1 where f: "recv_frame dev bus len = (r1, l1, d1, b1)"
    by (metis prod_cases4)
  obtain r3 d3 b3 where s:
    "halse_se05x_send_s_block d1 b1 CMD_RES CMD_WTX (drop 3 (rxbuf d1)) 1 = (r3, d3, b3)"
    by (metis prod_cases3)
  obtain r4 d4 b4 where rs: "halse_se05x_resend d1 b1 = (r4, d4, b4)"
    by (metis prod_cases3)
  from assms f have r1: "r1 = 0"
    by (subst (asm) halse_se05x_recv_block.simps) (auto split: if_splits)
  with f have lt: "length (rd b1) < length (rd bus)"
    by (auto dest: recv_frame_rd_less)
  from assms have "length (rd bus') \<le> length (rd b1)"
    using send_s_block_rd [OF s] resend_rd [OF rs]
    by (subst (asm) halse_se05x_recv_block.simps)
       (auto simp del: One_nat_def simp: f s rs r1 Let_def split: if_splits
          dest!: recv_block_rd_le)
  with lt show ?thesis by simp
qed

termination xfer_read_loop
proof (relation "measure (\<lambda>(dev, bus, rx, cap, rx_off). length (rd bus))", goal_cases)
  case 1
  show ?case by simp
next
  case (2 dev bus rx cap rx_off x1 x2 len x3 dev1 bus1 pcb len' rx' rx_off' chain ee ns nr
      x4 x5 dev2 bus2)
  then have "length (rd bus1) < length (rd bus)" "rd bus2 = rd bus1"
    by (auto dest: recv_block_rd_less [OF sym] send_r_block_rd [OF sym])
  then show ?case by simp
qed

subsection \<open>Sending an I-block, step by step\<close>

lemma send_i_block_unfold:
  "halse_se05x_send_i_block dev bus buf len chain =
     (if len > SIZE_INF_MAX then (- 1, dev, bus)
      else case halse_se05x_crc_and_send (i_block_staged dev buf len chain) bus (SIZE_PROLOGUE + len) of
        (ret, dev3, bus3) \<Rightarrow>
          if ret \<noteq> 0 then (- 1, dev3, bus3)
          else if chain then
            (case halse_se05x_recv_block dev3 bus3 len of
               (ret', len', dev4, bus4) \<Rightarrow>
                 if ret' \<noteq> 0 then (ret', dev4, bus4)
                 else if \<not> is_r_block (rxbuf dev4 ! 1) then (- 1, dev4, bus4)
                 else if rxbuf dev4 ! 1 AND CMD_ERROR_MASK \<noteq> 0 then (- 1, dev4, bus4)
                 else if uint (drop_bit 4 (rxbuf dev4 ! 1) AND 0x01) \<noteq> n_s dev4 then (- 1, dev4, bus4)
                 else (0, dev4, bus4))
          else (0, dev3, bus3))"
  by (simp add: halse_se05x_send_i_block_def i_block_staged_def Let_def del: One_nat_def
      cong: prod.case_cong if_cong)

lemma send_i_block_fields:
  assumes "halse_se05x_send_i_block dev bus buf len chain = (r, dev', bus')" and "len \<le> 254"
  shows "n_s dev' = n_s dev XOR 1" and "n_r dev' = n_r dev"
    and "txretransmit dev \<Longrightarrow> txretransmit dev'" and "wf_dev dev \<Longrightarrow> wf_dev dev'"
proof -
  define dev2 where "dev2 = i_block_staged dev buf len chain"
  obtain r3 dev3 bus3 where cs: "halse_se05x_crc_and_send dev2 bus (3 + len) = (r3, dev3, bus3)"
    by (metis prod_cases3)
  obtain r4 l4 dev4 bus4 where rb: "halse_se05x_recv_block dev3 bus3 len = (r4, l4, dev4, bus4)"
    by (metis prod_cases4)
  from assms have "dev' = dev3 \<or> dev' = dev4"
    by (auto simp: send_i_block_unfold cs [unfolded dev2_def] rb split: if_splits)
  moreover note crc_and_send_fields [OF cs] recv_block_n_s [OF rb] recv_block_n_r [OF rb]
    recv_block_latch [OF rb] recv_block_wf [OF rb]
  ultimately show "n_s dev' = n_s dev XOR 1" and "n_r dev' = n_r dev"
    and "txretransmit dev \<Longrightarrow> txretransmit dev'" and "wf_dev dev \<Longrightarrow> wf_dev dev'"
    by (auto simp: dev2_def wf_dev_def i_block_staged_def)
qed

subsection \<open>Framing: what a send writes and what a receive accepts\<close>

lemma crc_hi_lo:
  "push_bit 8 (ucast (ucast (drop_bit 8 c) :: byte) :: 16 word) OR ucast (ucast (c AND 0xff) :: byte) = c"
  for c :: "16 word"
proof (rule bit_word_eqI)
  fix n :: nat
  assume "n < LENGTH(16)"
  have mask: "(0xff :: 16 word) = mask 8" by (simp add: mask_eq_exp_minus_1)
  show "bit (push_bit 8 (ucast (ucast (drop_bit 8 c) :: byte) :: 16 word) OR
          ucast (ucast (c AND 0xff) :: byte)) n \<longleftrightarrow> bit c n"
    using \<open>n < LENGTH(16)\<close>
    by (auto simp: mask bit_simps)
qed

lemma length_block [simp]: "length (block nad pcb info) = 5 + length info"
  by (simp add: block_def epilogue_def Let_def)

lemma block_nth:
  "block nad pcb info ! 0 = nad" "block nad pcb info ! 1 = pcb"
  "block nad pcb info ! 2 = of_nat (length info)"
  by (simp_all add: block_def epilogue_def Let_def)

lemma take_block: "take (3 + length info) (block nad pcb info) = [nad, pcb, of_nat (length info)] @ info"
  by (simp add: block_def epilogue_def Let_def numeral_3_eq_3)

lemma block_inf: "take (length info) (drop 3 (block nad pcb info)) = info"
  by (simp add: block_def epilogue_def Let_def)

lemma calculate_crc_append:
  "n \<le> length xs \<Longrightarrow> halse_se05x_calculate_crc (xs @ ys) n = halse_se05x_calculate_crc xs n"
  by (simp add: halse_se05x_calculate_crc_def)

lemma crc_matches_block: "crc_matches (block nad pcb info @ tail) (length info)"
proof -
  let ?body = "[nad, pcb, of_nat (length info)] @ info"
  let ?crc = "halse_se05x_calculate_crc ?body (length ?body)"
  have b: "block nad pcb info = ?body @ [ucast (drop_bit 8 ?crc), ucast (?crc AND 0xff)]"
    by (simp add: block_def epilogue_def Let_def)
  have len: "length ?body = 3 + length info" by simp
  have crc: "halse_se05x_calculate_crc (block nad pcb info @ tail) (3 + length info) = ?crc"
    unfolding b halse_se05x_calculate_crc_def by (simp add: numeral_3_eq_3)
  have hi: "(block nad pcb info @ tail) ! (3 + length info) = ucast (drop_bit 8 ?crc)"
    unfolding b by (simp add: nth_append)
  have lo: "(block nad pcb info @ tail) ! (3 + length info + 1) = ucast (?crc AND 0xff)"
    unfolding b by (simp add: nth_append)
  show ?thesis
    unfolding crc_matches_def Let_def crc hi lo by (simp only: crc_hi_lo)
qed

lemma store_0: "length src \<le> length dst \<Longrightarrow> store dst 0 src = src @ drop (length src) dst"
  using store_append [of 0 src dst] by simp

lemma unat_of_nat_len: "n \<le> 254 \<Longrightarrow> unat (of_nat n :: byte) = n"
  by (simp add: unat_of_nat)

lemma recv_frame_block:
  assumes wf: "length (rxbuf dev) = SIZE_BUF" and n: "length info \<le> SIZE_INF_MAX"
    and rd: "rd bus = deliver (block nad pcb info) @ rest"
  shows "recv_frame dev bus len =
           (0, length info,
            dev\<lparr>rxbuf := block nad pcb info @ drop (5 + length info) (rxbuf dev)\<rparr>,
            bus\<lparr>rd := rest\<rparr>)"
proof -
  let ?f = "block nad pcb info"
  let ?n = "length info"
  let ?d1 = "dev\<lparr>rxbuf := take 5 ?f @ drop 5 (rxbuf dev)\<rparr>"
  let ?d2 = "dev\<lparr>rxbuf := ?f @ drop (5 + ?n) (rxbuf dev)\<rparr>"
  have un: "unat (of_nat ?n :: byte) = ?n" using n by (simp add: unat_of_nat_len)
  have byte2: "(take 5 ?f @ drop 5 (rxbuf dev)) ! 2 = of_nat ?n"
    by (simp add: nth_append block_nth)
  show ?thesis
  proof (cases "info = []")
    case True
    then have rd1: "rd bus = (0, ?f) # rest" using rd by (simp add: deliver_def)
    have first: "halse_se05x_read_i2c dev bus 0 5 = (0, ?d1, bus\<lparr>rd := rest\<rparr>)"
      using wf by (simp add: halse_se05x_read_i2c_def rd1 store_0)
    have same: "?d1 = ?d2" using True by simp
    have "crc_matches (rxbuf ?d2) ?n" by (simp add: crc_matches_block)
    then show ?thesis
      using True byte2 by (simp add: recv_frame_def first Let_def)
  next
    case False
    then have rd1: "rd bus = (0, take 5 ?f) # (0, drop 5 ?f) # rest"
      using rd by (simp add: deliver_def)
    have first: "halse_se05x_read_i2c dev bus 0 5 = (0, ?d1, bus\<lparr>rd := (0, drop 5 ?f) # rest\<rparr>)"
      using wf by (simp add: halse_se05x_read_i2c_def rd1 store_0)
    have st: "store (take 5 ?f @ drop 5 (rxbuf dev)) 5 (drop 5 ?f) = ?f @ drop (5 + ?n) (rxbuf dev)"
      using wf n by (subst store_append) (simp_all add: add.commute)
    have second: "halse_se05x_read_i2c ?d1 (bus\<lparr>rd := (0, drop 5 ?f) # rest\<rparr>) 5 ?n
         = (0, ?d2, bus\<lparr>rd := rest\<rparr>)"
      by (simp add: halse_se05x_read_i2c_def st)
    have ok: "crc_matches (rxbuf ?d2) ?n" by (simp add: crc_matches_block)
    have "rxbuf ?d1 ! 2 = of_nat ?n" using byte2 by simp
    then show ?thesis
      using False n ok by (simp add: recv_frame_def first Let_def un second)
  qed
qed

lemma write_i2c_eq:
  "halse_se05x_write_i2c bus buf len = (wr_result bus, logged bus (take len buf))"
  by (simp add: halse_se05x_write_i2c_def wr_result_def logged_def split: list.splits)

lemma staged_eq:
  assumes "3 + length info \<le> length txb"
  shows "store (txb[0 := nad, 1 := pcb, 2 := l]) 3 info =
         [nad, pcb, l] @ info @ drop (3 + length info) txb"
proof -
  have "txb[0 := nad, 1 := pcb, 2 := l] = store txb 0 [nad, pcb, l]"
    by (simp add: numeral_2_eq_2)
  also have "\<dots> = [nad, pcb, l] @ drop 3 txb"
    using assms by (subst store_0) (simp_all add: numeral_3_eq_3)
  finally have pro: "txb[0 := nad, 1 := pcb, 2 := l] = [nad, pcb, l] @ drop 3 txb" .
  have "store ([nad, pcb, l] @ drop 3 txb) 3 info =
        take 3 ([nad, pcb, l] @ drop 3 txb) @ info @ drop (3 + length info) ([nad, pcb, l] @ drop 3 txb)"
    using assms by (subst store_append) simp_all
  also have "\<dots> = [nad, pcb, l] @ info @ drop (3 + length info) txb"
    by (simp add: numeral_3_eq_3)
  finally show ?thesis unfolding pro .
qed

lemma crc_and_send_body:
  assumes len: "length (txbuf dev) = SIZE_BUF" "length info \<le> SIZE_INF_MAX"
    and pre: "take (3 + length info) (txbuf dev) = [nad, pcb, of_nat (length info)] @ info"
  shows "halse_se05x_crc_and_send dev bus (SIZE_PROLOGUE + length info) =
         (wr_result bus,
          dev\<lparr>txbuf := block nad pcb info @ drop (5 + length info) (txbuf dev),
              txlen := 5 + length info\<rparr>,
          logged bus (block nad pcb info))"
proof -
  let ?n = "length info"
  let ?body = "[nad, pcb, of_nat ?n] @ info"
  let ?t = "drop (3 + ?n) (txbuf dev)"
  let ?crc = "halse_se05x_calculate_crc ?body (length ?body)"
  have tx: "txbuf dev = ?body @ ?t"
    using append_take_drop_id [of "3 + ?n" "txbuf dev"] pre by simp
  have crc: "halse_se05x_calculate_crc (txbuf dev) (3 + ?n) = ?crc"
    by (subst tx) (simp add: halse_se05x_calculate_crc_def numeral_3_eq_3)
  have lt: "2 \<le> length ?t" using len by simp
  then obtain x y t' where t: "?t = x # y # t'"
    by (metis Suc_le_length_iff numeral_2_eq_2)
  have "drop 2 ?t = t'" unfolding t by (simp add: numeral_2_eq_2)
  then have t': "t' = drop (5 + ?n) (txbuf dev)"
    by (simp add: add.commute)
  have lb: "length ?body = 3 + ?n" "length (?body @ [a]) = 3 + ?n + 1" for a :: byte
    by simp_all
  have u1: "(?body @ x # y # t')[3 + ?n := a] = ?body @ a # y # t'" for a
    using list_update_length [of ?body x "y # t'" a] by (simp only: lb)
  have u2: "(?body @ a # y # t')[3 + ?n + 1 := b] = ?body @ a # b # t'" for a b
    using list_update_length [of "?body @ [a]" y t' b] by (simp only: lb) simp
  have upd: "(txbuf dev)[3 + ?n := a, 3 + ?n + 1 := b] =
      ?body @ [a, b] @ drop (5 + ?n) (txbuf dev)" for a b
    by (subst tx, subst t, subst u1, subst u2) (simp add: t')
  have blk: "block nad pcb info = ?body @ [ucast (drop_bit 8 ?crc), ucast (?crc AND 0xff)]"
    by (simp add: block_def epilogue_def Let_def)
  have tk: "take (3 + ?n + 2) (block nad pcb info @ drop (5 + ?n) (txbuf dev)) = block nad pcb info"
    by simp
  have "halse_se05x_crc_and_send dev bus (3 + ?n) =
        (wr_result bus,
         dev\<lparr>txbuf := block nad pcb info @ drop (5 + ?n) (txbuf dev), txlen := 3 + ?n + 2\<rparr>,
         logged bus (take (3 + ?n + 2) (block nad pcb info @ drop (5 + ?n) (txbuf dev))))"
    unfolding halse_se05x_crc_and_send_def Let_def crc upd write_i2c_eq tk
    by (simp add: blk eval_nat_numeral)
  then show ?thesis
    by simp
qed

lemma staged_take:
  assumes "3 + length info \<le> length txb"
  shows "take (3 + length info) (store (txb[0 := nad, 1 := pcb, 2 := l]) 3 info) = [nad, pcb, l] @ info"
  unfolding staged_eq [OF assms] by (simp add: numeral_3_eq_3)

lemma staged_drop:
  assumes "3 + length info \<le> length txb" and "3 + length info \<le> k"
  shows "drop k (store (txb[0 := nad, 1 := pcb, 2 := l]) 3 info) = drop k txb"
proof -
  obtain j where k: "k = (3 + length info) + j"
    using assms(2) le_Suc_ex by blast
  have len: "length ([nad, pcb, l] @ info) = 3 + length info" by simp
  have "drop k (([nad, pcb, l] @ info) @ drop (3 + length info) txb) =
        drop j (drop (3 + length info) txb)"
    unfolding k by (simp only: drop_append len) simp
  then show ?thesis
    unfolding staged_eq [OF assms(1)] k by (simp add: add.commute)
qed

lemma send_staged:
  assumes "length txb = SIZE_BUF" "length info \<le> SIZE_INF_MAX"
  shows "halse_se05x_crc_and_send
           (dev\<lparr>txbuf := store (txb[0 := nad, 1 := pcb, 2 := of_nat (length info)]) 3 info\<rparr>)
           bus (SIZE_PROLOGUE + length info) =
         (wr_result bus,
          dev\<lparr>txbuf := block nad pcb info @ drop (5 + length info) txb, txlen := 5 + length info\<rparr>,
          logged bus (block nad pcb info))"
proof -
  let ?S = "store (txb[0 := nad, 1 := pcb, 2 := of_nat (length info)]) 3 info"
  have a: "length (txbuf (dev\<lparr>txbuf := ?S\<rparr>)) = SIZE_BUF" using assms by simp
  have b: "take (3 + length info) (txbuf (dev\<lparr>txbuf := ?S\<rparr>)) = [nad, pcb, of_nat (length info)] @ info"
    using assms staged_take [where info = info and txb = txb and nad = nad and pcb = pcb
        and l = "of_nat (length info)"] by simp
  have c: "drop (5 + length info) ?S = drop (5 + length info) txb"
    using assms by (intro staged_drop) simp_all
  show ?thesis
    unfolding crc_and_send_body [OF a assms(2) b] using c by simp
qed

lemma send_s_block_sends:
  assumes "length (txbuf dev) = SIZE_BUF" "len \<le> SIZE_INF_MAX" "len \<le> length buf"
  shows "halse_se05x_send_s_block dev bus d t buf len =
         (wr_result bus,
          dev\<lparr>txbuf := block SE05X_NAD (S_BLOCK OR cmd_dir_val d OR cmd_type_val t) (take len buf)
                         @ drop (5 + len) (txbuf dev),
              txlen := 5 + len\<rparr>,
          logged bus (block SE05X_NAD (S_BLOCK OR cmd_dir_val d OR cmd_type_val t) (take len buf)))"
proof -
  have l: "length (take len buf) = len" using assms by simp
  show ?thesis
    using send_staged [where txb = "txbuf dev" and info = "take len buf" and dev = dev
        and nad = SE05X_NAD and pcb = "S_BLOCK OR cmd_dir_val d OR cmd_type_val t" and bus = bus] assms
    unfolding halse_se05x_send_s_block_def Let_def l by simp
qed

lemma send_r_block_sends:
  assumes "length (txbuf dev) = SIZE_BUF"
  shows "halse_se05x_send_r_block dev bus nr ee =
         (wr_result bus,
          dev\<lparr>txbuf := block SE05X_NAD (R_BLOCK OR push_bit 4 nr OR ee) [] @ drop 5 (txbuf dev),
              txlen := 5\<rparr>,
          logged bus (block SE05X_NAD (R_BLOCK OR push_bit 4 nr OR ee) []))"
  using send_staged [where txb = "txbuf dev" and info = "[]" and dev = dev
        and nad = SE05X_NAD and pcb = "R_BLOCK OR push_bit 4 nr OR ee" and bus = bus] assms
  unfolding halse_se05x_send_r_block_def Let_def by simp

lemma i_block_staged_sends:
  assumes "length (txbuf dev) = SIZE_BUF" "len \<le> SIZE_INF_MAX" "len \<le> length buf"
  shows "halse_se05x_crc_and_send (i_block_staged dev buf len chain) bus (SIZE_PROLOGUE + len) =
         (wr_result bus,
          dev\<lparr>n_s := n_s dev XOR 1,
              txbuf := block SE05X_NAD (I_BLOCK OR (if n_s dev \<noteq> 0 then 0x40 else 0x00) OR
                         (if chain then 0x20 else 0x00)) (take len buf) @ drop (5 + len) (txbuf dev),
              txlen := 5 + len\<rparr>,
          logged bus (block SE05X_NAD (I_BLOCK OR (if n_s dev \<noteq> 0 then 0x40 else 0x00) OR
                         (if chain then 0x20 else 0x00)) (take len buf)))"
proof -
  have l: "length (take len buf) = len" using assms by simp
  show ?thesis
    using send_staged [where txb = "txbuf dev" and info = "take len buf"
        and dev = "dev\<lparr>n_s := n_s dev XOR 1\<rparr>" and nad = SE05X_NAD
        and pcb = "I_BLOCK OR (if n_s dev \<noteq> 0 then 0x40 else 0x00) OR (if chain then 0x20 else 0x00)"
        and bus = bus]
      assms
    unfolding i_block_staged_def l by simp
qed

lemma wr_result_Cons [simp]: "wr bus = r # ws \<Longrightarrow> wr_result bus = r"
  by (simp add: wr_result_def)

lemma pcb_wtx [simp]: "is_s_block_request 0xC3" "(0xC3 :: byte) AND CMD_TYPE_MASK = cmd_type_val CMD_WTX"
  by (simp_all add: is_s_block_request_def is_s_block_def)

lemma r_error_not_s_request: "is_r_block_with_error pcb \<Longrightarrow> \<not> is_s_block_request pcb"
  by (auto simp: is_r_block_with_error_def is_r_block_def is_s_block_request_def is_s_block_def)

text \<open>One round of \<^verbatim>\<open>halse_se05x_recv_block\<close> on a frame that passes the CRC check.\<close>

lemma recv_block_on_block:
  assumes wf: "wf_dev dev" and n: "length info \<le> SIZE_INF_MAX"
    and rd: "rd bus = deliver (block nad pcb info) @ rest"
  defines "dev1 \<equiv> dev\<lparr>rxbuf := block nad pcb info @ drop (5 + length info) (rxbuf dev)\<rparr>"
    and "bus1 \<equiv> bus\<lparr>rd := rest\<rparr>"
  shows "halse_se05x_recv_block dev bus len =
     (if is_s_block_request pcb then
        (if pcb AND CMD_TYPE_MASK = cmd_type_val CMD_WTX then
           (case halse_se05x_send_s_block dev1 bus1 CMD_RES CMD_WTX (drop 3 (rxbuf dev1)) 1 of
              (ret3, dev3, bus3) \<Rightarrow>
                if ret3 \<noteq> 0 then (- 1, length info, dev3, bus3)
                else halse_se05x_recv_block dev3 bus3 (length info))
         else (- 1, length info, dev1, bus1))
      else if is_r_block_with_error pcb then
        (case halse_se05x_resend dev1 bus1 of
           (ret4, dev4, bus4) \<Rightarrow>
             if ret4 \<noteq> 0 then (ret4, length info, dev4, bus4)
             else halse_se05x_recv_block dev4 bus4 (length info))
      else (0, length info, dev1, bus1))"
proof -
  have rx: "length (rxbuf dev) = SIZE_BUF" using wf by (simp add: wf_dev_def)
  have pcb: "rxbuf dev1 ! 1 = pcb"
    by (simp add: dev1_def nth_append block_nth del: One_nat_def)
  show ?thesis
    by (subst halse_se05x_recv_block.simps)
       (simp add: recv_frame_block [OF rx n rd] pcb dev1_def [symmetric] bus1_def [symmetric]
          Let_def del: One_nat_def cong: prod.case_cong if_cong)
qed

lemma block_1: "block nad pcb [x] = [nad, pcb, 0x01, x] @ epilogue [nad, pcb, 0x01, x]"
  by (simp add: block_def Let_def)

lemma resend_eq:
  "halse_se05x_resend dev bus =
     (if txretransmit dev then (- ETIMEDOUT, dev, bus)
      else (wr_result bus, dev\<lparr>txretransmit := True\<rparr>,
            logged bus (take (txlen dev) (txbuf dev))))"
  by (simp add: halse_se05x_resend_def Let_def write_i2c_eq)

lemma xfer_read_loop_fail:
  "halse_se05x_recv_block dev bus 0 = (ret, l, dev1, bus1) \<Longrightarrow> ret \<noteq> 0 \<Longrightarrow>
   xfer_read_loop dev bus rx cap rx_off = (ret, rx, cap, dev1, bus1)"
  by (subst xfer_read_loop.simps) simp

lemma send_i_blocks_n_s:
  "fst (send_i_blocks dev bus calls) = 0 \<Longrightarrow> n_s dev \<in> {0, 1} \<Longrightarrow>
   n_s (fst (snd (send_i_blocks dev bus calls))) = (n_s dev + int (length calls)) mod 2"
proof (induction calls arbitrary: dev bus)
  case Nil
  then show ?case by auto
next
  case (Cons c calls)
  obtain buf len chain where c: "c = (buf, len, chain)" by (cases c)
  obtain r dev' bus' where s: "halse_se05x_send_i_block dev bus buf len chain = (r, dev', bus')"
    by (cases "halse_se05x_send_i_block dev bus buf len chain")
  from Cons.prems(1) have r: "r = 0" by (auto simp: c s split: if_splits)
  have len: "len \<le> 254"
    using s r by (auto simp: halse_se05x_send_i_block_def split: if_splits)
  have tog: "n_s dev' = n_s dev XOR 1" by (rule send_i_block_fields(1) [OF s len])
  with Cons.prems(2) have in01: "n_s dev' \<in> {0, 1}" and step: "n_s dev' = (n_s dev + 1) mod 2"
    by auto
  from Cons.prems(1) have "fst (send_i_blocks dev' bus' calls) = 0" by (simp add: c s r)
  from Cons.IH [OF this in01]
  have "n_s (fst (snd (send_i_blocks dev' bus' calls))) = (n_s dev' + int (length calls)) mod 2" .
  then show ?case
    unfolding step by (simp add: c s r mod_add_left_eq add.assoc)
qed

lemma send_i_block_chain_ok:
  assumes "halse_se05x_send_i_block dev bus buf len True = (0, dev', bus')"
  shows "is_r_block (rxbuf dev' ! 1) \<and> rxbuf dev' ! 1 AND CMD_ERROR_MASK = 0 \<and>
         uint (drop_bit 4 (rxbuf dev' ! 1) AND 0x01) = n_s dev'"
proof -
  obtain r3 dev3 bus3 where cs:
    "halse_se05x_crc_and_send (i_block_staged dev buf len True) bus (3 + len) = (r3, dev3, bus3)"
    by (metis prod_cases3)
  obtain r4 l4 dev4 bus4 where rb: "halse_se05x_recv_block dev3 bus3 len = (r4, l4, dev4, bus4)"
    by (metis prod_cases4)
  from assms show ?thesis
    by (auto simp: send_i_block_unfold cs rb simp del: One_nat_def split: if_splits)
qed

lemma crc_and_send_ret:
  "halse_se05x_crc_and_send dev bus len = (r, dev', bus') \<Longrightarrow>
   r = wr_result bus \<and> wr bus' = tl (wr bus)"
  by (auto simp: halse_se05x_crc_and_send_def Let_def write_i2c_eq logged_def)

lemma send_i_block_unchained:
  assumes "wr bus = 0 # ws" and "len \<le> SIZE_INF_MAX"
  shows "fst (halse_se05x_send_i_block dev bus buf len False) = 0"
    and "wr (snd (snd (halse_se05x_send_i_block dev bus buf len False))) = ws"
proof -
  obtain r3 dev3 bus3 where cs:
    "halse_se05x_crc_and_send (i_block_staged dev buf len False) bus (3 + len) = (r3, dev3, bus3)"
    by (metis prod_cases3)
  from crc_and_send_ret [OF cs] assms(1) have "r3 = 0" "wr bus3 = ws" by simp_all
  with assms(2) show "fst (halse_se05x_send_i_block dev bus buf len False) = 0"
    and "wr (snd (snd (halse_se05x_send_i_block dev bus buf len False))) = ws"
    by (simp_all add: send_i_block_unfold cs)
qed

lemma send_i_blocks_unchained:
  assumes "wr bus = replicate (length calls) 0 @ ws"
    and "\<forall>c \<in> set calls. fst (snd c) \<le> SIZE_INF_MAX \<and> \<not> snd (snd c)"
  shows "fst (send_i_blocks dev bus calls) = 0"
  using assms
proof (induction calls arbitrary: dev bus)
  case Nil
  then show ?case by simp
next
  case (Cons c calls)
  obtain buf len where c: "c = (buf, len, False)" and len: "len \<le> SIZE_INF_MAX"
    using Cons.prems(2) by (cases c) auto
  have w: "wr bus = 0 # (replicate (length calls) 0 @ ws)" using Cons.prems(1) by simp
  obtain r dev' bus' where s: "halse_se05x_send_i_block dev bus buf len False = (r, dev', bus')"
    by (metis prod_cases3)
  from send_i_block_unchained [OF w len, of dev buf] s
  have r: "r = 0" and w': "wr bus' = replicate (length calls) 0 @ ws" by simp_all
  from Cons.IH [OF w'] Cons.prems(2) show ?case by (simp add: c s r)
qed

text \<open>One WTX request: the response goes out and the receive starts again.\<close>

lemma recv_block_wtx:
  assumes "wf_dev dev" and "rd bus = deliver (block nad 0xC3 [x]) @ rest"
  defines "response \<equiv> [SE05X_NAD, 0xE3, 0x01, x] @ epilogue [SE05X_NAD, 0xE3, 0x01, x]"
  defines "dev' \<equiv> dev\<lparr>rxbuf := block nad 0xC3 [x] @ drop 6 (rxbuf dev),
                        txbuf := response @ drop 6 (txbuf dev), txlen := 6\<rparr>"
    and "bus' \<equiv> bus\<lparr>rd := rest, wr := tl (wr bus), sent := sent bus @ [response]\<rparr>"
  shows "halse_se05x_recv_block dev bus len =
           (if wr_result bus \<noteq> 0 then (- 1, 1, dev', bus')
            else halse_se05x_recv_block dev' bus' 1)"
proof -
  let ?dev1 = "dev\<lparr>rxbuf := block nad 0xC3 [x] @ drop (5 + length [x]) (rxbuf dev)\<rparr>"
  let ?bus1 = "bus\<lparr>rd := rest\<rparr>"
  have tx: "length (txbuf ?dev1) = SIZE_BUF" using assms(1) by (simp add: wf_dev_def)
  have buf: "take 1 (drop 3 (rxbuf ?dev1)) = [x]"
    by (simp add: block_1)
  have resp: "block SE05X_NAD (S_BLOCK OR cmd_dir_val CMD_RES OR cmd_type_val CMD_WTX) [x] = response"
    by (simp add: block_1 response_def)
  have "halse_se05x_send_s_block ?dev1 ?bus1 CMD_RES CMD_WTX (drop 3 (rxbuf ?dev1)) 1 =
      (wr_result ?bus1,
       ?dev1\<lparr>txbuf := block SE05X_NAD (S_BLOCK OR cmd_dir_val CMD_RES OR cmd_type_val CMD_WTX)
                  (take 1 (drop 3 (rxbuf ?dev1))) @ drop (5 + 1) (txbuf ?dev1), txlen := 5 + 1\<rparr>,
       logged ?bus1 (block SE05X_NAD (S_BLOCK OR cmd_dir_val CMD_RES OR cmd_type_val CMD_WTX)
                  (take 1 (drop 3 (rxbuf ?dev1)))))"
    by (rule send_s_block_sends [OF tx]) simp_all
  also have "\<dots> = (wr_result bus, dev', bus')"
    unfolding buf resp by (simp add: dev'_def bus'_def logged_def wr_result_def)
  finally have snd: "halse_se05x_send_s_block ?dev1 ?bus1 CMD_RES CMD_WTX (drop 3 (rxbuf ?dev1)) 1 =
      (wr_result bus, dev', bus')" .
  have "halse_se05x_recv_block dev bus len =
      (case halse_se05x_send_s_block ?dev1 ?bus1 CMD_RES CMD_WTX (drop 3 (rxbuf ?dev1)) 1 of
         (ret3, dev3, bus3) \<Rightarrow>
           if ret3 \<noteq> 0 then (- 1, length [x], dev3, bus3)
           else halse_se05x_recv_block dev3 bus3 (length [x]))"
    by (subst recv_block_on_block [OF assms(1) _ assms(2)]) (simp_all del: One_nat_def)
  then show ?thesis
    unfolding snd by simp
qed


lemma length_wtx [simp]: "length (wtx_request x) = 6" "length (wtx_response x) = 6"
  by (simp_all add: wtx_request_def wtx_response_def epilogue_def Let_def)

lemma wtx_run:
  assumes "xs \<noteq> []" and "wf_dev dev"
    and "rd bus = concat (map wtx_wire xs) @ rest"
    and "wr bus = replicate (length xs) 0 @ ws"
  shows "halse_se05x_recv_block dev bus len =
         halse_se05x_recv_block
           (dev\<lparr>rxbuf := wtx_request (last xs) @ drop 6 (rxbuf dev),
                txbuf := wtx_response (last xs) @ drop 6 (txbuf dev), txlen := 6\<rparr>)
           (bus\<lparr>rd := rest, wr := ws, sent := sent bus @ map wtx_response xs\<rparr>) 1"
  using assms
proof (induction xs arbitrary: dev bus len rule: list_nonempty_induct)
  case (single x)
  have rd: "rd bus = deliver (block HOST_NAD 0xC3 [x]) @ rest"
    using single.prems(2) by (simp add: wtx_request_def wtx_wire_def)
  have wr: "wr bus = 0 # ws" using single.prems(3) by simp
  show ?case
    unfolding recv_block_wtx [OF single.prems(1) rd]
    by (simp add: wr wtx_request_def wtx_response_def)
next
  case (cons x xs)
  let ?rest1 = "concat (map wtx_wire xs) @ rest"
  let ?dev1 = "dev\<lparr>rxbuf := wtx_request x @ drop 6 (rxbuf dev),
                    txbuf := wtx_response x @ drop 6 (txbuf dev), txlen := 6\<rparr>"
  let ?bus1 = "bus\<lparr>rd := ?rest1, wr := replicate (length xs) 0 @ ws,
                    sent := sent bus @ [wtx_response x]\<rparr>"
  have "wtx_wire x = deliver (block HOST_NAD 0xC3 [x])"
    by (simp add: wtx_request_def wtx_wire_def)
  then have rd: "rd bus = deliver (block HOST_NAD 0xC3 [x]) @ ?rest1"
    using cons.prems(2) by simp
  have wr: "wr bus = 0 # (replicate (length xs) 0 @ ws)" using cons.prems(3) by simp
  have first: "halse_se05x_recv_block dev bus len = halse_se05x_recv_block ?dev1 ?bus1 1"
    unfolding recv_block_wtx [OF cons.prems(1) rd]
    by (simp add: wr wtx_request_def wtx_response_def)
  have wf1: "wf_dev ?dev1" using cons.prems(1) by (simp add: wf_dev_def)
  have "halse_se05x_recv_block ?dev1 ?bus1 1 =
        halse_se05x_recv_block
          (?dev1\<lparr>rxbuf := wtx_request (last xs) @ drop 6 (rxbuf ?dev1),
                 txbuf := wtx_response (last xs) @ drop 6 (txbuf ?dev1), txlen := 6\<rparr>)
          (?bus1\<lparr>rd := rest, wr := ws, sent := sent ?bus1 @ map wtx_response xs\<rparr>) 1"
    by (rule cons.IH [OF wf1]) simp_all
  with first cons.hyps show ?case by simp
qed

lemma get_atr_ok:
  fixes dev :: se05x_dev and buf :: "byte list" and len :: nat
  defines "off \<equiv> 9 + unat (atr dev ! 6) + unat (atr dev ! (8 + unat (atr dev ! 6)))"
  defines "hb_len \<equiv> unat (atr dev ! off)"
  defines "hb \<equiv> take hb_len (drop (off + 1) (atr dev))"
  defines "t0 \<equiv> 0xF0 OR of_nat hb_len"
  assumes inr: "off + 1 + hb_len \<le> length (atr dev)" and cap: "9 + hb_len \<le> length buf"
    and le: "hb_len \<le> 15"
  shows "halse_se05x_get_atr dev buf len =
         Some (0,
               [0x3B, t0, 0x96, 0x00, 0x00, 0x80, 0x11, 0xFE] @ hb @
               [fold (\<lambda>x v. v XOR x) ([t0, 0x96, 0x00, 0x00, 0x80, 0x11, 0xFE] @ hb) 0] @
               drop (9 + hb_len) buf,
               9 + hb_len)"
proof -
  let ?a = "atr dev"
  let ?P = "[0x3B, t0, 0x96, 0x00, 0x00, 0x80, 0x11, 0xFE] :: byte list"
  have r6: "mem_read ?a 6 = Some (?a ! 6)"
    using inr by (simp add: mem_read_def off_def)
  have r8: "mem_read ?a (8 + unat (?a ! 6)) = Some (?a ! (8 + unat (?a ! 6)))"
    using inr by (simp add: mem_read_def off_def)
  have ro: "mem_read ?a off = Some (?a ! off)"
    using inr by (simp add: mem_read_def)
  have off': "9 + (unat (?a ! 6) + unat (?a ! (8 + unat (?a ! 6)))) = off"
    by (simp add: off_def)
  have lhb: "length hb = hb_len" using inr by (simp add: hb_def)
  have lp: "length atr_prologue = 8" by (simp add: atr_prologue_def)
  have b1: "store buf 0 atr_prologue = atr_prologue @ drop 8 buf"
    using cap by (subst store_0) (simp_all add: lp)
  have b2: "(atr_prologue @ drop 8 buf)[1 := (atr_prologue @ drop 8 buf) ! 1 OR of_nat hb_len]
      = ?P @ drop 8 buf"
    by (simp add: atr_prologue_def t0_def)
  have lP: "length ?P = 8" by simp
  have b3: "store (?P @ drop 8 buf) 8 hb = ?P @ hb @ drop (8 + hb_len) buf"
  proof -
    have "store (?P @ drop 8 buf) 8 hb =
        take 8 (?P @ drop 8 buf) @ hb @ drop (8 + length hb) (?P @ drop 8 buf)"
      using cap lhb by (intro store_append) simp
    also have "take 8 (?P @ drop 8 buf) = ?P" by simp
    also have "drop (8 + length hb) (?P @ drop 8 buf) = drop (8 + hb_len) buf"
      using lhb by (subst drop_append) (simp add: add.commute)
    finally show ?thesis .
  qed
  have x: "halse_se05x_calculate_xor (drop 1 (?P @ hb @ drop (8 + hb_len) buf)) (8 + hb_len - 1)
      = fold (\<lambda>x v. v XOR x) ([t0, 0x96, 0x00, 0x00, 0x80, 0x11, 0xFE] @ hb) 0"
  proof -
    let ?Q = "[t0, 0x96, 0x00, 0x00, 0x80, 0x11, 0xFE] :: byte list"
    have d: "drop 1 (?P @ hb @ drop (8 + hb_len) buf) = (?Q @ hb) @ drop (8 + hb_len) buf"
      by simp
    have lQ: "length (?Q @ hb) = 8 + hb_len - 1" using lhb by simp
    have "take (length (?Q @ hb)) ((?Q @ hb) @ drop (8 + hb_len) buf) = ?Q @ hb"
      by simp
    then have "take (8 + hb_len - 1) ((?Q @ hb) @ drop (8 + hb_len) buf) = ?Q @ hb"
      unfolding lQ .
    then show ?thesis
      unfolding halse_se05x_calculate_xor_def d by (simp only:)
  qed
  have nonempty: "drop (8 + hb_len) buf = buf ! (8 + hb_len) # drop (9 + hb_len) buf"
    using cap Cons_nth_drop_Suc [of "8 + hb_len" buf] by simp
  have b4: "(?P @ hb @ drop (8 + hb_len) buf)[8 + hb_len := t] =
      ?P @ hb @ [t] @ drop (9 + hb_len) buf" for t
  proof -
    have l: "length (?P @ hb) = 8 + hb_len" using lhb by simp
    have "((?P @ hb) @ buf ! (8 + hb_len) # drop (9 + hb_len) buf)[length (?P @ hb) := t] =
        (?P @ hb) @ t # drop (9 + hb_len) buf"
      by (rule list_update_length)
    then have "((?P @ hb) @ buf ! (8 + hb_len) # drop (9 + hb_len) buf)[8 + hb_len := t] =
        (?P @ hb) @ t # drop (9 + hb_len) buf"
      unfolding l .
    then show ?thesis
      unfolding nonempty by (simp only: append_assoc append.simps)
  qed
  have "halse_se05x_get_atr dev buf len =
      Some (0, (store ((store buf 0 atr_prologue)
                  [1 := store buf 0 atr_prologue ! 1 OR of_nat hb_len]) 8 hb)
               [8 + hb_len := halse_se05x_calculate_xor
                  (drop 1 (store ((store buf 0 atr_prologue)
                     [1 := store buf 0 atr_prologue ! 1 OR of_nat hb_len]) 8 hb))
                  (8 + hb_len - 1)],
            8 + hb_len + 1)"
    unfolding halse_se05x_get_atr_def
    using inr cap le
    by (simp add: Let_def r6 r8 off' ro hb_len_def [symmetric] hb_def lp del: One_nat_def)
  then show ?thesis
    unfolding b1 b2 b3 x b4 by simp
qed

lemma get_atr_too_long:
  fixes dev :: se05x_dev
  defines "off \<equiv> 9 + unat (atr dev ! 6) + unat (atr dev ! (8 + unat (atr dev ! 6)))"
  assumes "off < length (atr dev)" and "15 < unat (atr dev ! off)"
  shows "halse_se05x_get_atr dev buf len = Some (- 1, buf, len)"
proof -
  let ?a = "atr dev"
  have r6: "mem_read ?a 6 = Some (?a ! 6)"
    using assms(2) by (simp add: mem_read_def off_def)
  have r8: "mem_read ?a (8 + unat (?a ! 6)) = Some (?a ! (8 + unat (?a ! 6)))"
    using assms(2) by (simp add: mem_read_def off_def)
  have ro: "mem_read ?a off = Some (?a ! off)"
    using assms(2) by (simp add: mem_read_def)
  have off': "9 + (unat (?a ! 6) + unat (?a ! (8 + unat (?a ! 6)))) = off"
    by (simp add: off_def)
  show ?thesis
    unfolding halse_se05x_get_atr_def using assms(3)
    by (simp add: Let_def r6 r8 off' ro del: One_nat_def)
qed

text \<open>
  C7: ([0x00, 0xA0, 0x00, 0x00, 0x03, 0x96, 0x04, 0x03, 0xE8, 0x00, 0xFE, 0x02, 0x0B,
       0x03, 0xE8, 0x08, 0x01, 0x00, 0x00, 0x00, 0x00, 0x64, 0x00, 0x00, 0x0A,
       0x4A, 0x43, 0x4F, 0x50, 0x34, 0x20, 0x41, 0x54, 0x50, 0x4F] :: byte list) rewrite. As stated the claim places HB\_LEN at offset
  \<open>8 + real[6] + real[8 + real[6]]\<close>; the code reads it one byte further, at
  \<open>9 + real[6] + real[8 + real[6]]\<close> (PVER 1, VID 5, DLLP\_LEN 1, DLLP, PLID 1, PLP\_LEN 1,
  PLP). For the ([0x00, 0xA0, 0x00, 0x00, 0x03, 0x96, 0x04, 0x03, 0xE8, 0x00, 0xFE, 0x02, 0x0B,
       0x03, 0xE8, 0x08, 0x01, 0x00, 0x00, 0x00, 0x00, 0x64, 0x00, 0x00, 0x0A,
       0x4A, 0x43, 0x4F, 0x50, 0x34, 0x20, 0x41, 0x54, 0x50, 0x4F] :: byte list) below the byte at the claim's offset is 0, so the claim promises
  9 bytes with \<open>out[1] = 0xF0\<close>; the code finds HB\_LEN = 10 and writes 19 bytes.
\<close>

theorem get_atr_hb_len_offset_counterexample:
  "unat (([0x00, 0xA0, 0x00, 0x00, 0x03, 0x96, 0x04, 0x03, 0xE8, 0x00, 0xFE, 0x02, 0x0B,
       0x03, 0xE8, 0x08, 0x01, 0x00, 0x00, 0x00, 0x00, 0x64, 0x00, 0x00, 0x0A,
       0x4A, 0x43, 0x4F, 0x50, 0x34, 0x20, 0x41, 0x54, 0x50, 0x4F] :: byte list) ! (8 + unat (([0x00, 0xA0, 0x00, 0x00, 0x03, 0x96, 0x04, 0x03, 0xE8, 0x00, 0xFE, 0x02, 0x0B,
       0x03, 0xE8, 0x08, 0x01, 0x00, 0x00, 0x00, 0x00, 0x64, 0x00, 0x00, 0x0A,
       0x4A, 0x43, 0x4F, 0x50, 0x34, 0x20, 0x41, 0x54, 0x50, 0x4F] :: byte list) ! 6) + unat (([0x00, 0xA0, 0x00, 0x00, 0x03, 0x96, 0x04, 0x03, 0xE8, 0x00, 0xFE, 0x02, 0x0B,
       0x03, 0xE8, 0x08, 0x01, 0x00, 0x00, 0x00, 0x00, 0x64, 0x00, 0x00, 0x0A,
       0x4A, 0x43, 0x4F, 0x50, 0x34, 0x20, 0x41, 0x54, 0x50, 0x4F] :: byte list) ! (8 + unat (([0x00, 0xA0, 0x00, 0x00, 0x03, 0x96, 0x04, 0x03, 0xE8, 0x00, 0xFE, 0x02, 0x0B,
       0x03, 0xE8, 0x08, 0x01, 0x00, 0x00, 0x00, 0x00, 0x64, 0x00, 0x00, 0x0A,
       0x4A, 0x43, 0x4F, 0x50, 0x34, 0x20, 0x41, 0x54, 0x50, 0x4F] :: byte list) ! 6))))) = 0 \<and>
   halse_se05x_get_atr (dev_calloc\<lparr>atr := ([0x00, 0xA0, 0x00, 0x00, 0x03, 0x96, 0x04, 0x03, 0xE8, 0x00, 0xFE, 0x02, 0x0B,
       0x03, 0xE8, 0x08, 0x01, 0x00, 0x00, 0x00, 0x00, 0x64, 0x00, 0x00, 0x0A,
       0x4A, 0x43, 0x4F, 0x50, 0x34, 0x20, 0x41, 0x54, 0x50, 0x4F] :: byte list)\<rparr>) (replicate 32 0) 32 =
     Some (0, ([0x3B, 0xFA, 0x96, 0x00, 0x00, 0x80, 0x11, 0xFE,
       0x4A, 0x43, 0x4F, 0x50, 0x34, 0x20, 0x41, 0x54, 0x50, 0x4F, 0x0B] :: byte list) @ replicate 13 0, 19)"
  by code_simp

text \<open>
  C7, amended: for every cached real ([0x00, 0xA0, 0x00, 0x00, 0x03, 0x96, 0x04, 0x03, 0xE8, 0x00, 0xFE, 0x02, 0x0B,
       0x03, 0xE8, 0x08, 0x01, 0x00, 0x00, 0x00, 0x00, 0x64, 0x00, 0x00, 0x0A,
       0x4A, 0x43, 0x4F, 0x50, 0x34, 0x20, 0x41, 0x54, 0x50, 0x4F] :: byte list) whose HB\_LEN byte, at offset
  \<open>9 + real[6] + real[8 + real[6]]\<close>, is in [0,15] (the ([0x00, 0xA0, 0x00, 0x00, 0x03, 0x96, 0x04, 0x03, 0xE8, 0x00, 0xFE, 0x02, 0x0B,
       0x03, 0xE8, 0x08, 0x01, 0x00, 0x00, 0x00, 0x00, 0x64, 0x00, 0x00, 0x0A,
       0x4A, 0x43, 0x4F, 0x50, 0x34, 0x20, 0x41, 0x54, 0x50, 0x4F] :: byte list) holding its HB\_LEN
  historical bytes and the caller's buffer at least 9 + HB\_LEN bytes), get\_atr succeeds
  and writes exactly 9 + HB\_LEN bytes: \<open>out[0] = 0x3B\<close>, \<open>out[1] = 0xF0 | HB_LEN\<close>,
  \<open>out[2..7] = 96 00 00 80 11 FE\<close>, then the historical bytes, then TCK, the XOR of the
  output bytes 1 to 7 + HB\_LEN; if HB\_LEN > 15, get\_atr fails with -1 and writes nothing.
\<close>

theorem get_atr_rewrite:
  fixes dev :: se05x_dev and buf :: "byte list" and len :: nat
  defines "off \<equiv> 9 + unat (atr dev ! 6) + unat (atr dev ! (8 + unat (atr dev ! 6)))"
  defines "hb_len \<equiv> unat (atr dev ! off)"
  defines "hb \<equiv> take hb_len (drop (off + 1) (atr dev))"
  defines "t0 \<equiv> 0xF0 OR of_nat hb_len"
  assumes "off < length (atr dev)"
  shows "(hb_len \<le> 15 \<and> off + 1 + hb_len \<le> length (atr dev) \<and> 9 + hb_len \<le> length buf \<longrightarrow>
            halse_se05x_get_atr dev buf len =
              Some (0,
                    [0x3B, t0, 0x96, 0x00, 0x00, 0x80, 0x11, 0xFE] @ hb @
                    [fold (\<lambda>x v. v XOR x) ([t0, 0x96, 0x00, 0x00, 0x80, 0x11, 0xFE] @ hb) 0] @
                    drop (9 + hb_len) buf,
                    9 + hb_len)) \<and>
         (15 < hb_len \<longrightarrow> halse_se05x_get_atr dev buf len = Some (- 1, buf, len))"
  unfolding hb_len_def hb_def t0_def off_def
  using get_atr_ok [of dev buf len] get_atr_too_long [of dev buf len] assms(5) [unfolded off_def]
  by blast

theorem get_atr_rewrite_witness:
  "9 + unat (([0x00, 0xA0, 0x00, 0x00, 0x03, 0x96, 0x04, 0x03, 0xE8, 0x00, 0xFE, 0x02, 0x0B,
       0x03, 0xE8, 0x08, 0x01, 0x00, 0x00, 0x00, 0x00, 0x64, 0x00, 0x00, 0x0A,
       0x4A, 0x43, 0x4F, 0x50, 0x34, 0x20, 0x41, 0x54, 0x50, 0x4F] :: byte list) ! 6) + unat (([0x00, 0xA0, 0x00, 0x00, 0x03, 0x96, 0x04, 0x03, 0xE8, 0x00, 0xFE, 0x02, 0x0B,
       0x03, 0xE8, 0x08, 0x01, 0x00, 0x00, 0x00, 0x00, 0x64, 0x00, 0x00, 0x0A,
       0x4A, 0x43, 0x4F, 0x50, 0x34, 0x20, 0x41, 0x54, 0x50, 0x4F] :: byte list) ! (8 + unat (([0x00, 0xA0, 0x00, 0x00, 0x03, 0x96, 0x04, 0x03, 0xE8, 0x00, 0xFE, 0x02, 0x0B,
       0x03, 0xE8, 0x08, 0x01, 0x00, 0x00, 0x00, 0x00, 0x64, 0x00, 0x00, 0x0A,
       0x4A, 0x43, 0x4F, 0x50, 0x34, 0x20, 0x41, 0x54, 0x50, 0x4F] :: byte list) ! 6))) = 24 \<and> unat (([0x00, 0xA0, 0x00, 0x00, 0x03, 0x96, 0x04, 0x03, 0xE8, 0x00, 0xFE, 0x02, 0x0B,
       0x03, 0xE8, 0x08, 0x01, 0x00, 0x00, 0x00, 0x00, 0x64, 0x00, 0x00, 0x0A,
       0x4A, 0x43, 0x4F, 0x50, 0x34, 0x20, 0x41, 0x54, 0x50, 0x4F] :: byte list) ! 24) = 10 \<and>
   24 < length ([0x00, 0xA0, 0x00, 0x00, 0x03, 0x96, 0x04, 0x03, 0xE8, 0x00, 0xFE, 0x02, 0x0B,
       0x03, 0xE8, 0x08, 0x01, 0x00, 0x00, 0x00, 0x00, 0x64, 0x00, 0x00, 0x0A,
       0x4A, 0x43, 0x4F, 0x50, 0x34, 0x20, 0x41, 0x54, 0x50, 0x4F] :: byte list) \<and> 24 + 1 + 10 \<le> length ([0x00, 0xA0, 0x00, 0x00, 0x03, 0x96, 0x04, 0x03, 0xE8, 0x00, 0xFE, 0x02, 0x0B,
       0x03, 0xE8, 0x08, 0x01, 0x00, 0x00, 0x00, 0x00, 0x64, 0x00, 0x00, 0x0A,
       0x4A, 0x43, 0x4F, 0x50, 0x34, 0x20, 0x41, 0x54, 0x50, 0x4F] :: byte list) \<and> 9 + 10 \<le> length (replicate 32 (0 :: byte)) \<and>
   halse_se05x_get_atr (dev_calloc\<lparr>atr := ([0x00, 0xA0, 0x00, 0x00, 0x03, 0x96, 0x04, 0x03, 0xE8, 0x00, 0xFE, 0x02, 0x0B,
       0x03, 0xE8, 0x08, 0x01, 0x00, 0x00, 0x00, 0x00, 0x64, 0x00, 0x00, 0x0A,
       0x4A, 0x43, 0x4F, 0x50, 0x34, 0x20, 0x41, 0x54, 0x50, 0x4F] :: byte list)\<rparr>) (replicate 32 0) 32 =
     Some (0, ([0x3B, 0xFA, 0x96, 0x00, 0x00, 0x80, 0x11, 0xFE,
       0x4A, 0x43, 0x4F, 0x50, 0x34, 0x20, 0x41, 0x54, 0x50, 0x4F, 0x0B] :: byte list) @ replicate 13 0, 19) \<and>
   9 + unat (([0x00, 0xA0, 0x00, 0x00, 0x03, 0x96, 0x04, 0x03, 0xE8, 0x00, 0xFE, 0x02, 0x0B,
       0x03, 0xE8, 0x08, 0x01, 0x00, 0x00, 0x00, 0x00, 0x64, 0x00, 0x00, 0x10] :: byte list) ! 6) + unat (([0x00, 0xA0, 0x00, 0x00, 0x03, 0x96, 0x04, 0x03, 0xE8, 0x00, 0xFE, 0x02, 0x0B,
       0x03, 0xE8, 0x08, 0x01, 0x00, 0x00, 0x00, 0x00, 0x64, 0x00, 0x00, 0x10] :: byte list) ! (8 + unat (([0x00, 0xA0, 0x00, 0x00, 0x03, 0x96, 0x04, 0x03, 0xE8, 0x00, 0xFE, 0x02, 0x0B,
       0x03, 0xE8, 0x08, 0x01, 0x00, 0x00, 0x00, 0x00, 0x64, 0x00, 0x00, 0x10] :: byte list) ! 6))) = 24 \<and> unat (([0x00, 0xA0, 0x00, 0x00, 0x03, 0x96, 0x04, 0x03, 0xE8, 0x00, 0xFE, 0x02, 0x0B,
       0x03, 0xE8, 0x08, 0x01, 0x00, 0x00, 0x00, 0x00, 0x64, 0x00, 0x00, 0x10] :: byte list) ! 24) = 16 \<and>
   24 < length ([0x00, 0xA0, 0x00, 0x00, 0x03, 0x96, 0x04, 0x03, 0xE8, 0x00, 0xFE, 0x02, 0x0B,
       0x03, 0xE8, 0x08, 0x01, 0x00, 0x00, 0x00, 0x00, 0x64, 0x00, 0x00, 0x10] :: byte list) \<and>
   halse_se05x_get_atr (dev_calloc\<lparr>atr := ([0x00, 0xA0, 0x00, 0x00, 0x03, 0x96, 0x04, 0x03, 0xE8, 0x00, 0xFE, 0x02, 0x0B,
       0x03, 0xE8, 0x08, 0x01, 0x00, 0x00, 0x00, 0x00, 0x64, 0x00, 0x00, 0x10] :: byte list)\<rparr>) (replicate 32 0) 32 =
     Some (- 1, replicate 32 0, 32)"
proof -
  let ?A = "([0x00, 0xA0, 0x00, 0x00, 0x03, 0x96, 0x04, 0x03, 0xE8, 0x00, 0xFE, 0x02, 0x0B,
       0x03, 0xE8, 0x08, 0x01, 0x00, 0x00, 0x00, 0x00, 0x64, 0x00, 0x00, 0x0A,
       0x4A, 0x43, 0x4F, 0x50, 0x34, 0x20, 0x41, 0x54, 0x50, 0x4F] :: byte list)"
  let ?B = "([0x00, 0xA0, 0x00, 0x00, 0x03, 0x96, 0x04, 0x03, 0xE8, 0x00, 0xFE, 0x02, 0x0B,
       0x03, 0xE8, 0x08, 0x01, 0x00, 0x00, 0x00, 0x00, 0x64, 0x00, 0x00, 0x10] :: byte list)"
  let ?buf = "replicate 32 (0 :: byte)"
  have a: "atr (dev_calloc\<lparr>atr := ?A\<rparr>) = ?A" "atr (dev_calloc\<lparr>atr := ?B\<rparr>) = ?B"
    by simp_all
  have o: "9 + unat (?A ! 6) + unat (?A ! (8 + unat (?A ! 6))) = 24" by simp
  have h: "unat (?A ! 24) = 10" by simp
  have l: "24 < length ?A" "24 + 1 + 10 \<le> length ?A" "9 + 10 \<le> length ?buf" by simp_all
  have oB: "9 + unat (?B ! 6) + unat (?B ! (8 + unat (?B ! 6))) = 24" by simp
  have hB: "unat (?B ! 24) = 16" by simp
  have lB: "24 < length ?B" by simp
  have out: "[0x3B, 0xF0 OR of_nat 10, 0x96, 0x00, 0x00, 0x80, 0x11, 0xFE] @
      take 10 (drop (24 + 1) ?A) @
      [fold (\<lambda>x v. v XOR x) ([0xF0 OR of_nat 10, 0x96, 0x00, 0x00, 0x80, 0x11, 0xFE] @
         take 10 (drop (24 + 1) ?A)) 0] @ drop (9 + 10) ?buf =
      ([0x3B, 0xFA, 0x96, 0x00, 0x00, 0x80, 0x11, 0xFE,
       0x4A, 0x43, 0x4F, 0x50, 0x34, 0x20, 0x41, 0x54, 0x50, 0x4F, 0x0B] :: byte list) @ replicate 13 0"
    by code_simp
  from get_atr_rewrite [of "dev_calloc\<lparr>atr := ?A\<rparr>" ?buf 32, unfolded a o h, OF l(1),
      THEN conjunct1] l
  have ok: "halse_se05x_get_atr (dev_calloc\<lparr>atr := ?A\<rparr>) ?buf 32 =
      Some (0, ([0x3B, 0xFA, 0x96, 0x00, 0x00, 0x80, 0x11, 0xFE,
       0x4A, 0x43, 0x4F, 0x50, 0x34, 0x20, 0x41, 0x54, 0x50, 0x4F, 0x0B] :: byte list) @ replicate 13 0, 19)"
    unfolding out by simp
  from get_atr_rewrite [of "dev_calloc\<lparr>atr := ?B\<rparr>" ?buf 32, unfolded a oB hB, OF lB,
      THEN conjunct2]
  have bad: "halse_se05x_get_atr (dev_calloc\<lparr>atr := ?B\<rparr>) ?buf 32 = Some (- 1, ?buf, 32)"
    by simp
  from o h l ok oB hB lB bad show ?thesis by (intro conjI)
qed

declare xfer_read_loop.simps [simp del] xfer_write_loop.simps [simp del]

lemma i_block_not_special:
  assumes "is_i_block pcb"
  shows "\<not> is_s_block_request pcb" and "\<not> is_r_block_with_error pcb"
proof -
  have b7: "pcb AND 0x80 = 0" using assms by (simp add: is_i_block_def)
  have "pcb AND 0xC0 \<noteq> v" if "v AND 0x80 \<noteq> 0" for v
  proof
    assume "pcb AND 0xC0 = v"
    then have "(pcb AND 0xC0) AND 0x80 = v AND 0x80" by simp
    then have "pcb AND 0x80 = v AND 0x80" by (simp add: and.assoc)
    with b7 that show False by simp
  qed
  from this [of "0xC0"] this [of "0x80"]
  show "\<not> is_s_block_request pcb" and "\<not> is_r_block_with_error pcb"
    by (simp_all add: is_s_block_request_def is_s_block_def is_r_block_with_error_def
        is_r_block_def)
qed

text \<open>One round of the read loop on an I-block that passes the CRC check.\<close>

lemma read_loop_step:
  assumes wf: "wf_dev dev" and n: "length info \<le> SIZE_INF_MAX" and i: "is_i_block pcb"
    and rd: "rd bus = deliver (block HOST_NAD pcb info) @ rest"
    and off: "rx_off \<le> cap" and cap: "cap \<le> length rx"
  defines "k \<equiv> min (length info) (cap - rx_off)"
  defines "dev1 \<equiv> dev\<lparr>rxbuf := block HOST_NAD pcb info @ drop (5 + length info) (rxbuf dev)\<rparr>"
  defines "rx1 \<equiv> take rx_off rx @ take k info @ drop (rx_off + k) rx"
  shows "xfer_read_loop dev bus rx cap rx_off =
     (if drop_bit 5 pcb AND 0x01 \<noteq> 0 then
        (if wr_result bus \<noteq> 0 then
           (wr_result bus, rx1, cap,
            dev1\<lparr>txbuf := chain_ack (pcb, info) @ drop 5 (txbuf dev), txlen := 5\<rparr>,
            bus\<lparr>rd := rest, wr := tl (wr bus), sent := sent bus @ [chain_ack (pcb, info)]\<rparr>)
         else xfer_read_loop
            (dev1\<lparr>txbuf := chain_ack (pcb, info) @ drop 5 (txbuf dev), txlen := 5\<rparr>)
            (bus\<lparr>rd := rest, wr := tl (wr bus), sent := sent bus @ [chain_ack (pcb, info)]\<rparr>)
            rx1 cap (rx_off + k))
      else (0, rx1, rx_off + k, dev1, bus\<lparr>rd := rest\<rparr>))"
proof -
  have rb: "halse_se05x_recv_block dev bus 0 = (0, length info, dev1, bus\<lparr>rd := rest\<rparr>)"
    unfolding recv_block_on_block [OF wf n rd] dev1_def
    using i_block_not_special [OF i] by simp
  have pcb: "rxbuf dev1 ! 1 = pcb"
    by (simp add: dev1_def nth_append block_nth del: One_nat_def)
  have k: "(if rx_off + length info > cap then cap - rx_off else length info) = k"
    using off by (auto simp: k_def min_def)
  have inf: "take k (drop 3 (rxbuf dev1)) = take k info"
  proof -
    have "take k (take (length info) (drop 3 (block HOST_NAD pcb info @ tail))) = take k info" for tail
      by (simp only: drop_append take_append block_inf) (simp add: block_inf)
    then show ?thesis by (simp add: dev1_def k_def min_def split: if_splits)
  qed
  have st: "store rx rx_off (take k info) = rx1"
    unfolding rx1_def using off cap
    by (subst store_append) (auto simp: k_def min_def)
  have tx: "length (txbuf dev1) = SIZE_BUF" using wf by (simp add: wf_dev_def dev1_def)
  have ack: "halse_se05x_send_r_block dev1 (bus\<lparr>rd := rest\<rparr>) ((drop_bit 6 pcb AND 1) XOR 1) 0 =
      (wr_result bus,
       dev1\<lparr>txbuf := chain_ack (pcb, info) @ drop 5 (txbuf dev), txlen := 5\<rparr>,
       bus\<lparr>rd := rest, wr := tl (wr bus), sent := sent bus @ [chain_ack (pcb, info)]\<rparr>)"
    unfolding send_r_block_sends [OF tx]
    by (simp add: wr_result_def logged_def dev1_def)
  show ?thesis
    by (subst xfer_read_loop.simps)
       (simp add: rb pcb i k inf st ack Let_def del: One_nat_def xfer_read_loop.simps)
qed

lemma take_app_len: "length xs = n \<Longrightarrow> take n (xs @ ys) = xs"
  by simp

lemma drop_app_len: "length xs = n \<Longrightarrow> n \<le> m \<Longrightarrow> drop m (xs @ ys) = drop (m - n) ys"
  by simp

lemma take_app_min:
  "take c (xs @ ys) = take (min (length xs) c) xs @ take (c - min (length xs) c) ys"
proof (cases "length xs \<le> c")
  case True
  then show ?thesis by (simp add: min_absorb1)
next
  case False
  then have "min (length xs) c = c" by simp
  then show ?thesis using False by simp
qed

lemma rx_filled_step:
  fixes rx info tail :: "byte list"
  assumes off: "rx_off \<le> cap" and cap: "cap \<le> length rx"
  defines "k \<equiv> min (length info) (cap - rx_off)"
  defines "rx1 \<equiv> take rx_off rx @ take k info @ drop (rx_off + k) rx"
  shows "rx_filled rx1 cap (rx_off + k) tail = rx_filled rx cap rx_off (info @ tail) \<and>
         min cap (rx_off + k + length tail) = min cap (rx_off + length (info @ tail)) \<and>
         length rx1 = length rx \<and> rx_off + k \<le> cap"
proof -
  have kc: "rx_off + k \<le> cap" using off by (simp add: k_def)
  have kl: "k \<le> length info" by (simp add: k_def)
  have lab: "length (take rx_off rx @ take k info) = rx_off + k"
    using off cap kl by simp
  have rx1: "rx1 = (take rx_off rx @ take k info) @ drop (rx_off + k) rx"
    by (simp add: rx1_def)
  have "length rx1 = length (take rx_off rx @ take k info) + length (drop (rx_off + k) rx)"
    unfolding rx1 by (rule length_append)
  then have len: "length rx1 = length rx"
    unfolding lab using kc cap by simp
  have m: "min cap (rx_off + k + length tail) = min cap (rx_off + length (info @ tail))"
    using off by (auto simp: k_def min_def)
  have t1: "take (rx_off + k) rx1 = take rx_off rx @ take k info"
    unfolding rx1 by (rule take_app_len [OF lab])
  have d1: "drop m rx1 = drop m rx" if "rx_off + k \<le> m" for m
  proof -
    have "drop m rx1 = drop (m - (rx_off + k)) (drop (rx_off + k) rx)"
      unfolding rx1 by (rule drop_app_len [OF lab that])
    also have "\<dots> = drop m rx" using that by (simp del: drop_drop add: drop_drop [of _ _ rx])
    finally show ?thesis .
  qed
  have "cap - (rx_off + k) = cap - rx_off - k" by simp
  then have t2: "take (cap - rx_off) (info @ tail) = take k info @ take (cap - (rx_off + k)) tail"
    unfolding k_def by (simp only: take_app_min [of "cap - rx_off" info tail])
  have ge: "rx_off + k \<le> min cap (rx_off + k + length tail)" using kc by simp
  have "rx_filled rx1 cap (rx_off + k) tail =
      (take rx_off rx @ take k info) @ take (cap - (rx_off + k)) tail @
      drop (min cap (rx_off + k + length tail)) rx"
    unfolding rx_filled_def t1 d1 [OF ge] ..
  also have "\<dots> = rx_filled rx cap rx_off (info @ tail)"
    unfolding rx_filled_def m t2 by (simp only: append_assoc)
  finally have "rx_filled rx1 cap (rx_off + k) tail = rx_filled rx cap rx_off (info @ tail)" .
  with m len kc show ?thesis by (intro conjI)
qed

lemma read_loop_chain:
  assumes "well_chained blocks" and "wf_dev dev" and "rd bus = chain_wire blocks @ rest"
    and "wr bus = replicate (length blocks - 1) 0 @ ws"
    and "rx_off \<le> cap" and "cap \<le> length rx"
  shows "\<exists>dev'. xfer_read_loop dev bus rx cap rx_off =
           (0, rx_filled rx cap rx_off (concat (map snd blocks)),
            min cap (rx_off + length (concat (map snd blocks))), dev',
            bus\<lparr>rd := rest, wr := ws, sent := sent bus @ map chain_ack (butlast blocks)\<rparr>)"
  using assms
proof (induction blocks arbitrary: dev bus rx rx_off rule: well_chained.induct)
  case 1
  then show ?case by simp
next
  case (2 pcb info)
  let ?k = "min (length info) (cap - rx_off)"
  have n: "length info \<le> SIZE_INF_MAX" and i: "is_i_block pcb"
    and nochain: "drop_bit 5 pcb AND 0x01 = 0"
    using "2.prems"(1) by simp_all
  have rd: "rd bus = deliver (block HOST_NAD pcb info) @ rest"
    using "2.prems"(3) by (simp add: chain_wire_def)
  have wr: "wr bus = ws" using "2.prems"(4) by simp
  have bus: "bus\<lparr>rd := rest\<rparr> = bus\<lparr>rd := rest, wr := ws, sent := sent bus @ []\<rparr>"
    using wr by (cases bus) simp
  have m: "rx_off + ?k = min cap (rx_off + length info)"
    using "2.prems"(5) by (auto simp: min_def)
  have tk: "take ?k info = take (cap - rx_off) info"
    by (auto simp: min_def)
  have rx: "take rx_off rx @ take ?k info @ drop (rx_off + ?k) rx = rx_filled rx cap rx_off info"
    unfolding rx_filled_def m tk ..
  have "xfer_read_loop dev bus rx cap rx_off =
      (0, take rx_off rx @ take ?k info @ drop (rx_off + ?k) rx, rx_off + ?k,
       dev\<lparr>rxbuf := block HOST_NAD pcb info @ drop (5 + length info) (rxbuf dev)\<rparr>,
       bus\<lparr>rd := rest\<rparr>)"
    unfolding read_loop_step [OF "2.prems"(2) n i rd "2.prems"(5,6)]
    using nochain by simp
  then have "xfer_read_loop dev bus rx cap rx_off =
      (0, rx_filled rx cap rx_off (concat (map snd [(pcb, info)])),
       min cap (rx_off + length (concat (map snd [(pcb, info)]))),
       dev\<lparr>rxbuf := block HOST_NAD pcb info @ drop (5 + length info) (rxbuf dev)\<rparr>,
       bus\<lparr>rd := rest, wr := ws, sent := sent bus @ map chain_ack (butlast [(pcb, info)])\<rparr>)"
    by (subst (asm) rx, subst (asm) m, subst (asm) bus) simp
  then show ?case by blast
next
  case (3 pcb info b bs)
  let ?k = "min (length info) (cap - rx_off)"
  let ?rx1 = "take rx_off rx @ take ?k info @ drop (rx_off + ?k) rx"
  let ?dev1 = "dev\<lparr>rxbuf := block HOST_NAD pcb info @ drop (5 + length info) (rxbuf dev),
                   txbuf := chain_ack (pcb, info) @ drop 5 (txbuf dev), txlen := 5\<rparr>"
  let ?rest1 = "chain_wire (b # bs) @ rest"
  let ?bus1 = "bus\<lparr>rd := ?rest1, wr := tl (wr bus), sent := sent bus @ [chain_ack (pcb, info)]\<rparr>"
  have n: "length info \<le> SIZE_INF_MAX" and i: "is_i_block pcb"
    and chain: "drop_bit 5 pcb AND 0x01 \<noteq> 0" and wc: "well_chained (b # bs)"
    using "3.prems"(1) by simp_all
  have rd: "rd bus = deliver (block HOST_NAD pcb info) @ ?rest1"
    using "3.prems"(3) by (simp add: chain_wire_def)
  have wr: "wr bus = 0 # (replicate (length (b # bs) - 1) 0 @ ws)"
    using "3.prems"(4) by simp
  have step: "xfer_read_loop dev bus rx cap rx_off = xfer_read_loop ?dev1 ?bus1 ?rx1 cap (rx_off + ?k)"
    unfolding read_loop_step [OF "3.prems"(2) n i rd "3.prems"(5,6)]
    using chain wr by (simp add: wr_result_def)
  note fill = rx_filled_step [where info = info and tail = "concat (map snd (b # bs))",
      OF "3.prems"(5,6)]
  have wf1: "wf_dev ?dev1"
    using "3.prems"(2) n by (simp add: wf_dev_def)
  have rd1: "rd ?bus1 = chain_wire (b # bs) @ rest" by simp
  have wr1: "wr ?bus1 = replicate (length (b # bs) - 1) 0 @ ws" using wr by simp
  have cap1: "cap \<le> length ?rx1" using fill "3.prems"(6) by simp
  have off1: "rx_off + ?k \<le> cap" using fill by simp
  from "3.IH" [OF wc wf1 rd1 wr1 off1 cap1]
  obtain dev' where "xfer_read_loop ?dev1 ?bus1 ?rx1 cap (rx_off + ?k) =
      (0, rx_filled ?rx1 cap (rx_off + ?k) (concat (map snd (b # bs))),
       min cap (rx_off + ?k + length (concat (map snd (b # bs)))), dev',
       ?bus1\<lparr>rd := rest, wr := ws, sent := sent ?bus1 @ map chain_ack (butlast (b # bs))\<rparr>)"
    by blast
  then have "xfer_read_loop dev bus rx cap rx_off =
      (0, rx_filled rx cap rx_off (concat (map snd ((pcb, info) # b # bs))),
       min cap (rx_off + length (concat (map snd ((pcb, info) # b # bs)))), dev',
       bus\<lparr>rd := rest, wr := ws, sent := sent bus @ map chain_ack (butlast ((pcb, info) # b # bs))\<rparr>)"
    unfolding step using fill by simp
  then show ?case by blast
qed

lemma xfer_write_loop_wf:
  "wf_dev dev \<Longrightarrow> wf_dev (fst (snd (xfer_write_loop dev bus tx tx_len tx_off)))"
proof (induction dev bus tx tx_len tx_off rule: xfer_write_loop.induct)
  case (1 dev bus tx tx_len tx_off)
  define left where "left = tx_len - tx_off"
  define len where "len = (if SIZE_INF_MAX > left then left else SIZE_INF_MAX)"
  define chain where "chain \<longleftrightarrow> left - len > 0"
  obtain r dev' bus' where s:
    "halse_se05x_send_i_block dev bus (drop tx_off tx) len chain = (r, dev', bus')"
    by (metis prod_cases3)
  have len: "len \<le> 254" by (simp add: len_def)
  have wf': "wf_dev dev'" using send_i_block_fields(4) [OF s len "1.prems"] .
  have unfold: "xfer_write_loop dev bus tx tx_len tx_off =
      (if r \<noteq> 0 then (r, dev', bus')
       else if chain then xfer_write_loop dev' bus' tx tx_len (tx_off + len)
       else (r, dev', bus'))"
    by (subst xfer_write_loop.simps)
       (simp only: Let_def s [unfolded len_def chain_def left_def] prod.case
          left_def len_def chain_def)
  show ?case
  proof (cases "r = 0 \<and> chain")
    case True
    have "wf_dev (fst (snd (xfer_write_loop dev' bus' tx tx_len (tx_off + len))))"
    proof (rule "1.IH" [of left len chain r "(dev', bus')" dev' bus'])
      show "left = tx_len - tx_off" by (rule left_def)
      show "len = (if SIZE_INF_MAX > left then left else SIZE_INF_MAX)" by (rule len_def)
      show "chain = (0 < left - len)" by (simp add: chain_def)
      show "(r, dev', bus') = halse_se05x_send_i_block dev bus (drop tx_off tx) len chain"
        by (rule s [symmetric])
      show "(dev', bus') = (dev', bus')" by (rule refl)
      show "\<not> r \<noteq> 0" using True by simp
      show chain using True by simp
      show "wf_dev dev'" by (rule wf')
    qed
    with True show ?thesis unfolding unfold by simp
  next
    case False
    with wf' show ?thesis unfolding unfold by auto
  qed
qed

lemma send_i_block_unchained_rd:
  "rd (snd (snd (halse_se05x_send_i_block dev bus buf len False))) = rd bus"
proof -
  obtain r3 dev3 bus3 where cs:
    "halse_se05x_crc_and_send (i_block_staged dev buf len False) bus (3 + len) = (r3, dev3, bus3)"
    by (metis prod_cases3)
  from crc_and_send_rd [OF cs] show ?thesis
    by (simp add: send_i_block_unfold cs)
qed

lemma xfer_write_loop_single:
  assumes "0 < tx_len" and "tx_len \<le> SIZE_INF_MAX" and "wr bus = 0 # ws"
  shows "fst (xfer_write_loop dev bus tx tx_len 0) = 0"
    and "rd (snd (snd (xfer_write_loop dev bus tx tx_len 0))) = rd bus"
    and "wr (snd (snd (xfer_write_loop dev bus tx tx_len 0))) = ws"
proof -
  have eq: "xfer_write_loop dev bus tx tx_len 0 =
      (case halse_se05x_send_i_block dev bus tx tx_len False of
         (ret, dev', bus') \<Rightarrow> (ret, dev', bus'))"
    using assms(1,2)
    by (subst xfer_write_loop.simps) (auto simp: Let_def split: prod.splits)
  obtain r dev' bus' where s: "halse_se05x_send_i_block dev bus tx tx_len False = (r, dev', bus')"
    by (metis prod_cases3)
  from send_i_block_unchained [OF assms(3,2), of dev tx] send_i_block_unchained_rd [of dev bus tx tx_len]
  show "fst (xfer_write_loop dev bus tx tx_len 0) = 0"
    and "rd (snd (snd (xfer_write_loop dev bus tx tx_len 0))) = rd bus"
    and "wr (snd (snd (xfer_write_loop dev bus tx tx_len 0))) = ws"
    unfolding eq s by simp_all
qed

subsection \<open>The receive does not depend on the start value of its length\<close>

lemma recv_frame_len:
  assumes "recv_frame dev bus len = (r, l, d, b)"
  shows "\<exists>l'. recv_frame dev bus len' = (r, l', d, b) \<and> (r = 0 \<longrightarrow> l' = l)"
  using assms by (auto simp: recv_frame_def Let_def split: prod.splits if_splits)

lemma recv_block_len:
  assumes "halse_se05x_recv_block dev bus len = (r, l, d, b)"
  shows "\<exists>l'. halse_se05x_recv_block dev bus len' = (r, l', d, b) \<and> (r = 0 \<longrightarrow> l' = l)"
proof -
  obtain r1 l1 d1 b1 where f: "recv_frame dev bus len = (r1, l1, d1, b1)"
    by (metis prod_cases4)
  from recv_frame_len [OF f, of len']
  obtain l1' where f': "recv_frame dev bus len' = (r1, l1', d1, b1)" and e: "r1 = 0 \<longrightarrow> l1' = l1"
    by blast
  show ?thesis
  proof (cases "r1 = 0")
    case True
    with e f f' have feq: "recv_frame dev bus len' = recv_frame dev bus len" by simp
    have "halse_se05x_recv_block dev bus len' = halse_se05x_recv_block dev bus len"
      by (simp only: halse_se05x_recv_block.simps [of dev bus len']
          halse_se05x_recv_block.simps [of dev bus len] feq)
    with assms show ?thesis by simp
  next
    case False
    from assms have "(r, l, d, b) = (r1, l1, d1, b1)"
      by (subst (asm) halse_se05x_recv_block.simps) (simp add: f False)
    moreover have "halse_se05x_recv_block dev bus len' = (r1, l1', d1, b1)"
      by (subst halse_se05x_recv_block.simps) (simp add: f' False)
    ultimately show ?thesis using False by simp
  qed
qed

lemma read_loop_recv_eq:
  assumes "halse_se05x_recv_block dev bus len = halse_se05x_recv_block dev' bus' len'"
  shows "xfer_read_loop dev bus rx cap rx_off = xfer_read_loop dev' bus' rx cap rx_off"
proof -
  obtain r l d b where a: "halse_se05x_recv_block dev bus len = (r, l, d, b)"
    by (metis prod_cases4)
  from a assms have a': "halse_se05x_recv_block dev' bus' len' = (r, l, d, b)" by simp
  from recv_block_len [OF a, of 0]
  obtain l0 where a0: "halse_se05x_recv_block dev bus 0 = (r, l0, d, b)" and e0: "r = 0 \<longrightarrow> l0 = l"
    by blast
  from recv_block_len [OF a', of 0]
  obtain l0' where b0: "halse_se05x_recv_block dev' bus' 0 = (r, l0', d, b)"
    and e0': "r = 0 \<longrightarrow> l0' = l"
    by blast
  show ?thesis
  proof (cases "r = 0")
    case True
    with a0 b0 e0 e0' have eq: "halse_se05x_recv_block dev bus 0 = halse_se05x_recv_block dev' bus' 0"
      by simp
    show ?thesis
      by (simp only: xfer_read_loop.simps [of dev bus rx cap rx_off]
          xfer_read_loop.simps [of dev' bus' rx cap rx_off] eq)
  next
    case False
    from xfer_read_loop_fail [OF a0 False] xfer_read_loop_fail [OF b0 False]
    show ?thesis by simp
  qed
qed

subsection \<open>What an exchange leaves in the session\<close>

lemma clear_buf_eq:
  "atr d' = atr d \<Longrightarrow> n_s d' = n_s d \<Longrightarrow> n_r d' = n_r d \<Longrightarrow>
   halse_se05x_clear_buf d' = halse_se05x_clear_buf d"
  by (cases d, cases d') (simp add: halse_se05x_clear_buf_def)

lemma recv_block_atr:
  "halse_se05x_recv_block dev bus len = (r, l, dev', bus') \<Longrightarrow> atr dev' = atr dev"
  by (erule recv_block_rel [where R = "\<lambda>d b d' b'. atr d' = atr d", rotated -1])
     (auto dest: recv_frame_fields send_s_block_fields resend_fields)

lemma read_loop_fields:
  "xfer_read_loop dev bus rx cap rx_off = (r, rx', n, d, b) \<Longrightarrow>
   atr d = atr dev \<and> n_s d = n_s dev \<and> n_r d = n_r dev"
proof (induction "length (rd bus)" arbitrary: dev bus rx rx_off rule: less_induct)
  case less
  obtain r1 l1 d1 b1 where rb: "halse_se05x_recv_block dev bus 0 = (r1, l1, d1, b1)"
    by (metis prod_cases4)
  have f1: "atr d1 = atr dev \<and> n_s d1 = n_s dev \<and> n_r d1 = n_r dev"
    using recv_block_atr [OF rb] recv_block_n_s [OF rb] recv_block_n_r [OF rb] by simp
  obtain r2 d2 b2 where sr:
    "halse_se05x_send_r_block d1 b1 ((drop_bit 6 (rxbuf d1 ! 1) AND 1) XOR 1) 0 = (r2, d2, b2)"
    by (metis prod_cases3)
  have f2: "atr d2 = atr d1 \<and> n_s d2 = n_s d1 \<and> n_r d2 = n_r d1"
    using send_r_block_fields [OF sr] by simp
  show ?case
  proof (cases "r1 = 0 \<and> is_i_block (rxbuf d1 ! 1) \<and> drop_bit 5 (rxbuf d1 ! 1) AND 1 \<noteq> 0 \<and> r2 = 0")
    case True
    with rb have "length (rd b1) < length (rd bus)" by (auto dest: recv_block_rd_less)
    with send_r_block_rd [OF sr] have lt: "length (rd b2) < length (rd bus)" by simp
    from less.prems True obtain rxa offa where
      "xfer_read_loop d2 b2 rxa cap offa = (r, rx', n, d, b)"
      by (subst (asm) xfer_read_loop.simps) (auto simp: rb sr Let_def simp del: One_nat_def)
    from less.hyps [OF lt this] f1 f2 show ?thesis by simp
  next
    case False
    from less.prems False have "d = d1 \<or> d = d2"
      by (subst (asm) xfer_read_loop.simps)
         (auto simp: rb sr Let_def split: if_splits simp del: One_nat_def)
    with f1 f2 show ?thesis by auto
  qed
qed

lemma read_loop_clear_buf:
  "xfer_read_loop dev bus rx cap rx_off = (r, rx', n, d, b) \<Longrightarrow>
   halse_se05x_clear_buf d = halse_se05x_clear_buf dev"
  by (drule read_loop_fields) (rule clear_buf_eq, simp_all)

subsection \<open>The read loop over a retransmission and over WTX requests\<close>



lemma read_loop_wtx:
  assumes "xs \<noteq> []" and "wf_dev dev"
    and "rd bus = concat (map wtx_wire xs) @ rest"
    and "wr bus = replicate (length xs) 0 @ ws"
  shows "xfer_read_loop dev bus rx cap rx_off =
         xfer_read_loop
           (dev\<lparr>rxbuf := wtx_request (last xs) @ drop 6 (rxbuf dev),
                txbuf := wtx_response (last xs) @ drop 6 (txbuf dev), txlen := 6\<rparr>)
           (bus\<lparr>rd := rest, wr := ws, sent := sent bus @ map wtx_response xs\<rparr>) rx cap rx_off"
  by (rule read_loop_recv_eq [where len = 0 and len' = 1]) (rule wtx_run [OF assms])

lemma xfer_write_loop_single_eq:
  assumes "length (txbuf dev) = SIZE_BUF" and "0 < tx_len" and "tx_len \<le> SIZE_INF_MAX"
    and "tx_len \<le> length tx" and "wr bus = 0 # ws"
  shows "xfer_write_loop dev bus tx tx_len 0 =
         (0,
          dev\<lparr>n_s := n_s dev XOR 1,
              txbuf := block SE05X_NAD (if n_s dev \<noteq> 0 then 0x40 else 0x00) (take tx_len tx) @
                       drop (5 + tx_len) (txbuf dev),
              txlen := 5 + tx_len\<rparr>,
          bus\<lparr>wr := ws,
              sent := sent bus @
                [block SE05X_NAD (if n_s dev \<noteq> 0 then 0x40 else 0x00) (take tx_len tx)]\<rparr>)"
proof -
  have eq: "xfer_write_loop dev bus tx tx_len 0 =
      (case halse_se05x_send_i_block dev bus tx tx_len False of
         (ret, dev', bus') \<Rightarrow> (ret, dev', bus'))"
    using assms(2,3)
    by (subst xfer_write_loop.simps) (auto simp: Let_def split: prod.splits)
  show ?thesis
    unfolding eq send_i_block_unfold i_block_staged_sends [OF assms(1,3,4)]
    using assms(3,5) by (simp add: logged_def)
qed

subsection \<open>The exchange of a one-block command\<close>

lemma xfer_single:
  assumes "wf_dev dev" and "0 < tx_len" and "tx_len \<le> SIZE_INF_MAX" and "tx_len \<le> length tx"
    and "wr bus = 0 # ws"
  defines "frame \<equiv> block SE05X_NAD (if n_s dev \<noteq> 0 then 0x40 else 0x00) (take tx_len tx)"
  defines "dev1 \<equiv> dev\<lparr>n_s := n_s dev XOR 1, txbuf := frame @ drop (5 + tx_len) (txbuf dev),
                        txlen := 5 + tx_len\<rparr>"
  shows "halse_se05x_xfer dev bus (Some tx) tx_len (Some rx) (Some cap) =
           (case xfer_read_loop dev1 (bus\<lparr>wr := ws, sent := sent bus @ [frame]\<rparr>) rx cap 0 of
              (ret, rx', rx_len', dev3, bus3) \<Rightarrow>
                (ret, halse_se05x_clear_buf dev3, bus3, Some rx', Some rx_len')) \<and>
         wf_dev dev1 \<and>
         halse_se05x_clear_buf dev1 = halse_se05x_clear_buf (dev\<lparr>n_s := n_s dev XOR 1\<rparr>)"
proof -
  have tx: "length (txbuf dev) = SIZE_BUF" and rxl: "length (rxbuf dev) = SIZE_BUF"
    using assms(1) by (simp_all add: wf_dev_def)
  have lf: "length frame = 5 + tx_len" using assms(4) by (simp add: frame_def)
  have w: "xfer_write_loop dev bus tx tx_len 0 =
      (0, dev1, bus\<lparr>wr := ws, sent := sent bus @ [frame]\<rparr>)"
    unfolding frame_def dev1_def by (rule xfer_write_loop_single_eq [OF tx assms(2,3,4,5)])
  have wf1: "wf_dev dev1" using tx rxl assms(3) lf by (simp add: wf_dev_def dev1_def)
  have cb: "halse_se05x_clear_buf dev1 = halse_se05x_clear_buf (dev\<lparr>n_s := n_s dev XOR 1\<rparr>)"
    by (simp add: halse_se05x_clear_buf_def dev1_def)
  have "halse_se05x_xfer dev bus (Some tx) tx_len (Some rx) (Some cap) =
           (case xfer_read_loop dev1 (bus\<lparr>wr := ws, sent := sent bus @ [frame]\<rparr>) rx cap 0 of
              (ret, rx', rx_len', dev3, bus3) \<Rightarrow>
                (ret, halse_se05x_clear_buf dev3, bus3, Some rx', Some rx_len'))"
    using assms(2) by (simp add: halse_se05x_xfer_def w)
  with wf1 cb show ?thesis by blast
qed

lemma xfer_single_chain:
  assumes "wf_dev dev" and "0 < tx_len" and "tx_len \<le> SIZE_INF_MAX" and "tx_len \<le> length tx"
    and "wr bus = 0 # replicate (length blocks - 1) 0 @ ws"
    and "well_chained blocks" and "rd bus = chain_wire blocks @ rest" and "cap \<le> length rx"
  shows "halse_se05x_xfer dev bus (Some tx) tx_len (Some rx) (Some cap) =
           (0, halse_se05x_clear_buf (dev\<lparr>n_s := n_s dev XOR 1\<rparr>),
            bus\<lparr>rd := rest, wr := ws,
                sent := sent bus @
                  [block SE05X_NAD (if n_s dev \<noteq> 0 then 0x40 else 0x00) (take tx_len tx)] @
                  map chain_ack (butlast blocks)\<rparr>,
            Some (rx_filled rx cap 0 (concat (map snd blocks))),
            Some (min cap (length (concat (map snd blocks)))))"
proof -
  let ?frame = "block SE05X_NAD (if n_s dev \<noteq> 0 then 0x40 else 0x00) (take tx_len tx)"
  let ?dev1 = "dev\<lparr>n_s := n_s dev XOR 1, txbuf := ?frame @ drop (5 + tx_len) (txbuf dev),
                    txlen := 5 + tx_len\<rparr>"
  let ?bus1 = "bus\<lparr>wr := replicate (length blocks - 1) 0 @ ws, sent := sent bus @ [?frame]\<rparr>"
  note x = xfer_single [OF assms(1-5), of rx cap]
  have rd1: "rd ?bus1 = chain_wire blocks @ rest" using assms(7) by simp
  have wr1: "wr ?bus1 = replicate (length blocks - 1) 0 @ ws" by simp
  from read_loop_chain [OF assms(6) x [THEN conjunct2, THEN conjunct1] rd1 wr1 _ assms(8), of 0]
  obtain dev3 where r: "xfer_read_loop ?dev1 ?bus1 rx cap 0 =
      (0, rx_filled rx cap 0 (concat (map snd blocks)),
       min cap (0 + length (concat (map snd blocks))), dev3,
       ?bus1\<lparr>rd := rest, wr := ws, sent := sent ?bus1 @ map chain_ack (butlast blocks)\<rparr>)"
    by auto
  have cb: "halse_se05x_clear_buf dev3 = halse_se05x_clear_buf (dev\<lparr>n_s := n_s dev XOR 1\<rparr>)"
    using read_loop_clear_buf [OF r] x [THEN conjunct2, THEN conjunct2] by simp
  show ?thesis
    unfolding x [THEN conjunct1] r by (simp add: cb)
qed

lemma wf_after_wtx:
  "wf_dev d \<Longrightarrow>
   wf_dev (d\<lparr>rxbuf := wtx_request x @ drop 6 (rxbuf d),
             txbuf := wtx_response x @ drop 6 (txbuf d), txlen := 6\<rparr>)"
  by (simp add: wf_dev_def)

section \<open>Claims\<close>

text \<open>
  C10: N(S) advances even on a failed send. For every call of
  \<^verbatim>\<open>halse_se05x_send_i_block\<close> with a length of at most 254, N(S) after the call is
  N(S) before the call XOR 1, whatever the call returns: the toggle comes before the
  write, and neither a failed write nor a failed token check takes it back.
\<close>

theorem send_i_block_always_toggles:
  "len \<le> SIZE_INF_MAX \<Longrightarrow>
   n_s (fst (snd (halse_se05x_send_i_block dev bus buf len chain))) = n_s dev XOR 1"
  using send_i_block_fields(1) [of dev bus buf len chain]
  by (cases "halse_se05x_send_i_block dev bus buf len chain") auto

theorem send_i_block_always_toggles_witness:
  "(4 :: nat) \<le> SIZE_INF_MAX \<and>
   fst (halse_se05x_send_i_block dev_calloc \<lparr>rd = [], wr = [- 5], sent = []\<rparr>
          [0x00, 0xA4, 0x04, 0x00] 4 False) = - 1 \<and>
   n_s (fst (snd (halse_se05x_send_i_block dev_calloc \<lparr>rd = [], wr = [- 5], sent = []\<rparr>
          [0x00, 0xA4, 0x04, 0x00] 4 False))) = 1"
proof -
  have le: "(4 :: nat) \<le> SIZE_INF_MAX" by simp
  have ret: "fst (halse_se05x_send_i_block dev_calloc \<lparr>rd = [], wr = [- 5], sent = []\<rparr>
          [0x00, 0xA4, 0x04, 0x00] 4 False) = - 1"
    by code_simp
  have "n_s dev_calloc XOR 1 = 1" by (simp add: dev_calloc_def)
  with send_i_block_always_toggles [OF le, of dev_calloc "\<lparr>rd = [], wr = [- 5], sent = []\<rparr>"
      "[0x00, 0xA4, 0x04, 0x00]" False] le ret
  show ?thesis by (simp only:)
qed

text \<open>
  C4: CRC round-trip. For every PCB byte and every INF of 0 to 254 bytes, the block the
  sender frames (prologue NAD, PCB, LEN, then INF, then the CRC of the first \<open>3 + LEN\<close>
  bytes, high byte first) passes the receiver's check: the CRC recomputed over the
  first \<open>3 + LEN\<close> received bytes equals the big-endian value of the two bytes that
  follow, and the receiver finds the same PCB, LEN and INF in its buffer.
\<close>

theorem crc_round_trip:
  assumes "wf_dev tdev" and "wf_dev rdev" and "length info \<le> SIZE_INF_MAX"
    and "take (SIZE_PROLOGUE + length info) (txbuf tdev) = [nad, pcb, of_nat (length info)] @ info"
    and "rd rbus =
           deliver (last (sent (snd (snd
             (halse_se05x_crc_and_send tdev tbus (SIZE_PROLOGUE + length info)))))) @ rest"
  shows "last (sent (snd (snd (halse_se05x_crc_and_send tdev tbus (SIZE_PROLOGUE + length info))))) =
           [nad, pcb, of_nat (length info)] @ info @
           epilogue ([nad, pcb, of_nat (length info)] @ info) \<and>
         (case recv_frame rdev rbus len of
            (ret, len', rdev', rbus') \<Rightarrow>
              ret = 0 \<and> len' = length info \<and> crc_matches (rxbuf rdev') len' \<and>
              rxbuf rdev' ! 1 = pcb \<and> rxbuf rdev' ! 2 = of_nat (length info) \<and>
              take len' (drop 3 (rxbuf rdev')) = info \<and> rd rbus' = rest)"
proof -
  have tx: "length (txbuf tdev) = SIZE_BUF" and rx: "length (rxbuf rdev) = SIZE_BUF"
    using assms(1,2) by (simp_all add: wf_dev_def)
  have sent: "last (sent (snd (snd (halse_se05x_crc_and_send tdev tbus (SIZE_PROLOGUE + length info)))))
      = block nad pcb info"
    by (simp add: crc_and_send_body [OF tx assms(3,4)] logged_def)
  have frame: "block nad pcb info =
      [nad, pcb, of_nat (length info)] @ info @ epilogue ([nad, pcb, of_nat (length info)] @ info)"
    by (simp add: block_def Let_def)
  have rdb: "rd rbus = deliver (block nad pcb info) @ rest"
    using assms(5) unfolding sent .
  have fields: "(block nad pcb info @ tail) ! 1 = pcb"
    "(block nad pcb info @ tail) ! 2 = of_nat (length info)"
    "take (length info) (drop 3 (block nad pcb info @ tail)) = info" for tail
    by (simp_all add: nth_append block_nth block_inf del: One_nat_def)
  have rcv: "case recv_frame rdev rbus len of
      (ret, len', rdev', rbus') \<Rightarrow>
        ret = 0 \<and> len' = length info \<and> crc_matches (rxbuf rdev') len' \<and>
        rxbuf rdev' ! 1 = pcb \<and> rxbuf rdev' ! 2 = of_nat (length info) \<and>
        take len' (drop 3 (rxbuf rdev')) = info \<and> rd rbus' = rest"
    unfolding recv_frame_block [OF rx assms(3) rdb]
    by (simp add: crc_matches_block fields block_inf del: One_nat_def)
  from sent frame have "last (sent (snd (snd
      (halse_se05x_crc_and_send tdev tbus (SIZE_PROLOGUE + length info))))) =
      [nad, pcb, of_nat (length info)] @ info @ epilogue ([nad, pcb, of_nat (length info)] @ info)"
    by (rule trans)
  with rcv show ?thesis by (rule conjI [rotated])
qed

theorem crc_round_trip_witness:
  "wf_dev (dev_calloc\<lparr>txbuf := [0x5A, 0x00, 0x02, 0x90, 0x00] @ replicate 254 0\<rparr>) \<and>
   wf_dev dev_calloc \<and> length [0x90, 0x00 :: byte] \<le> SIZE_INF_MAX \<and>
   take (SIZE_PROLOGUE + length [0x90, 0x00 :: byte])
     (txbuf (dev_calloc\<lparr>txbuf := [0x5A, 0x00, 0x02, 0x90, 0x00] @ replicate 254 0\<rparr>)) =
     [0x5A, 0x00, of_nat (length [0x90, 0x00 :: byte])] @ [0x90, 0x00] \<and>
   rd \<lparr>rd = [(0, [0x5A, 0x00, 0x02, 0x90, 0x00]), (0, [0x58, 0x5A])], wr = [], sent = []\<rparr> =
     deliver (last (sent (snd (snd (halse_se05x_crc_and_send
       (dev_calloc\<lparr>txbuf := [0x5A, 0x00, 0x02, 0x90, 0x00] @ replicate 254 0\<rparr>)
       \<lparr>rd = [], wr = [0], sent = []\<rparr> (SIZE_PROLOGUE + length [0x90, 0x00 :: byte])))))) @ [] \<and>
   (case recv_frame dev_calloc
           \<lparr>rd = [(0, [0x5A, 0x00, 0x02, 0x90, 0x00]), (0, [0x58, 0x5A])], wr = [], sent = []\<rparr> 0 of
      (ret, len', rdev', rbus') \<Rightarrow>
        ret = 0 \<and> len' = length [0x90, 0x00 :: byte] \<and> crc_matches (rxbuf rdev') len' \<and>
        rxbuf rdev' ! 1 = 0x00 \<and> rxbuf rdev' ! 2 = of_nat (length [0x90, 0x00 :: byte]) \<and>
        take len' (drop 3 (rxbuf rdev')) = [0x90, 0x00] \<and> rd rbus' = [])"
proof -
  let ?tdev = "dev_calloc\<lparr>txbuf := [0x5A, 0x00, 0x02, 0x90, 0x00] @ replicate 254 0\<rparr>"
  let ?rbus = "\<lparr>rd = [(0, [0x5A, 0x00, 0x02, 0x90, 0x00 :: byte]), (0, [0x58, 0x5A])],
                wr = [] :: int list, sent = [] :: byte list list\<rparr>"
  have h1: "wf_dev ?tdev" by (simp add: wf_dev_def dev_calloc_def)
  have h2: "wf_dev dev_calloc" by (simp add: wf_dev_def dev_calloc_def)
  have h3: "length [0x90, 0x00 :: byte] \<le> SIZE_INF_MAX" by simp
  have h4: "take (SIZE_PROLOGUE + length [0x90, 0x00 :: byte]) (txbuf ?tdev) =
     [0x5A, 0x00, of_nat (length [0x90, 0x00 :: byte])] @ [0x90, 0x00]"
    by (simp add: dev_calloc_def)
  have h5: "rd ?rbus =
     deliver (last (sent (snd (snd (halse_se05x_crc_and_send ?tdev
       \<lparr>rd = [], wr = [0], sent = []\<rparr> (SIZE_PROLOGUE + length [0x90, 0x00 :: byte])))))) @ []"
    by code_simp
  from crc_round_trip [OF h1 h2 h3 h4 h5, of 0] h1 h2 h3 h4 h5
  show ?thesis by (simp only:)
qed

text \<open>
  C5: WTX echo. When the receive gets a valid S-block request of type WTX with one INF
  byte (PCB 0xC3, LEN 1), the driver hands the transport an S-block response of type
  WTX, \<open>5A E3 01\<close>, the INF byte of the request and the CRC, and then receives again.
  (When the write of the response fails, the receive fails with -1.)
\<close>

theorem wtx_request_is_echoed:
  assumes "wf_dev dev" and "rd bus = deliver (block nad 0xC3 [x]) @ rest"
  defines "response \<equiv> [SE05X_NAD, 0xE3, 0x01, x] @ epilogue [SE05X_NAD, 0xE3, 0x01, x]"
  defines "dev' \<equiv> dev\<lparr>rxbuf := block nad 0xC3 [x] @ drop 6 (rxbuf dev),
                        txbuf := response @ drop 6 (txbuf dev), txlen := 6\<rparr>"
    and "bus' \<equiv> bus\<lparr>rd := rest, wr := tl (wr bus), sent := sent bus @ [response]\<rparr>"
  shows "halse_se05x_recv_block dev bus len =
           (if wr_result bus \<noteq> 0 then (- 1, 1, dev', bus')
            else halse_se05x_recv_block dev' bus' 1)"
  unfolding dev'_def bus'_def response_def by (rule recv_block_wtx [OF assms(1,2)])

theorem wtx_request_is_echoed_witness:
  "wf_dev dev_calloc \<and>
   rd \<lparr>rd = [(0, [0xA5, 0xC3, 0x01, 0xAA, 0xC2]), (0, [0xC6]),
              (0, [0xA5, 0x00, 0x02, 0x90, 0x00]), (0, [0x02, 0xAF])], wr = [0], sent = []\<rparr> =
     deliver (block 0xA5 0xC3 [0xAA]) @ [(0, [0xA5, 0x00, 0x02, 0x90, 0x00]), (0, [0x02, 0xAF])] \<and>
   (case halse_se05x_recv_block dev_calloc
           \<lparr>rd = [(0, [0xA5, 0xC3, 0x01, 0xAA, 0xC2]), (0, [0xC6]),
                  (0, [0xA5, 0x00, 0x02, 0x90, 0x00]), (0, [0x02, 0xAF])], wr = [0], sent = []\<rparr> 0 of
      (ret, len, dev', bus') \<Rightarrow>
        ret = 0 \<and> len = 2 \<and> take 5 (rxbuf dev') = [0xA5, 0x00, 0x02, 0x90, 0x00] \<and>
        sent bus' = [[0x5A, 0xE3, 0x01, 0xAA, 0x2B, 0x00]])"
proof -
  let ?bus = "\<lparr>rd = [(0, [0xA5, 0xC3, 0x01, 0xAA, 0xC2 :: byte]), (0, [0xC6]),
              (0, [0xA5, 0x00, 0x02, 0x90, 0x00]), (0, [0x02, 0xAF])], wr = [0 :: int],
              sent = [] :: byte list list\<rparr>"
  let ?rest = "[(0 :: int, [0xA5, 0x00, 0x02, 0x90, 0x00 :: byte]), (0, [0x02, 0xAF])]"
  have h1: "wf_dev dev_calloc" by (simp add: wf_dev_def dev_calloc_def)
  have h2: "rd ?bus = deliver (block 0xA5 0xC3 [0xAA]) @ ?rest" by code_simp
  note eq = wtx_request_is_echoed [OF h1 h2, of 0]
  have "case (if wr_result ?bus \<noteq> 0
          then (- 1, 1,
            dev_calloc\<lparr>rxbuf := block 0xA5 0xC3 [0xAA] @ drop 6 (rxbuf dev_calloc),
               txbuf := ([SE05X_NAD, 0xE3, 0x01, 0xAA] @ epilogue [SE05X_NAD, 0xE3, 0x01, 0xAA]) @
                        drop 6 (txbuf dev_calloc), txlen := 6\<rparr>,
            ?bus\<lparr>rd := ?rest, wr := tl (wr ?bus),
               sent := sent ?bus @ [[SE05X_NAD, 0xE3, 0x01, 0xAA] @ epilogue [SE05X_NAD, 0xE3, 0x01, 0xAA]]\<rparr>)
          else halse_se05x_recv_block
            (dev_calloc\<lparr>rxbuf := block 0xA5 0xC3 [0xAA] @ drop 6 (rxbuf dev_calloc),
               txbuf := ([SE05X_NAD, 0xE3, 0x01, 0xAA] @ epilogue [SE05X_NAD, 0xE3, 0x01, 0xAA]) @
                        drop 6 (txbuf dev_calloc), txlen := 6\<rparr>)
            (?bus\<lparr>rd := ?rest, wr := tl (wr ?bus),
               sent := sent ?bus @ [[SE05X_NAD, 0xE3, 0x01, 0xAA] @ epilogue [SE05X_NAD, 0xE3, 0x01, 0xAA]]\<rparr>)
            1) of
      (ret, len, dev', bus') \<Rightarrow>
        ret = 0 \<and> len = 2 \<and> take 5 (rxbuf dev') = [0xA5, 0x00, 0x02, 0x90, 0x00] \<and>
        sent bus' = [[0x5A, 0xE3, 0x01, 0xAA, 0x2B, 0x00]]"
    by code_simp
  then have "case halse_se05x_recv_block dev_calloc ?bus 0 of
      (ret, len, dev', bus') \<Rightarrow>
        ret = 0 \<and> len = 2 \<and> take 5 (rxbuf dev') = [0xA5, 0x00, 0x02, 0x90, 0x00] \<and>
        sent bus' = [[0x5A, 0xE3, 0x01, 0xAA, 0x2B, 0x00]]"
    by (simp only: eq)
  with h1 h2 show ?thesis by (simp only:) 
qed






text \<open>
  C3: sequence-number discipline of I-block sending. Starting from the cleared state,
  after N successful sends N(S) is N mod 2. A chained send succeeds only if the block
  the token receive ends on is an R-block with error bits 0 whose N(R) (bit 4 of the
  PCB) equals the new, just toggled N(S); in every other case it returns an error.
\<close>

theorem send_i_block_sequence_discipline:
  "(fst (send_i_blocks (halse_se05x_clear_state dev) bus calls) = 0 \<longrightarrow>
      n_s (fst (snd (send_i_blocks (halse_se05x_clear_state dev) bus calls)))
        = int (length calls mod 2)) \<and>
   (fst (halse_se05x_send_i_block dev bus buf len True) = 0 \<longrightarrow>
      (let dev' = fst (snd (halse_se05x_send_i_block dev bus buf len True));
           pcb = rxbuf dev' ! 1
       in is_r_block pcb \<and> pcb AND CMD_ERROR_MASK = 0 \<and>
          uint (drop_bit 4 pcb AND 0x01) = n_s dev' \<and> n_s dev' = n_s dev XOR 1))"
proof (intro conjI impI)
  assume ok: "fst (send_i_blocks (halse_se05x_clear_state dev) bus calls) = 0"
  have "n_s (halse_se05x_clear_state dev) \<in> {0, 1}"
    by (simp add: halse_se05x_clear_state_def)
  from send_i_blocks_n_s [OF ok this]
  show "n_s (fst (snd (send_i_blocks (halse_se05x_clear_state dev) bus calls)))
        = int (length calls mod 2)"
    by (simp add: halse_se05x_clear_state_def zmod_int)
next
  assume ok: "fst (halse_se05x_send_i_block dev bus buf len True) = 0"
  obtain dev' bus' where s: "halse_se05x_send_i_block dev bus buf len True = (0, dev', bus')"
    using ok by (cases "halse_se05x_send_i_block dev bus buf len True") auto
  have len: "len \<le> 254"
    using s by (auto simp: halse_se05x_send_i_block_def split: if_splits)
  show "let dev' = fst (snd (halse_se05x_send_i_block dev bus buf len True));
           pcb = rxbuf dev' ! 1
       in is_r_block pcb \<and> pcb AND CMD_ERROR_MASK = 0 \<and>
          uint (drop_bit 4 pcb AND 0x01) = n_s dev' \<and> n_s dev' = n_s dev XOR 1"
    using send_i_block_chain_ok [OF s] send_i_block_fields(1) [OF s len]
    by (simp add: s Let_def del: One_nat_def)
qed


theorem send_i_block_sequence_discipline_witness:
  "fst (send_i_blocks (halse_se05x_clear_state (dev_calloc\<lparr>n_s := 1\<rparr>))
          \<lparr>rd = [], wr = [0, 0, 0], sent = []\<rparr>
          [([0x00, 0xA4, 0x04, 0x00], 4, False), ([0x80, 0xCA], 2, False), ([0x00], 1, False)]) = 0 \<and>
   n_s (fst (snd (send_i_blocks (halse_se05x_clear_state (dev_calloc\<lparr>n_s := 1\<rparr>))
          \<lparr>rd = [], wr = [0, 0, 0], sent = []\<rparr>
          [([0x00, 0xA4, 0x04, 0x00], 4, False), ([0x80, 0xCA], 2, False), ([0x00], 1, False)]))) = 1 \<and>
   fst (halse_se05x_send_i_block dev_calloc
          \<lparr>rd = [(0, [0xA5, 0x90, 0x00, 0xFB, 0xE9])], wr = [0], sent = []\<rparr>
          [0x00] 1 True) = 0 \<and>
   is_r_block (rxbuf (fst (snd (halse_se05x_send_i_block dev_calloc
          \<lparr>rd = [(0, [0xA5, 0x90, 0x00, 0xFB, 0xE9])], wr = [0], sent = []\<rparr>
          [0x00] 1 True))) ! 1) \<and>
   rxbuf (fst (snd (halse_se05x_send_i_block dev_calloc
          \<lparr>rd = [(0, [0xA5, 0x90, 0x00, 0xFB, 0xE9])], wr = [0], sent = []\<rparr>
          [0x00] 1 True))) ! 1 AND CMD_ERROR_MASK = 0 \<and>
   uint (drop_bit 4 (rxbuf (fst (snd (halse_se05x_send_i_block dev_calloc
          \<lparr>rd = [(0, [0xA5, 0x90, 0x00, 0xFB, 0xE9])], wr = [0], sent = []\<rparr>
          [0x00] 1 True))) ! 1) AND 0x01) = 1 \<and>
   n_s (fst (snd (halse_se05x_send_i_block dev_calloc
          \<lparr>rd = [(0, [0xA5, 0x90, 0x00, 0xFB, 0xE9])], wr = [0], sent = []\<rparr>
          [0x00] 1 True))) = 1"
proof -
  let ?calls = "[([0x00, 0xA4, 0x04, 0x00 :: byte], 4 :: nat, False), ([0x80, 0xCA], 2, False),
                 ([0x00], 1, False)]"
  let ?busA = "\<lparr>rd = [] :: (int \<times> byte list) list, wr = [0, 0, 0 :: int],
                sent = [] :: byte list list\<rparr>"
  let ?busB = "\<lparr>rd = [(0 :: int, [0xA5, 0x90, 0x00, 0xFB, 0xE9 :: byte])], wr = [0 :: int],
                sent = [] :: byte list list\<rparr>"
  let ?tx = "[0x00 :: byte]"
  note inst = send_i_block_sequence_discipline [of "dev_calloc\<lparr>n_s := 1\<rparr>" ?busA ?calls]
  have a: "fst (send_i_blocks (halse_se05x_clear_state (dev_calloc\<lparr>n_s := 1\<rparr>)) ?busA ?calls) = 0"
    by (rule send_i_blocks_unchained [where ws = "[]"]) (simp_all add: numeral_3_eq_3)
  have c: "int (length ?calls mod 2) = 1" by simp
  from inst [THEN conjunct1, THEN mp, OF a]
  have a': "n_s (fst (snd (send_i_blocks (halse_se05x_clear_state (dev_calloc\<lparr>n_s := 1\<rparr>))
      ?busA ?calls))) = 1"
    unfolding c .
  have b: "fst (halse_se05x_send_i_block dev_calloc ?busB ?tx 1 True) = 0"
    by code_simp
  have n0: "n_s dev_calloc XOR 1 = 1" by (simp add: dev_calloc_def)
  from send_i_block_sequence_discipline [of dev_calloc ?busB _ ?tx 1,
      THEN conjunct2, THEN mp, OF b]
  have b': "is_r_block (rxbuf (fst (snd (halse_se05x_send_i_block dev_calloc ?busB ?tx 1 True))) ! 1) \<and>
      rxbuf (fst (snd (halse_se05x_send_i_block dev_calloc ?busB ?tx 1 True))) ! 1 AND CMD_ERROR_MASK = 0 \<and>
      uint (drop_bit 4 (rxbuf (fst (snd (halse_se05x_send_i_block dev_calloc ?busB ?tx 1 True))) ! 1)
            AND 0x01) = 1 \<and>
      n_s (fst (snd (halse_se05x_send_i_block dev_calloc ?busB ?tx 1 True))) = 1"
    unfolding Let_def n0 by (elim conjE, intro conjI) (simp_all only:)
  from a a' b b' show ?thesis by (simp only:)
qed

text \<open>
  C6: WTX transparency. As stated (handling WTX requests leaves N(S), N(R) and the
  buffer state, in particular the cached transmit block \<open>txbuf\<close>/\<open>txlen\<close>, as they
  were) the claim fails: the WTX response is built in the one transmit buffer, so the
  cached I-block is overwritten. Here an I-block of 9 bytes is cached, one WTX request
  arrives before the answer, and afterwards the cache holds the 6-byte WTX response.
\<close>

theorem wtx_overwrites_tx_cache_counterexample:
  "case halse_se05x_recv_block
          (dev_calloc\<lparr>n_s := 1, txlen := 9,
             txbuf := [0x5A, 0x00, 0x04, 0x00, 0xA4, 0x04, 0x00, 0x2E, 0x31] @ replicate 250 0\<rparr>)
          \<lparr>rd = [(0, [0xA5, 0xC3, 0x01, 0xAA, 0xC2]), (0, [0xC6]), (0, [0xA5, 0x00, 0x00, 0xA6, 0xF0])],
             wr = [0], sent = []\<rparr> 0 of
     (ret, len, dev', bus') \<Rightarrow>
       ret = 0 \<and> n_s dev' = 1 \<and> txlen dev' = 6 \<and>
       take (txlen dev') (txbuf dev') = [0x5A, 0xE3, 0x01, 0xAA, 0x2B, 0x00] \<and>
       take (txlen dev') (txbuf dev') \<noteq> [0x5A, 0x00, 0x04, 0x00, 0xA4, 0x04, 0x00, 0x2E, 0x31]"
  by code_simp

text \<open>
  C6, amended: for every number n \<open>\<ge>\<close> 1 of WTX requests (one INF byte each) that are
  answered before the real block, the receive goes on with the real block with N(S),
  N(R) and the retransmit latch as they were, and N(S) and N(R) are the same after the
  receive as before it; the cached transmit block is not kept: \<open>txbuf\<close>/\<open>txlen\<close> then
  hold the response to the last WTX request (6 bytes). When the real answer is a chain
  of I-blocks, the read phase of the exchange completes as if no WTX request had been
  sent: it returns 0 with the same bytes and the same length in the caller's buffer as
  the read phase on the same answer without the WTX requests, N(S) and N(R) are as they
  were, the clean-up of the exchange leaves the same session, and the only difference
  on the bus is the n WTX responses that were written; so does the whole exchange
  (xfer with a command of one I-block): same return code 0, same session, same bytes
  and length for the caller as the exchange without the WTX requests. A retransmission
  that is requested after the WTX requests (an R-block with non-zero error bits while
  the latch is clear) writes the response to the last WTX request once more, not the
  block that was cached before them.
\<close>

theorem wtx_keeps_counters_not_tx_cache:
  fixes blocks :: "(byte \<times> byte list) list"
  assumes "xs \<noteq> []" and "wf_dev dev"
    and "rd bus = concat (map wtx_wire xs) @ rest"
    and "wr bus = replicate (length xs) 0 @ ws"
  defines "dev' \<equiv> dev\<lparr>rxbuf := wtx_request (last xs) @ drop 6 (rxbuf dev),
                        txbuf := wtx_response (last xs) @ drop 6 (txbuf dev), txlen := 6\<rparr>"
  shows "halse_se05x_recv_block dev bus len =
           halse_se05x_recv_block dev'
             (bus\<lparr>rd := rest, wr := ws, sent := sent bus @ map wtx_response xs\<rparr>) 1 \<and>
         n_s dev' = n_s dev \<and> n_r dev' = n_r dev \<and> txretransmit dev' = txretransmit dev \<and>
         take (txlen dev') (txbuf dev') = wtx_response (last xs) \<and>
         n_s (fst (snd (snd (halse_se05x_recv_block dev bus len)))) = n_s dev \<and>
         n_r (fst (snd (snd (halse_se05x_recv_block dev bus len)))) = n_r dev \<and>
         (well_chained blocks \<and> rest = chain_wire blocks @ rest' \<and>
          ws = replicate (length blocks - 1) 0 @ ws' \<and> rx_off \<le> cap \<and> cap \<le> length rx \<longrightarrow>
            (\<exists>d1 d2.
               xfer_read_loop dev bus rx cap rx_off =
                 (0, rx_filled rx cap rx_off (concat (map snd blocks)),
                  min cap (rx_off + length (concat (map snd blocks))), d1,
                  bus\<lparr>rd := rest', wr := ws',
                      sent := sent bus @ map wtx_response xs @ map chain_ack (butlast blocks)\<rparr>) \<and>
               xfer_read_loop dev (bus\<lparr>rd := rest, wr := ws\<rparr>) rx cap rx_off =
                 (0, rx_filled rx cap rx_off (concat (map snd blocks)),
                  min cap (rx_off + length (concat (map snd blocks))), d2,
                  bus\<lparr>rd := rest', wr := ws',
                      sent := sent bus @ map chain_ack (butlast blocks)\<rparr>) \<and>
               n_s d1 = n_s dev \<and> n_r d1 = n_r dev \<and> n_s d2 = n_s dev \<and> n_r d2 = n_r dev \<and>
               halse_se05x_clear_buf d1 = halse_se05x_clear_buf d2)) \<and>
         (is_r_block_with_error pcb \<and> length info \<le> SIZE_INF_MAX \<and> \<not> txretransmit dev \<and>
          rest = deliver (block nad pcb info) @ rest2 \<and> ws = 0 # ws2 \<longrightarrow>
            halse_se05x_recv_block dev bus len =
              halse_se05x_recv_block
                (dev'\<lparr>rxbuf := block nad pcb info @ drop (5 + length info) (rxbuf dev'),
                      txretransmit := True\<rparr>)
                (bus\<lparr>rd := rest2, wr := ws2,
                    sent := sent bus @ map wtx_response xs @ [wtx_response (last xs)]\<rparr>)
                (length info)) \<and>
         (0 < tx_len \<and> tx_len \<le> SIZE_INF_MAX \<and> tx_len \<le> length tx \<and>
          well_chained blocks \<and> rest = chain_wire blocks @ rest' \<and>
          ws = replicate (length blocks - 1) 0 @ ws' \<and> cap \<le> length rx \<longrightarrow>
            halse_se05x_xfer dev (bus\<lparr>wr := 0 # wr bus\<rparr>) (Some tx) tx_len (Some rx) (Some cap) =
              (0, halse_se05x_clear_buf (dev\<lparr>n_s := n_s dev XOR 1\<rparr>),
               bus\<lparr>rd := rest', wr := ws',
                   sent := sent bus @
                     [block SE05X_NAD (if n_s dev \<noteq> 0 then 0x40 else 0x00) (take tx_len tx)] @
                     map wtx_response xs @ map chain_ack (butlast blocks)\<rparr>,
               Some (rx_filled rx cap 0 (concat (map snd blocks))),
               Some (min cap (length (concat (map snd blocks))))) \<and>
            halse_se05x_xfer dev (bus\<lparr>rd := rest, wr := 0 # ws\<rparr>) (Some tx) tx_len (Some rx)
                (Some cap) =
              (0, halse_se05x_clear_buf (dev\<lparr>n_s := n_s dev XOR 1\<rparr>),
               bus\<lparr>rd := rest', wr := ws',
                   sent := sent bus @
                     [block SE05X_NAD (if n_s dev \<noteq> 0 then 0x40 else 0x00) (take tx_len tx)] @
                     map chain_ack (butlast blocks)\<rparr>,
               Some (rx_filled rx cap 0 (concat (map snd blocks))),
               Some (min cap (length (concat (map snd blocks))))))"
proof -
  let ?bus' = "bus\<lparr>rd := rest, wr := ws, sent := sent bus @ map wtx_response xs\<rparr>"
  let ?busN = "bus\<lparr>rd := rest, wr := ws\<rparr>"
  obtain r l d b where res: "halse_se05x_recv_block dev bus len = (r, l, d, b)"
    by (metis prod_cases4)
  have "n_s d = n_s dev" "n_r d = n_r dev"
    using recv_block_n_s [OF res] recv_block_n_r [OF res] by simp_all
  then have fin: "n_s (fst (snd (snd (halse_se05x_recv_block dev bus len)))) = n_s dev"
    "n_r (fst (snd (snd (halse_se05x_recv_block dev bus len)))) = n_r dev"
    by (simp_all add: res)
  have run: "halse_se05x_recv_block dev bus len = halse_se05x_recv_block dev' ?bus' 1"
    unfolding dev'_def by (rule wtx_run [OF assms(1-4)])
  have fields: "n_s dev' = n_s dev" "n_r dev' = n_r dev" "txretransmit dev' = txretransmit dev"
    "take (txlen dev') (txbuf dev') = wtx_response (last xs)"
    by (simp_all add: dev'_def)
  have loop: "\<exists>d1 d2.
               xfer_read_loop dev bus rx cap rx_off =
                 (0, rx_filled rx cap rx_off (concat (map snd blocks)),
                  min cap (rx_off + length (concat (map snd blocks))), d1,
                  bus\<lparr>rd := rest', wr := ws',
                      sent := sent bus @ map wtx_response xs @ map chain_ack (butlast blocks)\<rparr>) \<and>
               xfer_read_loop dev (bus\<lparr>rd := rest, wr := ws\<rparr>) rx cap rx_off =
                 (0, rx_filled rx cap rx_off (concat (map snd blocks)),
                  min cap (rx_off + length (concat (map snd blocks))), d2,
                  bus\<lparr>rd := rest', wr := ws',
                      sent := sent bus @ map chain_ack (butlast blocks)\<rparr>) \<and>
               n_s d1 = n_s dev \<and> n_r d1 = n_r dev \<and> n_s d2 = n_s dev \<and> n_r d2 = n_r dev \<and>
               halse_se05x_clear_buf d1 = halse_se05x_clear_buf d2"
    if wc: "well_chained blocks" and rest: "rest = chain_wire blocks @ rest'"
      and ws: "ws = replicate (length blocks - 1) 0 @ ws'" and off: "rx_off \<le> cap"
      and cap: "cap \<le> length rx"
  proof -
    have wf': "wf_dev dev'" using assms(2) by (simp add: dev'_def wf_dev_def)
    have over: "xfer_read_loop dev bus rx cap rx_off = xfer_read_loop dev' ?bus' rx cap rx_off"
      unfolding dev'_def by (rule read_loop_wtx [OF assms(1-4)])
    have rd': "rd ?bus' = chain_wire blocks @ rest'" using rest by simp
    have wr': "wr ?bus' = replicate (length blocks - 1) 0 @ ws'" using ws by simp
    from read_loop_chain [OF wc wf' rd' wr' off cap]
    obtain d1 where e1: "xfer_read_loop dev' ?bus' rx cap rx_off =
        (0, rx_filled rx cap rx_off (concat (map snd blocks)),
         min cap (rx_off + length (concat (map snd blocks))), d1,
         ?bus'\<lparr>rd := rest', wr := ws', sent := sent ?bus' @ map chain_ack (butlast blocks)\<rparr>)"
      by blast
    have rd0: "rd ?busN = chain_wire blocks @ rest'" using rest by simp
    have wr0: "wr ?busN = replicate (length blocks - 1) 0 @ ws'" using ws by simp
    from read_loop_chain [OF wc assms(2) rd0 wr0 off cap]
    obtain d2 where e2: "xfer_read_loop dev ?busN rx cap rx_off =
        (0, rx_filled rx cap rx_off (concat (map snd blocks)),
         min cap (rx_off + length (concat (map snd blocks))), d2,
         ?busN\<lparr>rd := rest', wr := ws', sent := sent ?busN @ map chain_ack (butlast blocks)\<rparr>)"
      by blast
    have f1: "n_s d1 = n_s dev" "n_r d1 = n_r dev" "atr d1 = atr dev"
      using read_loop_fields [OF e1] by (simp_all add: dev'_def)
    have f2: "n_s d2 = n_s dev" "n_r d2 = n_r dev" "atr d2 = atr dev"
      using read_loop_fields [OF e2] by simp_all
    have cb: "halse_se05x_clear_buf d1 = halse_se05x_clear_buf d2"
      by (rule clear_buf_eq) (simp_all add: f1 f2)
    have b1: "?bus'\<lparr>rd := rest', wr := ws', sent := sent ?bus' @ map chain_ack (butlast blocks)\<rparr> =
        bus\<lparr>rd := rest', wr := ws',
            sent := sent bus @ map wtx_response xs @ map chain_ack (butlast blocks)\<rparr>"
      by simp
    have b2: "?busN\<lparr>rd := rest', wr := ws', sent := sent ?busN @ map chain_ack (butlast blocks)\<rparr> =
        bus\<lparr>rd := rest', wr := ws', sent := sent bus @ map chain_ack (butlast blocks)\<rparr>"
      by simp
    from e1 e2 f1 f2 cb show ?thesis
      unfolding over b1 b2 by blast
  qed
  have again: "halse_se05x_recv_block dev bus len =
              halse_se05x_recv_block
                (dev'\<lparr>rxbuf := block nad pcb info @ drop (5 + length info) (rxbuf dev'),
                      txretransmit := True\<rparr>)
                (bus\<lparr>rd := rest2, wr := ws2,
                    sent := sent bus @ map wtx_response xs @ [wtx_response (last xs)]\<rparr>)
                (length info)"
    if e: "is_r_block_with_error pcb" and n: "length info \<le> SIZE_INF_MAX"
      and clear: "\<not> txretransmit dev" and rest: "rest = deliver (block nad pcb info) @ rest2"
      and ws: "ws = 0 # ws2"
  proof -
    have wf': "wf_dev dev'" using assms(2) by (simp add: dev'_def wf_dev_def)
    have rd': "rd ?bus' = deliver (block nad pcb info) @ rest2" using rest by simp
    have "halse_se05x_recv_block dev' ?bus' 1 =
          halse_se05x_recv_block
            (dev'\<lparr>rxbuf := block nad pcb info @ drop (5 + length info) (rxbuf dev'),
                  txretransmit := True\<rparr>)
            (?bus'\<lparr>rd := rest2, wr := ws2, sent := sent ?bus' @ [take (txlen dev') (txbuf dev')]\<rparr>)
            (length info)"
      unfolding recv_block_on_block [OF wf' n rd'] resend_eq
      using r_error_not_s_request [OF e] e clear ws fields(3)
      by (simp add: logged_def)
    then show ?thesis
      unfolding run fields(4) by simp
  qed
  have whole: "halse_se05x_xfer dev (bus\<lparr>wr := 0 # wr bus\<rparr>) (Some tx) tx_len (Some rx) (Some cap) =
              (0, halse_se05x_clear_buf (dev\<lparr>n_s := n_s dev XOR 1\<rparr>),
               bus\<lparr>rd := rest', wr := ws',
                   sent := sent bus @
                     [block SE05X_NAD (if n_s dev \<noteq> 0 then 0x40 else 0x00) (take tx_len tx)] @
                     map wtx_response xs @ map chain_ack (butlast blocks)\<rparr>,
               Some (rx_filled rx cap 0 (concat (map snd blocks))),
               Some (min cap (length (concat (map snd blocks)))))"
    and plain: "halse_se05x_xfer dev (bus\<lparr>rd := rest, wr := 0 # ws\<rparr>) (Some tx) tx_len (Some rx)
                (Some cap) =
              (0, halse_se05x_clear_buf (dev\<lparr>n_s := n_s dev XOR 1\<rparr>),
               bus\<lparr>rd := rest', wr := ws',
                   sent := sent bus @
                     [block SE05X_NAD (if n_s dev \<noteq> 0 then 0x40 else 0x00) (take tx_len tx)] @
                     map chain_ack (butlast blocks)\<rparr>,
               Some (rx_filled rx cap 0 (concat (map snd blocks))),
               Some (min cap (length (concat (map snd blocks)))))"
    if tx: "0 < tx_len" "tx_len \<le> SIZE_INF_MAX" "tx_len \<le> length tx"
      and wc: "well_chained blocks" and rest: "rest = chain_wire blocks @ rest'"
      and ws: "ws = replicate (length blocks - 1) 0 @ ws'" and cap: "cap \<le> length rx"
  proof -
    let ?frame = "block SE05X_NAD (if n_s dev \<noteq> 0 then 0x40 else 0x00) (take tx_len tx)"
    let ?dev1 = "dev\<lparr>n_s := n_s dev XOR 1, txbuf := ?frame @ drop (5 + tx_len) (txbuf dev),
                      txlen := 5 + tx_len\<rparr>"
    let ?bus1 = "bus\<lparr>wr := replicate (length xs) 0 @ ws, sent := sent bus @ [?frame]\<rparr>"
    have wrx: "wr (bus\<lparr>wr := 0 # wr bus\<rparr>) = 0 # (replicate (length xs) 0 @ ws)"
      using assms(4) by simp
    note x = xfer_single [OF assms(2) tx wrx, of rx cap]
    have b1: "bus\<lparr>wr := 0 # wr bus\<rparr>\<lparr>wr := replicate (length xs) 0 @ ws,
                sent := sent (bus\<lparr>wr := 0 # wr bus\<rparr>) @ [?frame]\<rparr> = ?bus1"
      by simp
    have wf1: "wf_dev ?dev1" by (rule x [THEN conjunct2, THEN conjunct1])
    have rd1: "rd ?bus1 = concat (map wtx_wire xs) @ rest" using assms(3) by simp
    have wr1: "wr ?bus1 = replicate (length xs) 0 @ ws" by simp
    let ?dev2 = "?dev1\<lparr>rxbuf := wtx_request (last xs) @ drop 6 (rxbuf ?dev1),
                  txbuf := wtx_response (last xs) @ drop 6 (txbuf ?dev1), txlen := 6\<rparr>"
    let ?bus2 = "?bus1\<lparr>rd := rest, wr := ws, sent := sent ?bus1 @ map wtx_response xs\<rparr>"
    have over: "xfer_read_loop ?dev1 ?bus1 rx cap 0 = xfer_read_loop ?dev2 ?bus2 rx cap 0"
      by (rule read_loop_wtx [OF assms(1) wf1 rd1 wr1])
    have wf2: "wf_dev ?dev2" by (rule wf_after_wtx [OF wf1])
    have rd2: "rd ?bus2 = chain_wire blocks @ rest'" using rest by simp
    have wr2: "wr ?bus2 = replicate (length blocks - 1) 0 @ ws'" using ws by simp
    from read_loop_chain [OF wc wf2 rd2 wr2 _ cap, of 0]
    obtain dev3 where r: "xfer_read_loop ?dev2 ?bus2 rx cap 0 =
        (0, rx_filled rx cap 0 (concat (map snd blocks)),
         min cap (0 + length (concat (map snd blocks))), dev3,
         ?bus2\<lparr>rd := rest', wr := ws', sent := sent ?bus2 @ map chain_ack (butlast blocks)\<rparr>)"
      by auto
    have "halse_se05x_clear_buf dev3 = halse_se05x_clear_buf ?dev2"
      by (rule read_loop_clear_buf [OF r])
    also have "\<dots> = halse_se05x_clear_buf (dev\<lparr>n_s := n_s dev XOR 1\<rparr>)"
      by (simp add: halse_se05x_clear_buf_def)
    finally have cb: "halse_se05x_clear_buf dev3 = halse_se05x_clear_buf (dev\<lparr>n_s := n_s dev XOR 1\<rparr>)" .
    show "halse_se05x_xfer dev (bus\<lparr>wr := 0 # wr bus\<rparr>) (Some tx) tx_len (Some rx) (Some cap) =
              (0, halse_se05x_clear_buf (dev\<lparr>n_s := n_s dev XOR 1\<rparr>),
               bus\<lparr>rd := rest', wr := ws',
                   sent := sent bus @
                     [block SE05X_NAD (if n_s dev \<noteq> 0 then 0x40 else 0x00) (take tx_len tx)] @
                     map wtx_response xs @ map chain_ack (butlast blocks)\<rparr>,
               Some (rx_filled rx cap 0 (concat (map snd blocks))),
               Some (min cap (length (concat (map snd blocks)))))"
      unfolding x [THEN conjunct1] b1 over r by (simp add: cb)
    have wrp: "wr (bus\<lparr>rd := rest, wr := 0 # ws\<rparr>) = 0 # replicate (length blocks - 1) 0 @ ws'"
      using ws by simp
    have rdp: "rd (bus\<lparr>rd := rest, wr := 0 # ws\<rparr>) = chain_wire blocks @ rest'"
      using rest by simp
    show "halse_se05x_xfer dev (bus\<lparr>rd := rest, wr := 0 # ws\<rparr>) (Some tx) tx_len (Some rx)
                (Some cap) =
              (0, halse_se05x_clear_buf (dev\<lparr>n_s := n_s dev XOR 1\<rparr>),
               bus\<lparr>rd := rest', wr := ws',
                   sent := sent bus @
                     [block SE05X_NAD (if n_s dev \<noteq> 0 then 0x40 else 0x00) (take tx_len tx)] @
                     map chain_ack (butlast blocks)\<rparr>,
               Some (rx_filled rx cap 0 (concat (map snd blocks))),
               Some (min cap (length (concat (map snd blocks)))))"
      unfolding xfer_single_chain [OF assms(2) tx wrp wc rdp cap] by simp
  qed
  from run fields fin loop again whole plain show ?thesis by blast
qed

theorem wtx_keeps_counters_not_tx_cache_witness:
  "[0xAA, 0x55 :: byte] \<noteq> [] \<and>
   wf_dev (dev_calloc\<lparr>n_s := 1, n_r := 1, txlen := 9,
           txbuf := [0x5A, 0x00, 0x04, 0x00, 0xA4, 0x04, 0x00, 0x2E, 0x31] @ replicate 250 0\<rparr>) \<and>
   rd \<lparr>rd = [(0, [0xA5, 0xC3, 0x01, 0xAA, 0xC2]), (0, [0xC6]),
              (0, [0xA5, 0xC3, 0x01, 0x55, 0xBA]), (0, [0xC9]),
              (0, [0xA5, 0x20, 0x02, 0x11, 0x22]), (0, [0x55, 0xB7]),
              (0, [0xA5, 0x40, 0x02, 0x33, 0x44]), (0, [0x02, 0x38])],
        wr = [0, 0, 0], sent = []\<rparr> =
     concat (map wtx_wire [0xAA, 0x55]) @
     [(0, [0xA5, 0x20, 0x02, 0x11, 0x22]), (0, [0x55, 0xB7]),
              (0, [0xA5, 0x40, 0x02, 0x33, 0x44]), (0, [0x02, 0x38])] \<and>
   wr \<lparr>rd = [(0, [0xA5, 0xC3, 0x01, 0xAA, 0xC2]), (0, [0xC6]),
              (0, [0xA5, 0xC3, 0x01, 0x55, 0xBA]), (0, [0xC9]),
              (0, [0xA5, 0x20, 0x02, 0x11, 0x22]), (0, [0x55, 0xB7]),
              (0, [0xA5, 0x40, 0x02, 0x33, 0x44]), (0, [0x02, 0x38])],
        wr = [0, 0, 0], sent = []\<rparr> = replicate (length [0xAA, 0x55 :: byte]) 0 @ [0] \<and>
   (case halse_se05x_recv_block (dev_calloc\<lparr>n_s := 1, n_r := 1, txlen := 9,
           txbuf := [0x5A, 0x00, 0x04, 0x00, 0xA4, 0x04, 0x00, 0x2E, 0x31] @ replicate 250 0\<rparr>)
       \<lparr>rd = [(0, [0xA5, 0xC3, 0x01, 0xAA, 0xC2]), (0, [0xC6]),
              (0, [0xA5, 0xC3, 0x01, 0x55, 0xBA]), (0, [0xC9]),
              (0, [0xA5, 0x20, 0x02, 0x11, 0x22]), (0, [0x55, 0xB7]),
              (0, [0xA5, 0x40, 0x02, 0x33, 0x44]), (0, [0x02, 0x38])],
        wr = [0, 0, 0], sent = []\<rparr> 0 of
      (ret, len, dev', bus') \<Rightarrow>
        ret = 0 \<and> len = 2 \<and> take 7 (rxbuf dev') = [0xA5, 0x20, 0x02, 0x11, 0x22, 0x55, 0xB7] \<and>
        n_s dev' = 1 \<and> n_r dev' = 1 \<and> \<not> txretransmit dev' \<and>
        take (txlen dev') (txbuf dev') = [0x5A, 0xE3, 0x01, 0x55, 0x53, 0x0F] \<and>
        sent bus' = [[0x5A, 0xE3, 0x01, 0xAA, 0x2B, 0x00], [0x5A, 0xE3, 0x01, 0x55, 0x53, 0x0F]]) \<and>
   (case halse_se05x_recv_block (dev_calloc\<lparr>n_s := 1, n_r := 1, txlen := 9,
           txbuf := [0x5A, 0x00, 0x04, 0x00, 0xA4, 0x04, 0x00, 0x2E, 0x31] @ replicate 250 0\<rparr>)
       \<lparr>rd = [(0, [0xA5, 0x20, 0x02, 0x11, 0x22]), (0, [0x55, 0xB7]),
              (0, [0xA5, 0x40, 0x02, 0x33, 0x44]), (0, [0x02, 0x38])],
        wr = [0], sent = []\<rparr> 0 of
      (ret, len, dev', bus') \<Rightarrow>
        ret = 0 \<and> len = 2 \<and> take 7 (rxbuf dev') = [0xA5, 0x20, 0x02, 0x11, 0x22, 0x55, 0xB7] \<and>
        n_s dev' = 1 \<and> n_r dev' = 1 \<and> \<not> txretransmit dev' \<and>
        take (txlen dev') (txbuf dev') = [0x5A, 0x00, 0x04, 0x00, 0xA4, 0x04, 0x00, 0x2E, 0x31] \<and>
        sent bus' = []) \<and>
   well_chained ([(0x20, [0x11, 0x22]), (0x40, [0x33, 0x44])] :: (byte \<times> byte list) list) \<and>
   [(0, [0xA5, 0x20, 0x02, 0x11, 0x22]), (0, [0x55, 0xB7]),
              (0, [0xA5, 0x40, 0x02, 0x33, 0x44]), (0, [0x02, 0x38])] =
     chain_wire ([(0x20, [0x11, 0x22]), (0x40, [0x33, 0x44])] :: (byte \<times> byte list) list) @ [] \<and>
   [0 :: int] = replicate (length ([(0x20, [0x11, 0x22]), (0x40, [0x33, 0x44])] :: (byte \<times> byte list) list) - 1) 0 @ [] \<and>
   (0 :: nat) \<le> 8 \<and> 8 \<le> length (replicate 8 (0 :: byte)) \<and>
   (case xfer_read_loop (dev_calloc\<lparr>n_s := 1, n_r := 1, txlen := 9,
           txbuf := [0x5A, 0x00, 0x04, 0x00, 0xA4, 0x04, 0x00, 0x2E, 0x31] @ replicate 250 0\<rparr>)
       \<lparr>rd = [(0, [0xA5, 0xC3, 0x01, 0xAA, 0xC2]), (0, [0xC6]),
              (0, [0xA5, 0xC3, 0x01, 0x55, 0xBA]), (0, [0xC9]),
              (0, [0xA5, 0x20, 0x02, 0x11, 0x22]), (0, [0x55, 0xB7]),
              (0, [0xA5, 0x40, 0x02, 0x33, 0x44]), (0, [0x02, 0x38])],
        wr = [0, 0, 0], sent = []\<rparr> (replicate 8 0) 8 0 of
      (ret, rx', rx_len', dev', bus') \<Rightarrow>
        ret = 0 \<and> rx' = [0x11, 0x22, 0x33, 0x44, 0x00, 0x00, 0x00, 0x00] \<and> rx_len' = 4 \<and>
        n_s dev' = 1 \<and> n_r dev' = 1 \<and>
        halse_se05x_clear_buf dev' = dev_calloc\<lparr>n_s := 1, n_r := 1\<rparr> \<and>
        rd bus' = [] \<and> wr bus' = [] \<and>
        sent bus' = [[0x5A, 0xE3, 0x01, 0xAA, 0x2B, 0x00], [0x5A, 0xE3, 0x01, 0x55, 0x53, 0x0F], [0x5A, 0x90, 0x00, 0x08, 0x2F]]) \<and>
   (case xfer_read_loop (dev_calloc\<lparr>n_s := 1, n_r := 1, txlen := 9,
           txbuf := [0x5A, 0x00, 0x04, 0x00, 0xA4, 0x04, 0x00, 0x2E, 0x31] @ replicate 250 0\<rparr>)
       \<lparr>rd = [(0, [0xA5, 0x20, 0x02, 0x11, 0x22]), (0, [0x55, 0xB7]),
              (0, [0xA5, 0x40, 0x02, 0x33, 0x44]), (0, [0x02, 0x38])],
        wr = [0], sent = []\<rparr> (replicate 8 0) 8 0 of
      (ret, rx', rx_len', dev', bus') \<Rightarrow>
        ret = 0 \<and> rx' = [0x11, 0x22, 0x33, 0x44, 0x00, 0x00, 0x00, 0x00] \<and> rx_len' = 4 \<and>
        n_s dev' = 1 \<and> n_r dev' = 1 \<and>
        halse_se05x_clear_buf dev' = dev_calloc\<lparr>n_s := 1, n_r := 1\<rparr> \<and>
        rd bus' = [] \<and> wr bus' = [] \<and>
        sent bus' = [[0x5A, 0x90, 0x00, 0x08, 0x2F]]) \<and>
   (0 :: nat) < 2 \<and> (2 :: nat) \<le> SIZE_INF_MAX \<and> 2 \<le> length [0x80, 0xCA :: byte] \<and>
   halse_se05x_xfer (dev_calloc\<lparr>n_s := 1, n_r := 1, txlen := 9,
           txbuf := [0x5A, 0x00, 0x04, 0x00, 0xA4, 0x04, 0x00, 0x2E, 0x31] @ replicate 250 0\<rparr>)
       \<lparr>rd = [(0, [0xA5, 0xC3, 0x01, 0xAA, 0xC2]), (0, [0xC6]),
              (0, [0xA5, 0xC3, 0x01, 0x55, 0xBA]), (0, [0xC9]),
              (0, [0xA5, 0x20, 0x02, 0x11, 0x22]), (0, [0x55, 0xB7]),
              (0, [0xA5, 0x40, 0x02, 0x33, 0x44]), (0, [0x02, 0x38])],
        wr = [0, 0, 0, 0], sent = []\<rparr>
       (Some [0x80, 0xCA]) 2 (Some (replicate 8 0)) (Some 8) =
     (0, dev_calloc\<lparr>n_r := 1\<rparr>,
      \<lparr>rd = [], wr = [],
         sent = [[0x5A, 0x40, 0x02, 0x80, 0xCA, 0x28, 0xB0], [0x5A, 0xE3, 0x01, 0xAA, 0x2B, 0x00],
                 [0x5A, 0xE3, 0x01, 0x55, 0x53, 0x0F], [0x5A, 0x90, 0x00, 0x08, 0x2F]]\<rparr>,
      Some [0x11, 0x22, 0x33, 0x44, 0x00, 0x00, 0x00, 0x00], Some 4) \<and>
   halse_se05x_xfer (dev_calloc\<lparr>n_s := 1, n_r := 1, txlen := 9,
           txbuf := [0x5A, 0x00, 0x04, 0x00, 0xA4, 0x04, 0x00, 0x2E, 0x31] @ replicate 250 0\<rparr>)
       \<lparr>rd = [(0, [0xA5, 0x20, 0x02, 0x11, 0x22]), (0, [0x55, 0xB7]),
              (0, [0xA5, 0x40, 0x02, 0x33, 0x44]), (0, [0x02, 0x38])],
        wr = [0, 0], sent = []\<rparr>
       (Some [0x80, 0xCA]) 2 (Some (replicate 8 0)) (Some 8) =
     (0, dev_calloc\<lparr>n_r := 1\<rparr>,
      \<lparr>rd = [], wr = [],
         sent = [[0x5A, 0x40, 0x02, 0x80, 0xCA, 0x28, 0xB0], [0x5A, 0x90, 0x00, 0x08, 0x2F]]\<rparr>,
      Some [0x11, 0x22, 0x33, 0x44, 0x00, 0x00, 0x00, 0x00], Some 4) \<and>
   [0xAA :: byte] \<noteq> [] \<and>
   rd \<lparr>rd = [(0, [0xA5, 0xC3, 0x01, 0xAA, 0xC2]), (0, [0xC6]),
              (0, [0xA5, 0x81, 0x00, 0xB2, 0x65]), (0, [0xA5, 0x00, 0x02, 0x90, 0x00]),
              (0, [0x02, 0xAF])],
        wr = [0, 0], sent = []\<rparr> =
     concat (map wtx_wire [0xAA]) @
     [(0, [0xA5, 0x81, 0x00, 0xB2, 0x65]), (0, [0xA5, 0x00, 0x02, 0x90, 0x00]),
              (0, [0x02, 0xAF])] \<and>
   wr \<lparr>rd = [(0, [0xA5, 0xC3, 0x01, 0xAA, 0xC2]), (0, [0xC6]),
              (0, [0xA5, 0x81, 0x00, 0xB2, 0x65]), (0, [0xA5, 0x00, 0x02, 0x90, 0x00]),
              (0, [0x02, 0xAF])],
        wr = [0, 0], sent = []\<rparr> = replicate (length [0xAA :: byte]) 0 @ [0] \<and>
   is_r_block_with_error 0x81 \<and> length ([] :: byte list) \<le> SIZE_INF_MAX \<and>
   \<not> txretransmit (dev_calloc\<lparr>n_s := 1, n_r := 1, txlen := 9,
           txbuf := [0x5A, 0x00, 0x04, 0x00, 0xA4, 0x04, 0x00, 0x2E, 0x31] @ replicate 250 0\<rparr>) \<and>
   [(0, [0xA5, 0x81, 0x00, 0xB2, 0x65]), (0, [0xA5, 0x00, 0x02, 0x90, 0x00]),
              (0, [0x02, 0xAF])] =
     deliver (block 0xA5 0x81 []) @ [(0, [0xA5, 0x00, 0x02, 0x90, 0x00]), (0, [0x02, 0xAF])] \<and>
   [0 :: int] = 0 # [] \<and>
   (case halse_se05x_recv_block (dev_calloc\<lparr>n_s := 1, n_r := 1, txlen := 9,
           txbuf := [0x5A, 0x00, 0x04, 0x00, 0xA4, 0x04, 0x00, 0x2E, 0x31] @ replicate 250 0\<rparr>)
       \<lparr>rd = [(0, [0xA5, 0xC3, 0x01, 0xAA, 0xC2]), (0, [0xC6]),
              (0, [0xA5, 0x81, 0x00, 0xB2, 0x65]), (0, [0xA5, 0x00, 0x02, 0x90, 0x00]),
              (0, [0x02, 0xAF])],
        wr = [0, 0], sent = []\<rparr> 0 of
      (ret, len, dev', bus') \<Rightarrow>
        ret = 0 \<and> len = 2 \<and> take 7 (rxbuf dev') = [0xA5, 0x00, 0x02, 0x90, 0x00, 0x02, 0xAF] \<and>
        n_s dev' = 1 \<and> n_r dev' = 1 \<and> txretransmit dev' \<and>
        sent bus' = [[0x5A, 0xE3, 0x01, 0xAA, 0x2B, 0x00], [0x5A, 0xE3, 0x01, 0xAA, 0x2B, 0x00]])"
proof -
  let ?D = "dev_calloc\<lparr>n_s := 1, n_r := 1, txlen := 9,
           txbuf := [0x5A, 0x00, 0x04, 0x00, 0xA4, 0x04, 0x00, 0x2E, 0x31] @ replicate 250 0\<rparr>"
  let ?bus = "\<lparr>rd = [(0 :: int, [0xA5, 0xC3, 0x01, 0xAA, 0xC2 :: byte]), (0, [0xC6]),
              (0, [0xA5, 0xC3, 0x01, 0x55, 0xBA]), (0, [0xC9]),
              (0, [0xA5, 0x20, 0x02, 0x11, 0x22]), (0, [0x55, 0xB7]),
              (0, [0xA5, 0x40, 0x02, 0x33, 0x44]), (0, [0x02, 0x38])],
        wr = [0, 0, 0 :: int], sent = [] :: byte list list\<rparr>"
  let ?busN = "\<lparr>rd = [(0 :: int, [0xA5, 0x20, 0x02, 0x11, 0x22 :: byte]), (0, [0x55, 0xB7]),
              (0, [0xA5, 0x40, 0x02, 0x33, 0x44]), (0, [0x02, 0x38])],
        wr = [0 :: int], sent = [] :: byte list list\<rparr>"
  let ?busR = "\<lparr>rd = [(0 :: int, [0xA5, 0xC3, 0x01, 0xAA, 0xC2 :: byte]), (0, [0xC6]),
              (0, [0xA5, 0x81, 0x00, 0xB2, 0x65]), (0, [0xA5, 0x00, 0x02, 0x90, 0x00]),
              (0, [0x02, 0xAF])],
        wr = [0, 0 :: int], sent = [] :: byte list list\<rparr>"
  let ?rest = "[(0 :: int, [0xA5, 0x20, 0x02, 0x11, 0x22 :: byte]), (0, [0x55, 0xB7]),
              (0, [0xA5, 0x40, 0x02, 0x33, 0x44]), (0, [0x02, 0x38])]"
  let ?restR = "[(0 :: int, [0xA5, 0x81, 0x00, 0xB2, 0x65 :: byte]), (0, [0xA5, 0x00, 0x02, 0x90, 0x00]),
              (0, [0x02, 0xAF])]"
  let ?restI = "[(0 :: int, [0xA5, 0x00, 0x02, 0x90, 0x00 :: byte]), (0, [0x02, 0xAF])]"
  let ?busX = "\<lparr>rd = [(0 :: int, [0xA5, 0xC3, 0x01, 0xAA, 0xC2 :: byte]), (0, [0xC6]),
              (0, [0xA5, 0xC3, 0x01, 0x55, 0xBA]), (0, [0xC9]),
              (0, [0xA5, 0x20, 0x02, 0x11, 0x22]), (0, [0x55, 0xB7]),
              (0, [0xA5, 0x40, 0x02, 0x33, 0x44]), (0, [0x02, 0x38])],
        wr = [0, 0, 0, 0 :: int], sent = [] :: byte list list\<rparr>"
  let ?busY = "\<lparr>rd = [(0 :: int, [0xA5, 0x20, 0x02, 0x11, 0x22 :: byte]), (0, [0x55, 0xB7]),
              (0, [0xA5, 0x40, 0x02, 0x33, 0x44]), (0, [0x02, 0x38])],
        wr = [0, 0 :: int], sent = [] :: byte list list\<rparr>"
  let ?tx = "[0x80, 0xCA :: byte]"
  let ?xs = "[0xAA, 0x55 :: byte]"
  let ?blocks = "[(0x20, [0x11, 0x22]), (0x40, [0x33, 0x44])] :: (byte \<times> byte list) list"
  let ?rx = "replicate 8 (0 :: byte)"
  have h1: "?xs \<noteq> []" by simp
  have h2: "wf_dev ?D" by (simp add: wf_dev_def dev_calloc_def)
  have h3: "rd ?bus = concat (map wtx_wire ?xs) @ ?rest" by code_simp
  have h4: "wr ?bus = replicate (length ?xs) 0 @ [0]" by simp
  note inst = wtx_keeps_counters_not_tx_cache [where len = 0 and blocks = ?blocks and rest' = "[]"
      and ws' = "[]" and rx = ?rx and cap = 8 and rx_off = 0 and tx = ?tx and tx_len = 2,
      OF h1 h2 h3 h4]
  note c1 = inst [THEN conjunct1]
  have a: "case halse_se05x_recv_block ?D ?bus 0 of
      (ret, len, dev', bus') \<Rightarrow>
        ret = 0 \<and> len = 2 \<and> take 7 (rxbuf dev') = [0xA5, 0x20, 0x02, 0x11, 0x22, 0x55, 0xB7] \<and>
        n_s dev' = 1 \<and> n_r dev' = 1 \<and> \<not> txretransmit dev' \<and>
        take (txlen dev') (txbuf dev') = [0x5A, 0xE3, 0x01, 0x55, 0x53, 0x0F] \<and>
        sent bus' = [[0x5A, 0xE3, 0x01, 0xAA, 0x2B, 0x00], [0x5A, 0xE3, 0x01, 0x55, 0x53, 0x0F]]"
    unfolding c1 by code_simp
  have a0: "case halse_se05x_recv_block ?D ?busN 0 of
      (ret, len, dev', bus') \<Rightarrow>
        ret = 0 \<and> len = 2 \<and> take 7 (rxbuf dev') = [0xA5, 0x20, 0x02, 0x11, 0x22, 0x55, 0xB7] \<and>
        n_s dev' = 1 \<and> n_r dev' = 1 \<and> \<not> txretransmit dev' \<and>
        take (txlen dev') (txbuf dev') = [0x5A, 0x00, 0x04, 0x00, 0xA4, 0x04, 0x00, 0x2E, 0x31] \<and>
        sent bus' = []"
    by code_simp
  have k1: "well_chained ?blocks" by (simp add: is_i_block_def)
  have k2: "?rest = chain_wire ?blocks @ []" by code_simp
  have k3: "[0 :: int] = replicate (length ?blocks - 1) 0 @ []" by simp
  have k4: "(0 :: nat) \<le> 8" by simp
  have k5: "8 \<le> length ?rx" by simp
  have ev1: "rx_filled ?rx 8 0 (concat (map snd ?blocks)) = [0x11, 0x22, 0x33, 0x44, 0x00, 0x00, 0x00, 0x00]"
    by code_simp
  have ev2: "min 8 (0 + length (concat (map snd ?blocks))) = 4" by simp
  have ev3: "sent ?bus @ map wtx_response ?xs @ map chain_ack (butlast ?blocks) =
      [[0x5A, 0xE3, 0x01, 0xAA, 0x2B, 0x00], [0x5A, 0xE3, 0x01, 0x55, 0x53, 0x0F], [0x5A, 0x90, 0x00, 0x08, 0x2F]]"
    by code_simp
  have ev4: "sent ?bus @ map chain_ack (butlast ?blocks) = [[0x5A, 0x90, 0x00, 0x08, 0x2F]]"
    by code_simp
  have ev5: "halse_se05x_clear_buf d = dev_calloc\<lparr>n_s := 1, n_r := 1\<rparr>"
    if "n_s d = 1" "n_r d = 1" "atr d = []" for d
    using that by (cases d) (simp add: halse_se05x_clear_buf_def dev_calloc_def)
  from inst [THEN conjunct2, THEN conjunct2, THEN conjunct2, THEN conjunct2, THEN conjunct2,
      THEN conjunct2, THEN conjunct2, THEN conjunct1, THEN mp,
      OF conjI [OF k1 conjI [OF k2 conjI [OF k3 conjI [OF k4 k5]]]]]
  obtain d1 d2 where e1: "xfer_read_loop ?D ?bus ?rx 8 0 =
        (0, rx_filled ?rx 8 0 (concat (map snd ?blocks)),
         min 8 (0 + length (concat (map snd ?blocks))), d1,
         ?bus\<lparr>rd := [], wr := [],
             sent := sent ?bus @ map wtx_response ?xs @ map chain_ack (butlast ?blocks)\<rparr>)"
    and e2: "xfer_read_loop ?D (?bus\<lparr>rd := ?rest, wr := [0]\<rparr>) ?rx 8 0 =
        (0, rx_filled ?rx 8 0 (concat (map snd ?blocks)),
         min 8 (0 + length (concat (map snd ?blocks))), d2,
         ?bus\<lparr>rd := [], wr := [], sent := sent ?bus @ map chain_ack (butlast ?blocks)\<rparr>)"
    and f: "n_s d1 = n_s ?D" "n_r d1 = n_r ?D" "n_s d2 = n_s ?D" "n_r d2 = n_r ?D"
      "halse_se05x_clear_buf d1 = halse_se05x_clear_buf d2"
    by blast
  have b0: "?bus\<lparr>rd := ?rest, wr := [0]\<rparr> = ?busN" by simp
  have at: "atr d1 = []" "atr d2 = []"
    using read_loop_fields [OF e1] read_loop_fields [OF e2] by (simp_all add: dev_calloc_def)
  have n: "n_s d1 = 1" "n_r d1 = 1" "n_s d2 = 1" "n_r d2 = 1" using f by simp_all
  have b: "case xfer_read_loop ?D ?bus ?rx 8 0 of
      (ret, rx', rx_len', dev', bus') \<Rightarrow>
        ret = 0 \<and> rx' = [0x11, 0x22, 0x33, 0x44, 0x00, 0x00, 0x00, 0x00] \<and> rx_len' = 4 \<and>
        n_s dev' = 1 \<and> n_r dev' = 1 \<and>
        halse_se05x_clear_buf dev' = dev_calloc\<lparr>n_s := 1, n_r := 1\<rparr> \<and>
        rd bus' = [] \<and> wr bus' = [] \<and>
        sent bus' = [[0x5A, 0xE3, 0x01, 0xAA, 0x2B, 0x00], [0x5A, 0xE3, 0x01, 0x55, 0x53, 0x0F], [0x5A, 0x90, 0x00, 0x08, 0x2F]]"
    unfolding e1 ev1 ev2 ev3 using n ev5 [OF n(1,2) at(1)] by simp
  have c: "case xfer_read_loop ?D ?busN ?rx 8 0 of
      (ret, rx', rx_len', dev', bus') \<Rightarrow>
        ret = 0 \<and> rx' = [0x11, 0x22, 0x33, 0x44, 0x00, 0x00, 0x00, 0x00] \<and> rx_len' = 4 \<and>
        n_s dev' = 1 \<and> n_r dev' = 1 \<and>
        halse_se05x_clear_buf dev' = dev_calloc\<lparr>n_s := 1, n_r := 1\<rparr> \<and>
        rd bus' = [] \<and> wr bus' = [] \<and>
        sent bus' = [[0x5A, 0x90, 0x00, 0x08, 0x2F]]"
    unfolding e2 [unfolded b0] ev1 ev2 ev4 using n ev5 [OF n(3,4) at(2)] by simp
  have t1: "(0 :: nat) < 2" by simp
  have t2: "(2 :: nat) \<le> SIZE_INF_MAX" by simp
  have t3: "2 \<le> length ?tx" by simp
  note cw = inst [THEN conjunct2, THEN conjunct2, THEN conjunct2, THEN conjunct2, THEN conjunct2,
      THEN conjunct2, THEN conjunct2, THEN conjunct2, THEN conjunct2, THEN mp,
      OF conjI [OF t1 conjI [OF t2 conjI [OF t3 conjI [OF k1 conjI [OF k2 conjI [OF k3 k5]]]]]]]
  have bx: "?busX = ?bus\<lparr>wr := 0 # wr ?bus\<rparr>" by simp
  have by': "?busY = ?bus\<lparr>rd := ?rest, wr := 0 # [0]\<rparr>" by simp
  have x1: "halse_se05x_xfer ?D ?busX (Some ?tx) 2 (Some ?rx) (Some 8) =
     (0, dev_calloc\<lparr>n_r := 1\<rparr>,
      \<lparr>rd = [], wr = [],
         sent = [[0x5A, 0x40, 0x02, 0x80, 0xCA, 0x28, 0xB0], [0x5A, 0xE3, 0x01, 0xAA, 0x2B, 0x00],
                 [0x5A, 0xE3, 0x01, 0x55, 0x53, 0x0F], [0x5A, 0x90, 0x00, 0x08, 0x2F]]\<rparr>,
      Some [0x11, 0x22, 0x33, 0x44, 0x00, 0x00, 0x00, 0x00], Some 4)"
    unfolding bx cw [THEN conjunct1] by code_simp
  have x2: "halse_se05x_xfer ?D ?busY (Some ?tx) 2 (Some ?rx) (Some 8) =
     (0, dev_calloc\<lparr>n_r := 1\<rparr>,
      \<lparr>rd = [], wr = [],
         sent = [[0x5A, 0x40, 0x02, 0x80, 0xCA, 0x28, 0xB0], [0x5A, 0x90, 0x00, 0x08, 0x2F]]\<rparr>,
      Some [0x11, 0x22, 0x33, 0x44, 0x00, 0x00, 0x00, 0x00], Some 4)"
    unfolding by' cw [THEN conjunct2] by code_simp
  have m1: "[0xAA :: byte] \<noteq> []" by simp
  have m3: "rd ?busR = concat (map wtx_wire [0xAA]) @ ?restR" by code_simp
  have m4: "wr ?busR = replicate (length [0xAA :: byte]) 0 @ [0]" by simp
  have m5: "is_r_block_with_error 0x81" by (simp add: is_r_block_with_error_def is_r_block_def)
  have m6: "length ([] :: byte list) \<le> SIZE_INF_MAX" by simp
  have m7: "\<not> txretransmit ?D" by (simp add: dev_calloc_def)
  have m8: "?restR = deliver (block 0xA5 0x81 []) @ ?restI" by code_simp
  have m9: "[0 :: int] = 0 # []" by simp
  note instR = wtx_keeps_counters_not_tx_cache [where len = 0 and pcb = "0x81" and nad = "0xA5"
      and info = "[]" and ?rest2.0 = ?restI and ?ws2.0 = "[]", OF m1 h2 m3 m4]
  note c8 = instR [THEN conjunct2, THEN conjunct2, THEN conjunct2, THEN conjunct2, THEN conjunct2,
      THEN conjunct2, THEN conjunct2, THEN conjunct2, THEN conjunct1, THEN mp,
      OF conjI [OF m5 conjI [OF m6 conjI [OF m7 conjI [OF m8 m9]]]]]
  have e: "case halse_se05x_recv_block ?D ?busR 0 of
      (ret, len, dev', bus') \<Rightarrow>
        ret = 0 \<and> len = 2 \<and> take 7 (rxbuf dev') = [0xA5, 0x00, 0x02, 0x90, 0x00, 0x02, 0xAF] \<and>
        n_s dev' = 1 \<and> n_r dev' = 1 \<and> txretransmit dev' \<and>
        sent bus' = [[0x5A, 0xE3, 0x01, 0xAA, 0x2B, 0x00], [0x5A, 0xE3, 0x01, 0xAA, 0x2B, 0x00]]"
    unfolding c8 by code_simp
  from h1 h2 h3 h4 a a0 k1 k2 k3 k4 k5 b c t1 t2 t3 x1 x2 m1 m3 m4 m5 m6 m7 m8 m9 e
  show ?thesis by (intro conjI)
qed

text \<open>
  C9: xfer rejects invalid buffers. As stated the claim includes a zero-length receive
  buffer (capacity 0) among the rejected calls. The code tests the pointer
  \<^verbatim>\<open>rx_len\<close>, not the capacity it points to: with capacity 0 the exchange is carried
  out, the I-block is sent, the answer is received and truncated to 0 bytes, and the
  call returns 0.
\<close>

theorem xfer_zero_capacity_counterexample:
  "case halse_se05x_xfer dev_calloc
          \<lparr>rd = [(0, [0xA5, 0x00, 0x02, 0x90, 0x00]), (0, [0x02, 0xAF])], wr = [0], sent = []\<rparr>
          (Some [0x80, 0xCA]) 2 (Some []) (Some 0) of
     (ret, dev', bus', rx_buf', rx_len') \<Rightarrow>
       ret = 0 \<and> sent bus' = [[0x5A, 0x00, 0x02, 0x80, 0xCA, 0x9F, 0xA6]] \<and> rd bus' = [] \<and>
       rx_buf' = Some [] \<and> rx_len' = Some 0"
  by code_simp

text \<open>
  C9, amended: for every call where the tx buffer is null, the tx length is zero, the rx
  buffer is null or the pointer to the rx length is null, xfer returns -1 without
  performing the block exchange: nothing is read from or written to the bus, and the
  caller's receive buffer and length are left as they were. (The session buffers are
  cleared as after every exchange.)
\<close>

theorem xfer_rejects_null_buffers:
  assumes "tx_buf = None \<or> tx_len = 0 \<or> rx_buf = None \<or> rx_len = None"
  shows "halse_se05x_xfer dev bus tx_buf tx_len rx_buf rx_len =
           (- 1, halse_se05x_clear_buf dev, bus, rx_buf, rx_len)"
  using assms
  by (auto simp: halse_se05x_xfer_def split: option.splits)

theorem xfer_rejects_null_buffers_witness:
  "(Some [0x80, 0xCA :: byte] = None \<or> (0 :: nat) = 0 \<or> Some (replicate 32 (0 :: byte)) = None \<or>
      Some (32 :: nat) = None) \<and>
   halse_se05x_xfer dev_calloc \<lparr>rd = [(0, [0xA5, 0x00, 0x00, 0xA6, 0xF0])], wr = [0], sent = []\<rparr>
       (Some [0x80, 0xCA]) 0 (Some (replicate 32 0)) (Some 32) =
     (- 1, halse_se05x_clear_buf dev_calloc,
      \<lparr>rd = [(0, [0xA5, 0x00, 0x00, 0xA6, 0xF0])], wr = [0], sent = []\<rparr>,
      Some (replicate 32 0), Some 32) \<and>
   (None = (None :: byte list option) \<or> (2 :: nat) = 0 \<or> Some (replicate 32 (0 :: byte)) = None \<or>
      Some (32 :: nat) = None) \<and>
   halse_se05x_xfer dev_calloc \<lparr>rd = [], wr = [], sent = []\<rparr> None 2 (Some (replicate 32 0)) (Some 32) =
     (- 1, halse_se05x_clear_buf dev_calloc, \<lparr>rd = [], wr = [], sent = []\<rparr>,
      Some (replicate 32 0), Some 32) \<and>
   ((Some [0x80, 0xCA :: byte]) = None \<or> (2 :: nat) = 0 \<or> Some (replicate 32 (0 :: byte)) = None \<or>
      (None :: nat option) = None) \<and>
   halse_se05x_xfer dev_calloc \<lparr>rd = [], wr = [], sent = []\<rparr> (Some [0x80, 0xCA]) 2
       (Some (replicate 32 0)) None =
     (- 1, halse_se05x_clear_buf dev_calloc, \<lparr>rd = [], wr = [], sent = []\<rparr>,
      Some (replicate 32 0), None)"
proof -
  have h1: "Some [0x80, 0xCA :: byte] = None \<or> (0 :: nat) = 0 \<or>
      Some (replicate 32 (0 :: byte)) = None \<or> Some (32 :: nat) = None"
    by simp
  have h2: "None = (None :: byte list option) \<or> (2 :: nat) = 0 \<or>
      Some (replicate 32 (0 :: byte)) = None \<or> Some (32 :: nat) = None"
    by simp
  have h3: "(Some [0x80, 0xCA :: byte]) = None \<or> (2 :: nat) = 0 \<or>
      Some (replicate 32 (0 :: byte)) = None \<or> (None :: nat option) = None"
    by simp
  from xfer_rejects_null_buffers [OF h1] xfer_rejects_null_buffers [OF h2]
    xfer_rejects_null_buffers [OF h3] h1 h2 h3
  show ?thesis by (intro conjI)
qed

text \<open>
  C1: in the read loop of xfer a received block that is not an I-block must fail the
  exchange with a non-zero return code. The code logs the error and jumps to the
  clean-up, but the return code is still the 0 of the successful receive. Here the
  device answers the I-block \<open>80 CA\<close> with the R-block \<open>A5 80 00 6A 7C\<close> (PCB 0x80,
  no error bits): xfer returns 0 and leaves the caller's length at its capacity 32.
\<close>

theorem xfer_non_i_block_returns_zero:
  "\<not> is_i_block 0x80 \<and>
   (case halse_se05x_xfer dev_calloc
           \<lparr>rd = [(0, [0xA5, 0x80, 0x00, 0x6A, 0x7C])], wr = [0], sent = []\<rparr>
           (Some [0x80, 0xCA]) 2 (Some (replicate 32 0)) (Some 32) of
      (ret, dev', bus', rx_buf', rx_len') \<Rightarrow>
        ret = 0 \<and> rd bus' = [] \<and> rx_buf' = Some (replicate 32 0) \<and> rx_len' = Some 32)"
  by code_simp

text \<open>
  C8: receive truncation is not an error. For every xfer call whose write phase
  succeeds and whose answer is a chain of I-blocks (each accepted, all but the last
  with the chain bit, every acknowledgement written) with more INF bytes in total than
  the caller's capacity, xfer copies the first \<open>cap\<close> bytes, acknowledges every chained
  block, returns 0 and sets the length to the capacity.
\<close>

theorem xfer_truncates_without_error:
  fixes dev :: se05x_dev and bus :: i2c_bus and blocks :: "(byte \<times> byte list) list"
    and tx :: "byte list" and tx_len :: nat
  defines "bus1 \<equiv> snd (snd (xfer_write_loop dev bus tx tx_len 0))"
  defines "data \<equiv> concat (map snd blocks)"
  assumes "wf_dev dev" and "tx_len \<noteq> 0" and "fst (xfer_write_loop dev bus tx tx_len 0) = 0"
    and "well_chained blocks" and "rd bus1 = chain_wire blocks @ rest"
    and "wr bus1 = replicate (length blocks - 1) 0 @ ws"
    and "cap \<le> length rx" and "cap < length data"
  shows "case halse_se05x_xfer dev bus (Some tx) tx_len (Some rx) (Some cap) of
           (ret, dev', bus', rx_buf', rx_len') \<Rightarrow>
             ret = 0 \<and> rx_len' = Some cap \<and> rx_buf' = Some (take cap data @ drop cap rx) \<and>
             rd bus' = rest \<and> sent bus' = sent bus1 @ map chain_ack (butlast blocks)"
proof -
  obtain dev1 where w: "xfer_write_loop dev bus tx tx_len 0 = (0, dev1, bus1)"
    using assms(5) unfolding bus1_def
    by (cases "xfer_write_loop dev bus tx tx_len 0") auto
  have wf1: "wf_dev dev1" using xfer_write_loop_wf [OF assms(3), of bus tx tx_len 0] w by simp
  from read_loop_chain [OF assms(6) wf1 assms(7,8) _ assms(9), of 0]
  obtain dev2 where r: "xfer_read_loop dev1 bus1 rx cap 0 =
      (0, rx_filled rx cap 0 data, min cap (0 + length data), dev2,
       bus1\<lparr>rd := rest, wr := ws, sent := sent bus1 @ map chain_ack (butlast blocks)\<rparr>)"
    unfolding data_def by auto
  have f: "rx_filled rx cap 0 data = take cap data @ drop cap rx"
    using assms(10) by (simp add: rx_filled_def)
  show ?thesis
    using assms(4,10) by (simp add: halse_se05x_xfer_def w r f)
qed


theorem xfer_truncates_without_error_witness:
  "wf_dev dev_calloc \<and> (2 :: nat) \<noteq> 0 \<and>
   fst (xfer_write_loop dev_calloc \<lparr>rd = [(0, [0xA5, 0x20, 0x03, 0x01, 0x02]), (0, [0x03, 0x61, 0x7D]),
            (0, [0xA5, 0x40, 0x02, 0x04, 0x05]), (0, [0x25, 0x90])], wr = [0, 0], sent = []\<rparr> [0x80, 0xCA] 2 0) = 0 \<and>
   well_chained ([(0x20, [0x01, 0x02, 0x03]), (0x40, [0x04, 0x05])] :: (byte \<times> byte list) list) \<and>
   rd (snd (snd (xfer_write_loop dev_calloc \<lparr>rd = [(0, [0xA5, 0x20, 0x03, 0x01, 0x02]), (0, [0x03, 0x61, 0x7D]),
            (0, [0xA5, 0x40, 0x02, 0x04, 0x05]), (0, [0x25, 0x90])], wr = [0, 0], sent = []\<rparr> [0x80, 0xCA] 2 0))) = chain_wire ([(0x20, [0x01, 0x02, 0x03]), (0x40, [0x04, 0x05])] :: (byte \<times> byte list) list) @ [] \<and>
   wr (snd (snd (xfer_write_loop dev_calloc \<lparr>rd = [(0, [0xA5, 0x20, 0x03, 0x01, 0x02]), (0, [0x03, 0x61, 0x7D]),
            (0, [0xA5, 0x40, 0x02, 0x04, 0x05]), (0, [0x25, 0x90])], wr = [0, 0], sent = []\<rparr> [0x80, 0xCA] 2 0))) =
     replicate (length ([(0x20, [0x01, 0x02, 0x03]), (0x40, [0x04, 0x05])] :: (byte \<times> byte list) list) - 1) 0 @ [] \<and>
   4 \<le> length (replicate 8 (0 :: byte)) \<and> 4 < length (concat (map snd ([(0x20, [0x01, 0x02, 0x03]), (0x40, [0x04, 0x05])] :: (byte \<times> byte list) list))) \<and>
   (case halse_se05x_xfer dev_calloc \<lparr>rd = [(0, [0xA5, 0x20, 0x03, 0x01, 0x02]), (0, [0x03, 0x61, 0x7D]),
            (0, [0xA5, 0x40, 0x02, 0x04, 0x05]), (0, [0x25, 0x90])], wr = [0, 0], sent = []\<rparr> (Some [0x80, 0xCA]) 2 (Some (replicate 8 0)) (Some 4) of
      (ret, dev', bus', rx_buf', rx_len') \<Rightarrow>
        ret = 0 \<and> rx_len' = Some 4 \<and>
        rx_buf' = Some [0x01, 0x02, 0x03, 0x04, 0x00, 0x00, 0x00, 0x00] \<and> rd bus' = [] \<and>
        sent bus' = sent (snd (snd (xfer_write_loop dev_calloc \<lparr>rd = [(0, [0xA5, 0x20, 0x03, 0x01, 0x02]), (0, [0x03, 0x61, 0x7D]),
            (0, [0xA5, 0x40, 0x02, 0x04, 0x05]), (0, [0x25, 0x90])], wr = [0, 0], sent = []\<rparr> [0x80, 0xCA] 2 0))) @
                    [[0x5A, 0x90, 0x00, 0x08, 0x2F]])"
proof -
  let ?bus = "\<lparr>rd = [(0 :: int, [0xA5, 0x20, 0x03, 0x01, 0x02 :: byte]), (0, [0x03, 0x61, 0x7D]),
            (0, [0xA5, 0x40, 0x02, 0x04, 0x05]), (0, [0x25, 0x90])], wr = [0, 0 :: int],
            sent = [] :: byte list list\<rparr>"
  let ?tx = "[0x80, 0xCA :: byte]"
  let ?blocks = "[(0x20, [0x01, 0x02, 0x03]), (0x40, [0x04, 0x05])] :: (byte \<times> byte list) list"
  have w: "wr ?bus = 0 # [0]" by simp
  have h1: "wf_dev dev_calloc" by (simp add: wf_dev_def dev_calloc_def)
  have h2: "(2 :: nat) \<noteq> 0" by simp
  have h3: "fst (xfer_write_loop dev_calloc ?bus ?tx 2 0) = 0"
    by (rule xfer_write_loop_single(1) [OF _ _ w]) simp_all
  have h4: "well_chained ?blocks" by (simp add: is_i_block_def)
  have "rd ?bus = chain_wire ?blocks @ []" by code_simp
  then have h5: "rd (snd (snd (xfer_write_loop dev_calloc ?bus ?tx 2 0))) = chain_wire ?blocks @ []"
    by (subst xfer_write_loop_single(2) [OF _ _ w]) simp_all
  have h6: "wr (snd (snd (xfer_write_loop dev_calloc ?bus ?tx 2 0))) =
      replicate (length ?blocks - 1) 0 @ []"
    by (subst xfer_write_loop_single(3) [OF _ _ w]) simp_all
  have h7: "4 \<le> length (replicate 8 (0 :: byte))" by simp
  have h8: "4 < length (concat (map snd ?blocks))" by simp
  have e1: "take 4 (concat (map snd ?blocks)) @ drop 4 (replicate 8 0) =
      [0x01, 0x02, 0x03, 0x04, 0x00, 0x00, 0x00, 0x00]"
    by code_simp
  have e2: "map chain_ack (butlast ?blocks) = [[0x5A, 0x90, 0x00, 0x08, 0x2F]]"
    by code_simp
  note inst = xfer_truncates_without_error [OF h1 h2 h3 h4 h5 h6 h7 h8, unfolded e1 e2]
  from h1 h2 h3 h4 h5 h6 h7 h8 inst show ?thesis by (intro conjI)
qed

end
